(* ===== verification/Py_Base.thy ===== *)
theory Py_Base
  imports Complex_Main "HOL-Library.Char_ord" "HOL-Library.List_Lexorder"
    "HOL-Library.Product_Lexorder"
begin

text \<open>
  The Python fragment every component of the repository is written in: exceptions as values of
  a sum type, strings, the values that \<open>json.loads\<close> and \<open>yaml.safe_load\<close> return, and the
  dictionary, list and membership operations of those values.

  A Python \<open>str\<close> is the list of the bytes of its UTF-8 encoding.  On ASCII text, which is
  what the release inputs hold, this is the list of its characters; concatenation,
  comparison, searching and sorting agree with Python on all text, because UTF-8 keeps the
  code point order.  The whitespace and digit classes below are those of ASCII.
\<close>

named_theorems res_simps \<open>inversion of results: when does a checked computation succeed\<close>
named_theorems py_defs \<open>definitions of the Python operations, for evaluation\<close>

section \<open>Exceptions\<close>

text \<open>
  The exception classes the sources raise or catch.  \<open>bases\<close> lists a class with all its
  base classes, so that an \<open>except\<close> clause is a membership test.
\<close>

datatype exn_class =
    Exception
  | KeyError | IndexError
  | TypeError | AttributeError
  | ValueError | JSONDecodeError | UnicodeError
  | OverflowError
  | StopIteration
  | AssertionError
  | RuntimeError
  | OSError | FileNotFoundError | ProcessLookupError
  | SubprocessError
  | YAMLError
  | ArgumentTypeError
  | ProfileError | ManifestError | GenerationError | PublicationError | LookupFailure
  | ReleaseError | ReleaseSignatureError | SourceError | FetchError | BumpError | LockError
  | ModelMountError | MountUnavailable

fun bases :: "exn_class \<Rightarrow> exn_class list" where
  "bases Exception = [Exception]"
| "bases JSONDecodeError = [JSONDecodeError, ValueError, Exception]"
| "bases UnicodeError = [UnicodeError, ValueError, Exception]"
| "bases FileNotFoundError = [FileNotFoundError, OSError, Exception]"
| "bases ProcessLookupError = [ProcessLookupError, OSError, Exception]"
| "bases ProfileError = [ProfileError, ValueError, Exception]"
| "bases ManifestError = [ManifestError, ValueError, Exception]"
| "bases GenerationError = [GenerationError, ValueError, Exception]"
| "bases PublicationError = [PublicationError, ValueError, Exception]"
| "bases LookupFailure = [LookupFailure, ValueError, Exception]"
| "bases ReleaseError = [ReleaseError, RuntimeError, Exception]"
| "bases ReleaseSignatureError = [ReleaseSignatureError, ValueError, Exception]"
| "bases SourceError = [SourceError, ValueError, Exception]"
| "bases FetchError = [FetchError, ValueError, Exception]"
| "bases BumpError = [BumpError, RuntimeError, Exception]"
| "bases LockError = [LockError, ValueError, Exception]"
| "bases ModelMountError = [ModelMountError, ValueError, Exception]"
| "bases MountUnavailable = [MountUnavailable, ModelMountError, ValueError, Exception]"
| "bases c = [c, Exception]"

text \<open>An exception carries its class and the text of its message.\<close>

datatype exn = Exn (cls: exn_class) (msg: string)

type_synonym 'a res = "exn + 'a"

definition catches :: "exn_class list \<Rightarrow> exn \<Rightarrow> bool" where
  "catches cs e = list_ex (\<lambda>c. c \<in> set cs) (bases (cls e))"

definition bnd :: "'a res \<Rightarrow> ('a \<Rightarrow> 'b res) \<Rightarrow> 'b res" where
  "bnd m f = (case m of Inl e \<Rightarrow> Inl e | Inr x \<Rightarrow> f x)"

definition try_except :: "'a res \<Rightarrow> exn_class list \<Rightarrow> (exn \<Rightarrow> 'a res) \<Rightarrow> 'a res" where
  "try_except m cs h =
     (case m of Inr x \<Rightarrow> Inr x | Inl e \<Rightarrow> if catches cs e then h e else Inl e)"

definition raise_if :: "bool \<Rightarrow> exn \<Rightarrow> unit res" where
  "raise_if b e = (if b then Inl e else Inr ())"

fun mapM :: "('a \<Rightarrow> 'b res) \<Rightarrow> 'a list \<Rightarrow> 'b list res" where
  "mapM f [] = Inr []"
| "mapM f (x # xs) = bnd (f x) (\<lambda>y. bnd (mapM f xs) (\<lambda>ys. Inr (y # ys)))"

fun foldM :: "('s \<Rightarrow> 'a \<Rightarrow> 's res) \<Rightarrow> 's \<Rightarrow> 'a list \<Rightarrow> 's res" where
  "foldM f s [] = Inr s"
| "foldM f s (x # xs) = bnd (f s x) (\<lambda>s'. foldM f s' xs)"

text \<open>A \<open>for\<close> loop whose body only checks.\<close>

fun for_each :: "('a \<Rightarrow> unit res) \<Rightarrow> 'a list \<Rightarrow> unit res" where
  "for_each f [] = Inr ()"
| "for_each f (x # xs) = bnd (f x) (\<lambda>_. for_each f xs)"

text \<open>\<open>any(...)\<close> and \<open>all(...)\<close> over a generator: they stop at the first deciding element.\<close>

fun anyM :: "('a \<Rightarrow> bool res) \<Rightarrow> 'a list \<Rightarrow> bool res" where
  "anyM f [] = Inr False"
| "anyM f (x # xs) = bnd (f x) (\<lambda>b. if b then Inr True else anyM f xs)"

fun allM :: "('a \<Rightarrow> bool res) \<Rightarrow> 'a list \<Rightarrow> bool res" where
  "allM f [] = Inr True"
| "allM f (x # xs) = bnd (f x) (\<lambda>b. if b then allM f xs else Inr False)"

text \<open>\<open>a or b or c\<close> where evaluating an operand may raise.\<close>

definition orsM :: "bool res list \<Rightarrow> bool res" where
  "orsM cs = anyM (\<lambda>c. c) cs"

text \<open>\<open>if a: raise e\<close> where evaluating the condition may raise.\<close>

definition raise_ifM :: "bool res \<Rightarrow> exn \<Rightarrow> unit res" where
  "raise_ifM c e = bnd c (\<lambda>b. raise_if b e)"

text \<open>The first element a loop with an early return stops at.\<close>

fun findM :: "('a \<Rightarrow> bool res) \<Rightarrow> 'a list \<Rightarrow> 'a option res" where
  "findM f [] = Inr None"
| "findM f (x # xs) = bnd (f x) (\<lambda>b. if b then Inr (Some x) else findM f xs)"

fun filterM :: "('a \<Rightarrow> bool res) \<Rightarrow> 'a list \<Rightarrow> 'a list res" where
  "filterM f [] = Inr []"
| "filterM f (x # xs) =
     bnd (f x) (\<lambda>b. bnd (filterM f xs) (\<lambda>ys. Inr (if b then x # ys else ys)))"

lemma bnd_Inr [simp]: "bnd (Inr x) f = f x"
  by (simp add: bnd_def)

lemma bnd_Inl [simp]: "bnd (Inl e) f = Inl e"
  by (simp add: bnd_def)

lemma bnd_cong [fundef_cong]:
  "m = m' \<Longrightarrow> (\<And>x. m' = Inr x \<Longrightarrow> f x = g x) \<Longrightarrow> bnd m f = bnd m' g"
  by (cases m') (auto simp: bnd_def)

lemma bnd_eq_Inr: "bnd m f = Inr y \<longleftrightarrow> (\<exists>x. m = Inr x \<and> f x = Inr y)"
  by (cases m) auto

lemma bndE:
  assumes "bnd m f = Inr y"
  obtains x where "m = Inr x" "f x = Inr y"
  using assms by (auto simp: bnd_eq_Inr)

lemma bnd_eq_Inl: "bnd m f = Inl e \<longleftrightarrow> m = Inl e \<or> (\<exists>x. m = Inr x \<and> f x = Inl e)"
  by (cases m) auto

lemma bnd_InlE:
  assumes "bnd m f = Inl e"
  obtains "m = Inl e" | x where "m = Inr x" "f x = Inl e"
  using assms by (auto simp: bnd_eq_Inl)

lemma bnd_assoc: "bnd (bnd m f) g = bnd m (\<lambda>x. bnd (f x) g)"
  by (cases m) auto

lemma bnd_if: "bnd (if b then m else n) f = (if b then bnd m f else bnd n f)"
  by simp

lemma raise_if_eq_Inr [res_simps]: "raise_if b e = Inr u \<longleftrightarrow> \<not> b"
  by (simp add: raise_if_def)

lemma raise_if_simps [simp]:
  "raise_if True e = Inl e" "raise_if False e = Inr ()"
  by (simp_all add: raise_if_def)

lemma if_Inl_eq_Inr [res_simps]: "(if b then Inl e else m) = Inr y \<longleftrightarrow> \<not> b \<and> m = Inr y"
  by simp

lemma case_option_Inl_Inr [simp]:
  "(case x of None \<Rightarrow> Inl e | Some v \<Rightarrow> Inr v) = Inr w \<longleftrightarrow> x = Some w"
  by (auto split: option.splits)

lemma try_except_Inr [simp]: "try_except (Inr x) cs h = Inr x"
  by (simp add: try_except_def)

lemma try_except_eq_Inr:
  "try_except m cs h = Inr y \<longleftrightarrow>
     m = Inr y \<or> (\<exists>e. m = Inl e \<and> catches cs e \<and> h e = Inr y)"
  by (auto simp: try_except_def split: sum.splits)

lemma try_except_reraise [res_simps]:
  "try_except m cs (\<lambda>e. Inl (g e)) = Inr y \<longleftrightarrow> m = Inr y"
  by (auto simp: try_except_def split: sum.splits)

lemma mapM_cong [fundef_cong]:
  "xs = ys \<Longrightarrow> (\<And>x. x \<in> set ys \<Longrightarrow> f x = g x) \<Longrightarrow> mapM f xs = mapM g ys"
  by (induction ys arbitrary: xs) (auto simp: bnd_def split: sum.splits)

lemma mapM_eq_Inr: "mapM f xs = Inr ys \<longleftrightarrow> list_all2 (\<lambda>x y. f x = Inr y) xs ys"
  by (induction xs arbitrary: ys) (auto simp: bnd_eq_Inr res_simps list_all2_Cons1)

lemma mapM_Inr_map [simp]: "mapM (\<lambda>x. Inr (f x)) xs = Inr (map f xs)"
  by (induction xs) auto

lemma mapM_length: "mapM f xs = Inr ys \<Longrightarrow> length ys = length xs"
  by (auto simp: mapM_eq_Inr dest: list_all2_lengthD)

lemma mapM_member: "mapM f xs = Inr ys \<Longrightarrow> x \<in> set xs \<Longrightarrow> \<exists>y \<in> set ys. f x = Inr y"
  by (induction xs arbitrary: ys) (auto simp: bnd_eq_Inr res_simps)

lemma mapM_member_rev: "mapM f xs = Inr ys \<Longrightarrow> y \<in> set ys \<Longrightarrow> \<exists>x \<in> set xs. f x = Inr y"
  by (induction xs arbitrary: ys) (auto simp: bnd_eq_Inr res_simps)

lemma for_each_eq_Inr [res_simps]: "for_each f xs = Inr u \<longleftrightarrow> (\<forall>x \<in> set xs. f x = Inr ())"
  by (induction xs) (auto simp: bnd_eq_Inr res_simps)

lemma foldM_append: "foldM f s (xs @ ys) = bnd (foldM f s xs) (\<lambda>s'. foldM f s' ys)"
  by (induction xs arbitrary: s) (auto simp: bnd_assoc)

lemma foldM_invariant:
  assumes "foldM f s xs = Inr t" and "P s"
    and "\<And>s x s'. P s \<Longrightarrow> x \<in> set xs \<Longrightarrow> f s x = Inr s' \<Longrightarrow> P s'"
  shows "P t"
  using assms
proof (induction xs arbitrary: s)
  case Nil
  then show ?case by simp
next
  case (Cons x xs)
  from Cons.prems(1) obtain s' where step: "f s x = Inr s'" and rest: "foldM f s' xs = Inr t"
    by (auto simp: bnd_eq_Inr)
  have "P s'" using Cons.prems(3) [OF Cons.prems(2) _ step] by simp
  with rest show ?case
    by (rule Cons.IH) (rule Cons.prems(3), simp_all)
qed

lemma anyM_eq_False: "anyM f xs = Inr False \<longleftrightarrow> (\<forall>x \<in> set xs. f x = Inr False)"
  by (induction xs) (auto simp: bnd_eq_Inr res_simps split: if_splits)

lemma orsM_eq_False: "orsM cs = Inr False \<longleftrightarrow> (\<forall>c \<in> set cs. c = Inr False)"
  by (simp add: orsM_def anyM_eq_False)

lemma orsM_simps [simp]:
  "orsM [] = Inr False" "orsM (Inr True # cs) = Inr True" "orsM (Inr False # cs) = orsM cs"
  "orsM (Inl e # cs) = Inl e" "orsM [c] = c"
  by (simp_all add: orsM_def bnd_def split: sum.splits)

lemma raise_ifM_eq_Inr [res_simps]: "raise_ifM c e = Inr u \<longleftrightarrow> c = Inr False"
  by (auto simp: raise_ifM_def bnd_eq_Inr res_simps)

lemma raise_ifM_Inr [simp]: "raise_ifM (Inr b) e = raise_if b e"
  by (simp add: raise_ifM_def)

lemma findM_eq_Some:
  "findM f xs = Inr (Some x) \<Longrightarrow> x \<in> set xs \<and> f x = Inr True"
  by (induction xs) (auto elim!: bndE split: if_splits)

lemma findM_eq_None: "findM f xs = Inr None \<longleftrightarrow> (\<forall>x \<in> set xs. f x = Inr False)"
  by (induction xs) (auto simp: bnd_eq_Inr res_simps split: if_splits)

lemma findM_Inr [simp]: "findM (\<lambda>x. Inr (p x)) xs = Inr (find p xs)"
  by (induction xs) auto

lemma allM_eq_True: "allM f xs = Inr True \<longleftrightarrow> (\<forall>x \<in> set xs. f x = Inr True)"
  by (induction xs) (auto simp: bnd_eq_Inr res_simps split: if_splits)

lemma anyM_Inr [simp]: "anyM (\<lambda>x. Inr (p x)) xs = Inr (list_ex p xs)"
  by (induction xs) auto

lemma allM_Inr [simp]: "allM (\<lambda>x. Inr (p x)) xs = Inr (list_all p xs)"
  by (induction xs) auto

lemma filterM_Inr [simp]: "filterM (\<lambda>x. Inr (p x)) xs = Inr (filter p xs)"
  by (induction xs) auto

lemma filterM_Inr_iff:
  "filterM f xs = Inr ys \<Longrightarrow> y \<in> set ys \<longleftrightarrow> y \<in> set xs \<and> f y = Inr True"
  by (induction xs arbitrary: ys) (auto split: if_splits elim!: bndE)

lemma filterM_defined: "filterM f xs = Inr ys \<Longrightarrow> x \<in> set xs \<Longrightarrow> \<exists>b. f x = Inr b"
  by (induction xs arbitrary: ys) (auto split: if_splits elim!: bndE)

text \<open>\<open>a and b\<close> where evaluating an operand may raise.\<close>

definition andsM :: "bool res list \<Rightarrow> bool res" where
  "andsM cs = allM (\<lambda>c. c) cs"

lemma andsM_simps [simp]:
  "andsM [] = Inr True" "andsM (c # cs) = bnd c (\<lambda>b. if b then andsM cs else Inr False)"
  unfolding andsM_def by simp_all

end
