(* ===== verification/Py_Text.thy ===== *)
theory Py_Text
  imports Py_Base
begin

text \<open>
  The string operations the sources use, as functions on lists of characters:
  \<open>startswith\<close>, \<open>endswith\<close>, \<open>find\<close>, \<open>partition\<close>, \<open>rpartition\<close>, \<open>split\<close>,
  \<open>splitlines\<close>, \<open>strip\<close>, \<open>replace\<close>, \<open>join\<close>, \<open>str\<close> and \<open>int\<close> of an integer, and
  the path operations of \<open>pathlib.PurePosixPath\<close>.
\<close>

section \<open>Character classes\<close>

abbreviation code :: "char \<Rightarrow> nat" where
  "code c \<equiv> of_char c"

definition is_digit :: "char \<Rightarrow> bool" where
  "is_digit c = (48 \<le> code c \<and> code c \<le> 57)"

definition is_lower :: "char \<Rightarrow> bool" where
  "is_lower c = (97 \<le> code c \<and> code c \<le> 122)"

definition is_upper :: "char \<Rightarrow> bool" where
  "is_upper c = (65 \<le> code c \<and> code c \<le> 90)"

text \<open>The characters of \<open>"0123456789abcdef"\<close>.\<close>

definition is_hex :: "char \<Rightarrow> bool" where
  "is_hex c = (is_digit c \<or> (97 \<le> code c \<and> code c \<le> 102))"

definition is_space :: "char \<Rightarrow> bool" where
  "is_space c = (code c = 32 \<or> (9 \<le> code c \<and> code c \<le> 13) \<or> (28 \<le> code c \<and> code c \<le> 31))"

definition is_line_break :: "char \<Rightarrow> bool" where
  "is_line_break c = ((10 \<le> code c \<and> code c \<le> 13) \<or> (28 \<le> code c \<and> code c \<le> 30))"

lemmas char_class_defs = is_digit_def is_lower_def is_upper_def is_hex_def is_space_def
  is_line_break_def

section \<open>Searching and splitting\<close>

definition startswith :: "string \<Rightarrow> string \<Rightarrow> bool" where
  "startswith s p = (take (length p) s = p)"

definition endswith :: "string \<Rightarrow> string \<Rightarrow> bool" where
  "endswith s p = (length p \<le> length s \<and> drop (length s - length p) s = p)"

definition removeprefix :: "string \<Rightarrow> string \<Rightarrow> string" where
  "removeprefix s p = (if startswith s p then drop (length p) s else s)"

text \<open>\<open>s.find(p)\<close>: the first position, None for -1.\<close>

fun str_find :: "string \<Rightarrow> string \<Rightarrow> nat option" where
  "str_find p [] = (if p = [] then Some 0 else None)"
| "str_find p (c # cs) =
     (if startswith (c # cs) p then Some 0 else map_option Suc (str_find p cs))"

text \<open>\<open>p in s\<close> for strings.\<close>

definition contains :: "string \<Rightarrow> string \<Rightarrow> bool" where
  "contains p s = (str_find p s \<noteq> None)"

text \<open>\<open>s.partition(p)\<close> and \<open>s.rpartition(p)\<close>.\<close>

definition str_partition :: "string \<Rightarrow> string \<Rightarrow> string \<times> string \<times> string" where
  "str_partition p s =
     (case str_find p s of
        None \<Rightarrow> (s, [], [])
      | Some i \<Rightarrow> (take i s, p, drop (i + length p) s))"

definition str_rpartition :: "string \<Rightarrow> string \<Rightarrow> string \<times> string \<times> string" where
  "str_rpartition p s =
     (case str_find (rev p) (rev s) of
        None \<Rightarrow> ([], [], s)
      | Some i \<Rightarrow> (take (length s - (i + length p)) s, p, drop (length s - i) s))"

text \<open>\<open>s.split(c)\<close> for a one-character separator.\<close>

fun split_char :: "char \<Rightarrow> string \<Rightarrow> string list" where
  "split_char c [] = [[]]"
| "split_char c (x # xs) =
     (if x = c then [] # split_char c xs
      else (case split_char c xs of [] \<Rightarrow> [[x]] | y # ys \<Rightarrow> (x # y) # ys))"

text \<open>\<open>s.split()\<close>: the maximal runs of characters that are not white space.\<close>

fun split_ws_aux :: "string \<Rightarrow> string \<Rightarrow> string list" where
  "split_ws_aux w [] = (if w = [] then [] else [rev w])"
| "split_ws_aux w (x # xs) =
     (if is_space x then (if w = [] then split_ws_aux [] xs else rev w # split_ws_aux [] xs)
      else split_ws_aux (x # w) xs)"

definition split_ws :: "string \<Rightarrow> string list" where
  "split_ws s = split_ws_aux [] s"

text \<open>\<open>s.splitlines(keepends=True)\<close>: a line keeps its break, and CR LF is one break.\<close>

fun split_keepends_aux :: "string \<Rightarrow> string \<Rightarrow> string list" where
  "split_keepends_aux w [] = (if w = [] then [] else [rev w])"
| "split_keepends_aux w (x # xs) =
     (if is_line_break x
      then (case xs of
              y # ys \<Rightarrow> if code x = 13 \<and> code y = 10 then rev (y # x # w) # split_keepends_aux [] ys
                        else rev (x # w) # split_keepends_aux [] xs
            | [] \<Rightarrow> [rev (x # w)])
      else split_keepends_aux (x # w) xs)"

definition splitlines_keepends :: "string \<Rightarrow> string list" where
  "splitlines_keepends s = split_keepends_aux [] s"

fun drop_break :: "string \<Rightarrow> string" where
  "drop_break s = takeWhile (\<lambda>c. \<not> is_line_break c) s"

definition splitlines :: "string \<Rightarrow> string list" where
  "splitlines s = map drop_break (splitlines_keepends s)"

definition str_strip :: "string \<Rightarrow> string" where
  "str_strip s = rev (dropWhile is_space (rev (dropWhile is_space s)))"

definition str_rstrip :: "char \<Rightarrow> string \<Rightarrow> string" where
  "str_rstrip c s = rev (dropWhile (\<lambda>x. x = c) (rev s))"

fun str_join :: "string \<Rightarrow> string list \<Rightarrow> string" where
  "str_join sep [] = []"
| "str_join sep [x] = x"
| "str_join sep (x # xs) = x @ sep @ str_join sep xs"

text \<open>\<open>s.replace(old, new)\<close> and \<open>s.replace(old, new, 1)\<close> for a non-empty \<open>old\<close>.\<close>

function str_replace :: "string \<Rightarrow> string \<Rightarrow> string \<Rightarrow> string" where
  "str_replace old new [] = []"
| "str_replace old new (c # cs) =
     (if old \<noteq> [] \<and> startswith (c # cs) old
      then new @ str_replace old new (drop (length old) (c # cs))
      else c # str_replace old new cs)"
  by pat_completeness auto
termination
  by (relation "measure (\<lambda>(old, new, s). length s)") (auto simp: neq_Nil_conv)

definition str_replace_first :: "string \<Rightarrow> string \<Rightarrow> string \<Rightarrow> string" where
  "str_replace_first old new s =
     (case str_find old s of
        None \<Rightarrow> s
      | Some i \<Rightarrow> take i s @ new @ drop (i + length old) s)"

section \<open>Numerals\<close>

fun str_of_nat :: "nat \<Rightarrow> string" where
  "str_of_nat n =
     (if n < 10 then [char_of (48 + n)] else str_of_nat (n div 10) @ [char_of (48 + n mod 10)])"

declare str_of_nat.simps [simp del]

definition str_of_int :: "int \<Rightarrow> string" where
  "str_of_int i = (if i < 0 then CHR ''-'' # str_of_nat (nat (- i)) else str_of_nat (nat i))"

definition nat_of_digits :: "string \<Rightarrow> nat" where
  "nat_of_digits s = foldl (\<lambda>n c. 10 * n + (code c - 48)) 0 s"

section \<open>Paths\<close>

text \<open>
  \<open>PurePosixPath(s).parts\<close>: the components without empty and dot components, and the
  root first in an absolute path; exactly two leading slashes are a root of their own.
\<close>

definition path_parts :: "string \<Rightarrow> string list" where
  "path_parts s =
     (if startswith s ''//'' \<and> \<not> startswith s ''///'' then [''//'']
      else if startswith s ''/'' then [''/''] else []) @
     filter (\<lambda>p. p \<noteq> [] \<and> p \<noteq> ''.'') (split_char (CHR ''/'') s)"

definition path_is_absolute :: "string \<Rightarrow> bool" where
  "path_is_absolute s = startswith s ''/''"

text \<open>\<open>PurePosixPath(s).name\<close>.\<close>

definition path_name :: "string \<Rightarrow> string" where
  "path_name s =
     (let ps = filter (\<lambda>p. CHR ''/'' \<notin> set p) (path_parts s) in if ps = [] then [] else last ps)"

section \<open>Facts\<close>

lemma startswith_append [simp]: "startswith (p @ s) p"
  by (simp add: startswith_def)

lemma startswith_iff: "startswith s p \<longleftrightarrow> (\<exists>t. s = p @ t)"
  by (metis append_eq_conv_conj append_take_drop_id startswith_def)

lemma endswith_iff: "endswith s p \<longleftrightarrow> (\<exists>t. s = t @ p)"
proof
  assume "endswith s p"
  then have "s = take (length s - length p) s @ p"
    by (metis append_take_drop_id endswith_def)
  then show "\<exists>t. s = t @ p" by blast
next
  assume "\<exists>t. s = t @ p"
  then show "endswith s p" by (auto simp: endswith_def)
qed

lemma removeprefix_append [simp]: "removeprefix (p @ s) p = s"
  by (simp add: removeprefix_def)

lemma str_find_Some: "str_find p s = Some i \<Longrightarrow> \<exists>a b. s = a @ p @ b \<and> length a = i"
proof (induction p s arbitrary: i rule: str_find.induct)
  case (1 p)
  then show ?case by (auto split: if_splits)
next
  case (2 p c cs)
  show ?case
  proof (cases "startswith (c # cs) p")
    case True
    with "2.prems" show ?thesis by (auto simp: startswith_iff)
  next
    case False
    with "2.prems" obtain j where j: "str_find p cs = Some j" "i = Suc j" by auto
    with "2.IH" [OF False] obtain a b where "cs = a @ p @ b" "length a = j" by blast
    then have "c # cs = (c # a) @ p @ b \<and> length (c # a) = i" using j by simp
    then show ?thesis by blast
  qed
qed

lemma str_find_append: "str_find p (a @ p @ b) \<noteq> None"
proof (induction a)
  case Nil
  have "startswith (p @ b) p" by simp
  then show ?case by (cases "p @ b") auto
next
  case (Cons c a)
  then show ?case by auto
qed

lemma contains_iff: "contains p s \<longleftrightarrow> (\<exists>a b. s = a @ p @ b)"
  using str_find_Some str_find_append by (fastforce simp: contains_def)

lemma str_find_char_first:
  "c \<notin> set a \<Longrightarrow> str_find [c] (a @ c # b) = Some (length a)"
  by (induction a) (auto simp: startswith_def)

lemma str_partition_char:
  "c \<notin> set a \<Longrightarrow> str_partition [c] (a @ c # b) = (a, [c], b)"
  by (simp add: str_partition_def str_find_char_first)

lemma str_rpartition_shape:
  assumes "str_rpartition p s = (a, sep, b)" "sep \<noteq> []"
  shows "s = a @ p @ b"
proof -
  from assms obtain i where i: "str_find (rev p) (rev s) = Some i"
    and a: "a = take (length s - (i + length p)) s" and b: "b = drop (length s - i) s"
    by (auto simp: str_rpartition_def split: option.splits)
  from str_find_Some [OF i] obtain u v where "rev s = u @ rev p @ v" "length u = i" by blast
  then have "s = rev v @ p @ rev u" "length u = i"
    by (metis append_assoc rev_append rev_rev_ident, simp)
  with a b show ?thesis by simp
qed

lemma str_rpartition_char:
  assumes "c \<notin> set b"
  shows "str_rpartition [c] (a @ c # b) = (a, [c], b)"
proof -
  have "str_find [c] (rev (a @ c # b)) = Some (length b)"
    using assms str_find_char_first [of c "rev b" "rev a"] by simp
  then show ?thesis by (simp add: str_rpartition_def)
qed

lemma split_char_nonempty [simp]: "split_char c s \<noteq> []"
  by (cases s) (auto split: list.splits)

lemma join_split_char: "str_join [c] (split_char c s) = s"
proof (induction c s rule: split_char.induct)
  case (1 c)
  show ?case by simp
next
  case (2 c x xs)
  obtain y ys where ys: "split_char c xs = y # ys"
    by (meson neq_Nil_conv split_char_nonempty)
  show ?case
  proof (cases "x = c")
    case True
    with 2 ys show ?thesis by simp
  next
    case False
    with 2 ys show ?thesis by (cases ys) auto
  qed
qed

lemma split_char_no_sep: "p \<in> set (split_char c s) \<Longrightarrow> c \<notin> set p"
proof (induction c s arbitrary: p rule: split_char.induct)
  case (1 c)
  then show ?case by simp
next
  case (2 c x xs)
  obtain y ys where "split_char c xs = y # ys"
    by (meson neq_Nil_conv split_char_nonempty)
  with 2 show ?case by (auto split: if_splits)
qed

lemma str_replace_absent: "\<not> contains old s \<Longrightarrow> str_replace old new s = s"
proof (induction old new s rule: str_replace.induct)
  case (1 old new)
  show ?case by simp
next
  case (2 old new c cs)
  have "\<not> startswith (c # cs) old" and "\<not> contains old cs"
    using "2.prems" by (auto simp: contains_def split: if_splits)
  with 2 show ?case by simp
qed

text \<open>\<open>argument.split("=", 1)[0].replace("_", "-")\<close>: the flag an argument names.\<close>

definition flag_of :: "string \<Rightarrow> string" where
  "flag_of argument =
     map (\<lambda>c. if c = CHR ''_'' then CHR ''-'' else c) (takeWhile (\<lambda>c. c \<noteq> CHR ''='') argument)"

end
