(* ===== verification/Py_Value.thy ===== *)
theory Py_Value
  imports Py_Text
begin

text \<open>
  The values the sources pass around: what \<open>json.loads\<close> and \<open>yaml.safe_load\<close> return.
  A dictionary is the list of its items in insertion order.  Every accessor raises what the
  Python operation raises on a value of another type.
\<close>

section \<open>Dictionaries\<close>

text \<open>\<open>d[k] = v\<close> keeps the position of an existing key and appends a new one.\<close>

fun dset :: "'k \<Rightarrow> 'v \<Rightarrow> ('k \<times> 'v) list \<Rightarrow> ('k \<times> 'v) list" where
  "dset k v [] = [(k, v)]"
| "dset k v ((k', v') # d) = (if k' = k then (k, v) # d else (k', v') # dset k v d)"

definition ddel :: "'k \<Rightarrow> ('k \<times> 'v) list \<Rightarrow> ('k \<times> 'v) list" where
  "ddel k d = filter (\<lambda>(k', _). k' \<noteq> k) d"

definition dkeys :: "('k \<times> 'v) list \<Rightarrow> 'k list" where
  "dkeys d = map fst d"

text \<open>\<open>d.update(e)\<close> and \<open>{**d, **e}\<close>; a dict built from a list of items is \<open>dupdate [] items\<close>.\<close>

definition dupdate :: "('k \<times> 'v) list \<Rightarrow> ('k \<times> 'v) list \<Rightarrow> ('k \<times> 'v) list" where
  "dupdate d e = foldl (\<lambda>d (k, v). dset k v d) d e"

definition dict_ok :: "('k \<times> 'v) list \<Rightarrow> bool" where
  "dict_ok d = distinct (map fst d)"

text \<open>The contract of a dictionary: what a lookup returns after each change.\<close>

locale dictionary =
  fixes empty :: "'d"
    and look :: "'d \<Rightarrow> 'k \<Rightarrow> 'v option"
    and put :: "'k \<Rightarrow> 'v \<Rightarrow> 'd \<Rightarrow> 'd"
    and del :: "'k \<Rightarrow> 'd \<Rightarrow> 'd"
    and keys_of :: "'d \<Rightarrow> 'k list"
    and ok :: "'d \<Rightarrow> bool"
  assumes look_empty: "look empty k = None"
    and look_put: "look (put k v d) k' = (if k' = k then Some v else look d k')"
    and look_del: "look (del k d) k' = (if k' = k then None else look d k')"
    and keys_look: "set (keys_of d) = {k. look d k \<noteq> None}"
    and ok_empty: "ok empty"
    and ok_put: "ok d \<Longrightarrow> ok (put k v d)"
    and ok_del: "ok d \<Longrightarrow> ok (del k d)"
    and ok_keys: "ok d \<Longrightarrow> distinct (keys_of d)"
begin

definition put_all :: "'d \<Rightarrow> ('k \<times> 'v) list \<Rightarrow> 'd" where
  "put_all d e = foldl (\<lambda>d (k, v). put k v d) d e"

lemma look_put_all:
  "look (put_all d e) k = (case map_of (rev e) k of None \<Rightarrow> look d k | Some v \<Rightarrow> Some v)"
proof (induction e arbitrary: d rule: rev_induct)
  case Nil
  show ?case by (simp add: put_all_def)
next
  case (snoc kv e)
  then show ?case by (cases kv) (simp add: put_all_def look_put)
qed

lemma ok_put_all: "ok d \<Longrightarrow> ok (put_all d e)"
  by (induction e arbitrary: d) (auto simp: put_all_def ok_put)

lemma keys_put: "set (keys_of (put k v d)) = insert k (set (keys_of d))"
  by (auto simp: keys_look look_put)

lemma keys_del: "set (keys_of (del k d)) = set (keys_of d) - {k}"
  by (auto simp: keys_look look_del)

lemma keys_put_all: "set (keys_of (put_all d e)) = set (keys_of d) \<union> fst ` set e"
proof (induction e arbitrary: d)
  case Nil
  show ?case by (simp add: put_all_def)
next
  case (Cons kv e)
  have "put_all d (kv # e) = put_all (put (fst kv) (snd kv) d) e"
    by (simp add: put_all_def case_prod_beta)
  with Cons show ?case by (simp add: keys_put)
qed

end

lemma map_of_dset: "map_of (dset k v d) k' = (if k' = k then Some v else map_of d k')"
  by (induction k v d rule: dset.induct) auto

lemma map_of_ddel: "map_of (ddel k d) k' = (if k' = k then None else map_of d k')"
  by (induction d) (auto simp: ddel_def)

lemma keys_dset: "fst ` set (dset k v d) = insert k (fst ` set d)"
  by (induction k v d rule: dset.induct) auto

lemma dict_ok_dset: "dict_ok d \<Longrightarrow> dict_ok (dset k v d)"
  by (induction k v d rule: dset.induct) (auto simp: dict_ok_def keys_dset)

lemma dict_ok_ddel: "dict_ok d \<Longrightarrow> dict_ok (ddel k d)"
  by (induction d) (auto simp: dict_ok_def ddel_def)

interpretation pd: dictionary "[]" map_of dset ddel dkeys dict_ok
proof
  fix d :: "('k \<times> 'v) list" and k k' :: 'k and v :: 'v
  show "map_of [] k = None" by simp
  show "map_of (dset k v d) k' = (if k' = k then Some v else map_of d k')"
    by (rule map_of_dset)
  show "map_of (ddel k d) k' = (if k' = k then None else map_of d k')"
    by (rule map_of_ddel)
  show "set (dkeys d) = {k. map_of d k \<noteq> None}"
    by (auto simp: dkeys_def map_of_eq_None_iff)
  show "dict_ok ([] :: ('k \<times> 'v) list)" by (simp add: dict_ok_def)
  show "dict_ok d \<Longrightarrow> dict_ok (dset k v d)" by (rule dict_ok_dset)
  show "dict_ok d \<Longrightarrow> dict_ok (ddel k d)" by (rule dict_ok_ddel)
  show "dict_ok d \<Longrightarrow> distinct (dkeys d)" by (simp add: dict_ok_def dkeys_def)
qed

lemma dupdate_put_all: "dupdate d e = pd.put_all d e"
  by (simp add: dupdate_def pd.put_all_def)

lemma map_of_dupdate:
  "map_of (dupdate d e) k = (case map_of (rev e) k of None \<Rightarrow> map_of d k | Some v \<Rightarrow> Some v)"
  by (simp add: dupdate_put_all pd.look_put_all)

lemma map_of_rev_ok: "dict_ok d \<Longrightarrow> map_of (rev d) = map_of d"
  by (simp add: dict_ok_def map_of_inject_set distinct_rev rev_map flip: rev_map)

lemma dict_ok_dupdate: "dict_ok d \<Longrightarrow> dict_ok (dupdate d e)"
  by (simp add: dupdate_put_all pd.ok_put_all)

lemma keys_dupdate: "set (dkeys (dupdate d e)) = set (dkeys d) \<union> fst ` set e"
  by (simp add: dupdate_put_all pd.keys_put_all)

section \<open>Values\<close>

text \<open>
  A float is one of the special values or an exact rational; the rounding of binary floating
  point is not modelled.
\<close>

datatype pyfloat = Flt rat | PosInf | NegInf | NotANumber

datatype pyv =
    PNone
  | PBool bool
  | PInt int
  | PFloat pyfloat
  | PStr string
  | PList "pyv list"
  | PDict "(string \<times> pyv) list"

type_synonym pydict = "(string \<times> pyv) list"

fun is_dict :: "pyv \<Rightarrow> bool" where
  "is_dict (PDict _) = True" | "is_dict _ = False"

fun is_list :: "pyv \<Rightarrow> bool" where
  "is_list (PList _) = True" | "is_list _ = False"

fun is_str :: "pyv \<Rightarrow> bool" where
  "is_str (PStr _) = True" | "is_str _ = False"

text \<open>\<open>isinstance(x, int)\<close> holds for a bool; \<open>type(x) is int\<close> does not.\<close>

fun isinstance_int :: "pyv \<Rightarrow> bool" where
  "isinstance_int (PInt _) = True" | "isinstance_int (PBool _) = True" | "isinstance_int _ = False"

fun int_value :: "pyv \<Rightarrow> int" where
  "int_value (PInt i) = i"
| "int_value (PBool b) = (if b then 1 else 0)"
| "int_value _ = 0"

fun type_is_int :: "pyv \<Rightarrow> bool" where
  "type_is_int (PInt _) = True" | "type_is_int _ = False"

fun is_bool :: "pyv \<Rightarrow> bool" where
  "is_bool (PBool _) = True" | "is_bool _ = False"

fun truthy :: "pyv \<Rightarrow> bool" where
  "truthy PNone = False"
| "truthy (PBool b) = b"
| "truthy (PInt i) = (i \<noteq> 0)"
| "truthy (PFloat f) = (f \<noteq> Flt 0)"
| "truthy (PStr s) = (s \<noteq> [])"
| "truthy (PList xs) = (xs \<noteq> [])"
| "truthy (PDict d) = (d \<noteq> [])"

text \<open>\<open>a or b\<close>.\<close>

definition py_or :: "pyv \<Rightarrow> pyv \<Rightarrow> pyv" where
  "py_or a b = (if truthy a then a else b)"

text \<open>\<open>==\<close>: numbers compare by value across types, dictionaries without order.\<close>

fun num_of :: "pyv \<Rightarrow> pyfloat option" where
  "num_of (PBool b) = Some (Flt (if b then 1 else 0))"
| "num_of (PInt i) = Some (Flt (of_int i))"
| "num_of (PFloat f) = Some f"
| "num_of _ = None"

fun float_eq :: "pyfloat \<Rightarrow> pyfloat \<Rightarrow> bool" where
  "float_eq NotANumber _ = False"
| "float_eq a b = (a = b)"

function py_eq :: "pyv \<Rightarrow> pyv \<Rightarrow> bool" where
  "py_eq v w =
     (case v of
        PNone \<Rightarrow> w = PNone
      | PStr s \<Rightarrow> w = PStr s
      | PList xs \<Rightarrow> (case w of
            PList ys \<Rightarrow> length xs = length ys \<and> list_all (\<lambda>(x, y). py_eq x y) (zip xs ys)
          | _ \<Rightarrow> False)
      | PDict d \<Rightarrow> (case w of
            PDict e \<Rightarrow> length d = length e \<and>
              list_all (\<lambda>(k, x). case map_of e k of None \<Rightarrow> False | Some y \<Rightarrow> py_eq x y) d
          | _ \<Rightarrow> False)
      | _ \<Rightarrow> (case (num_of v, num_of w) of
            (Some a, Some b) \<Rightarrow> float_eq a b
          | _ \<Rightarrow> False))"
  by pat_completeness auto
termination
proof (relation "measure (\<lambda>(v, w). size v)")
  show "wf (measure (\<lambda>(v :: pyv, w :: pyv). size v))" by simp
next
  fix v w x y :: pyv and xs ys :: "pyv list" and p
  assume "v = PList xs" "p \<in> set (zip xs ys)" "(x, y) = p"
  then have "x \<in> set xs" by (auto dest: set_zip_leftD)
  then have "size x \<le> size_list size xs" by (rule size_list_estimation') simp
  with \<open>v = PList xs\<close> show "((x, y), (v, w)) \<in> measure (\<lambda>(v, w). size v)"
    by (simp add: less_Suc_eq_le)
next
  fix v w x y :: pyv and d e :: "(string \<times> pyv) list" and p k
  assume "v = PDict d" "p \<in> set d" "(k, x) = p"
  then have "(k, x) \<in> set d" by simp
  then have "size x \<le> size_list (size_prod (\<lambda>_. 0) size) d"
    by (rule size_list_estimation') simp
  with \<open>v = PDict d\<close> show "((x, y), (v, w)) \<in> measure (\<lambda>(v, w). size v)"
    by (simp add: less_Suc_eq_le)
qed

declare py_eq.simps [simp del]

lemma py_eq_PStr [simp]: "py_eq (PStr s) w \<longleftrightarrow> w = PStr s"
  by (simp add: py_eq.simps)

lemma py_eq_PStr_right [simp]: "py_eq v (PStr s) \<longleftrightarrow> v = PStr s"
  by (subst py_eq.simps) (auto split: pyv.splits option.splits)

lemma py_eq_PNone [simp]: "py_eq PNone w \<longleftrightarrow> w = PNone"
  by (simp add: py_eq.simps)

lemma py_eq_PList [simp]:
  "py_eq (PList xs) (PList ys) \<longleftrightarrow> list_all2 py_eq xs ys"
  by (simp add: py_eq.simps [of "PList xs"] list_all2_iff list_all_iff)

lemma py_eq_PDict [simp]:
  "py_eq (PDict d) (PDict e) \<longleftrightarrow>
     length d = length e \<and>
     list_all (\<lambda>(k, x). case map_of e k of None \<Rightarrow> False | Some y \<Rightarrow> py_eq x y) d"
  by (simp add: py_eq.simps [of "PDict d"])

lemma py_eq_PInt [simp]: "py_eq (PInt i) (PInt j) \<longleftrightarrow> i = j"
  by (simp add: py_eq.simps)

lemma py_eq_PBool [simp]: "py_eq (PBool a) (PBool b) \<longleftrightarrow> a = b"
  by (cases a; cases b) (simp_all add: py_eq.simps)

text \<open>Equality is reflexive on well-formed values without not-a-number floats.\<close>

fun wf_pyv :: "pyv \<Rightarrow> bool" where
  "wf_pyv (PFloat f) = (f \<noteq> NotANumber)"
| "wf_pyv (PList xs) = list_all wf_pyv xs"
| "wf_pyv (PDict d) = (dict_ok d \<and> list_all (\<lambda>(k, v). wf_pyv v) d)"
| "wf_pyv _ = True"

section \<open>Access\<close>

abbreviation no_attribute :: "'a res" where
  "no_attribute \<equiv> Inl (Exn AttributeError [])"

abbreviation type_error :: "'a res" where
  "type_error \<equiv> Inl (Exn TypeError [])"

abbreviation key_error :: "string \<Rightarrow> 'a res" where
  "key_error k \<equiv> Inl (Exn KeyError k)"

text \<open>\<open>v.get(k, default)\<close>, \<open>v.get(k)\<close> and \<open>v[k]\<close> with a string key.\<close>

fun jgetd :: "pyv \<Rightarrow> string \<Rightarrow> pyv \<Rightarrow> pyv res" where
  "jgetd (PDict d) k dflt = Inr (case map_of d k of None \<Rightarrow> dflt | Some v \<Rightarrow> v)"
| "jgetd _ k dflt = no_attribute"

definition jget :: "pyv \<Rightarrow> string \<Rightarrow> pyv res" where
  "jget v k = jgetd v k PNone"

fun jidx :: "pyv \<Rightarrow> string \<Rightarrow> pyv res" where
  "jidx (PDict d) k = (case map_of d k of None \<Rightarrow> key_error k | Some v \<Rightarrow> Inr v)"
| "jidx _ k = type_error"

text \<open>\<open>xs[i]\<close> with a non-negative index.\<close>

fun jnth :: "pyv \<Rightarrow> nat \<Rightarrow> pyv res" where
  "jnth (PList xs) i = (if i < length xs then Inr (xs ! i) else Inl (Exn IndexError []))"
| "jnth (PStr s) i = (if i < length s then Inr (PStr [s ! i]) else Inl (Exn IndexError []))"
| "jnth (PDict _) i = key_error []"
| "jnth _ i = type_error"

text \<open>\<open>k in v\<close> for a string \<open>k\<close>.\<close>

fun jin :: "string \<Rightarrow> pyv \<Rightarrow> bool res" where
  "jin k (PDict d) = Inr (k \<in> fst ` set d)"
| "jin k (PList xs) = Inr (PStr k \<in> set xs)"
| "jin k (PStr s) = Inr (contains k s)"
| "jin k _ = type_error"

text \<open>Iteration, \<open>len\<close>, \<open>items\<close>, \<open>values\<close> and \<open>+\<close>.\<close>

fun jiter :: "pyv \<Rightarrow> pyv list res" where
  "jiter (PList xs) = Inr xs"
| "jiter (PDict d) = Inr (map (\<lambda>(k, _). PStr k) d)"
| "jiter (PStr s) = Inr (map (\<lambda>c. PStr [c]) s)"
| "jiter _ = type_error"

fun jlen :: "pyv \<Rightarrow> nat res" where
  "jlen (PList xs) = Inr (length xs)"
| "jlen (PDict d) = Inr (length d)"
| "jlen (PStr s) = Inr (length s)"
| "jlen _ = type_error"

fun jitems :: "pyv \<Rightarrow> pydict res" where
  "jitems (PDict d) = Inr d"
| "jitems _ = no_attribute"

fun jvalues :: "pyv \<Rightarrow> pyv list res" where
  "jvalues (PDict d) = Inr (map snd d)"
| "jvalues _ = no_attribute"

fun list_add :: "pyv \<Rightarrow> pyv \<Rightarrow> pyv list res" where
  "list_add (PList xs) (PList ys) = Inr (xs @ ys)"
| "list_add _ _ = type_error"

text \<open>A string method on a value that is not a string raises \<open>AttributeError\<close>.\<close>

fun str_method :: "pyv \<Rightarrow> string res" where
  "str_method (PStr s) = Inr s"
| "str_method _ = no_attribute"

text \<open>An argument of a command, or a part of a \<open>join\<close>, that is not a string raises \<open>TypeError\<close>.\<close>

definition arg_text :: "pyv \<Rightarrow> string res" where
  "arg_text v = (case v of PStr s \<Rightarrow> Inr s | _ \<Rightarrow> type_error)"

lemma arg_text_Inr [res_simps]: "arg_text v = Inr s \<longleftrightarrow> v = PStr s"
  by (cases v) (auto simp: arg_text_def)

lemma arg_text_PStr [simp]: "arg_text (PStr s) = Inr s"
  by (simp add: arg_text_def)

text \<open>\<open>value not in a set display of strings\<close> needs a hashable value.\<close>

fun hashable :: "pyv \<Rightarrow> bool" where
  "hashable (PList _) = False" | "hashable (PDict _) = False" | "hashable _ = True"

definition in_strs :: "pyv \<Rightarrow> string list \<Rightarrow> bool res" where
  "in_strs v ss = (if hashable v then Inr (v \<in> PStr ` set ss) else type_error)"

text \<open>\<open>set(xs)\<close>: the distinct elements, each of which must be hashable.\<close>

fun dedup :: "pyv list \<Rightarrow> pyv list" where
  "dedup [] = []"
| "dedup (x # xs) = x # filter (\<lambda>y. \<not> py_eq x y) (dedup xs)"

definition py_set :: "pyv list \<Rightarrow> pyv list res" where
  "py_set xs = (if list_all hashable xs then Inr (dedup xs) else type_error)"

text \<open>\<open>v in w\<close> for any value.\<close>

fun py_in :: "pyv \<Rightarrow> pyv \<Rightarrow> bool res" where
  "py_in v (PList xs) = Inr (list_ex (py_eq v) xs)"
| "py_in v (PDict d) = in_strs v (map fst d)"
| "py_in (PStr k) (PStr s) = Inr (contains k s)"
| "py_in _ _ = type_error"

text \<open>\<open>a + b\<close> on lists, strings and integers.\<close>

fun py_add :: "pyv \<Rightarrow> pyv \<Rightarrow> pyv res" where
  "py_add (PList xs) (PList ys) = Inr (PList (xs @ ys))"
| "py_add (PStr s) (PStr t) = Inr (PStr (s @ t))"
| "py_add (PInt i) (PInt j) = Inr (PInt (i + j))"
| "py_add _ _ = type_error"

text \<open>\<open>d.get(k, default)\<close> with a key of any type, on a dictionary with string keys.\<close>

definition dget :: "pydict \<Rightarrow> pyv \<Rightarrow> pyv \<Rightarrow> pyv res" where
  "dget d k dflt =
     (if hashable k
      then Inr (case k of PStr s \<Rightarrow> (case map_of d s of None \<Rightarrow> dflt | Some v \<Rightarrow> v) | _ \<Rightarrow> dflt)
      else type_error)"

text \<open>
  \<open>sorted(xs, key=f)\<close> on the keys of the elements: strings by code point, numbers by size; a mixture,
  and any other pair of keys, does not compare.
\<close>

definition key_text :: "pyv \<Rightarrow> string" where
  "key_text v = (case v of PStr s \<Rightarrow> s | _ \<Rightarrow> [])"

definition key_number :: "pyv \<Rightarrow> rat" where
  "key_number v = (case num_of v of Some (Flt q) \<Rightarrow> q | _ \<Rightarrow> 0)"

definition is_number :: "pyv \<Rightarrow> bool" where
  "is_number v = (case num_of v of Some (Flt q) \<Rightarrow> True | _ \<Rightarrow> False)"

definition py_sorted :: "(pyv \<times> 'a) list \<Rightarrow> 'a list res" where
  "py_sorted xs =
     (if length xs \<le> 1 then Inr (map snd xs)
      else if list_all (\<lambda>(k, _). is_str k) xs then Inr (map snd (sort_key (\<lambda>(k, _). key_text k) xs))
      else if list_all (\<lambda>(k, _). is_number k) xs then Inr (map snd (sort_key (\<lambda>(k, _). key_number k) xs))
      else type_error)"

lemma py_sorted_set: "py_sorted xs = Inr ys \<Longrightarrow> set ys = snd ` set xs"
  by (force simp: py_sorted_def split: if_splits)

lemma py_sorted_length: "py_sorted xs = Inr ys \<Longrightarrow> length ys = length xs"
  by (auto simp: py_sorted_def split: if_splits)

lemma py_sorted_distinct: "py_sorted xs = Inr ys \<Longrightarrow> distinct (map snd xs) \<Longrightarrow> distinct ys"
  by (metis card_distinct distinct_card length_map list.set_map py_sorted_length py_sorted_set)

text \<open>\<open>set(ks) == {...}\<close> and \<open>set(ks) <= {...}\<close> on lists of keys.\<close>

definition same_keys :: "string list \<Rightarrow> string list \<Rightarrow> bool" where
  "same_keys xs ys = (list_all (\<lambda>x. x \<in> set ys) xs \<and> list_all (\<lambda>y. y \<in> set xs) ys)"

definition sub_keys :: "string list \<Rightarrow> string list \<Rightarrow> bool" where
  "sub_keys xs ys = list_all (\<lambda>x. x \<in> set ys) xs"

section \<open>Text of values\<close>

text \<open>
  \<open>repr\<close> and \<open>str\<close>.  A float is printed with its exact decimal digits (four hundred at
  most), where Python prints the shortest digits that read back.
\<close>

fun frac_digits :: "nat \<Rightarrow> int \<Rightarrow> int \<Rightarrow> string" where
  "frac_digits 0 r b = []"
| "frac_digits (Suc n) r b =
     (if r = 0 then [] else str_of_int (10 * r div b) @ frac_digits n (10 * r mod b) b)"

definition rat_str :: "rat \<Rightarrow> string" where
  "rat_str q =
     (case quotient_of q of (a, b) \<Rightarrow>
        (if a < 0 then ''-'' else []) @ str_of_int (\<bar>a\<bar> div b) @ ''.'' @
        (if \<bar>a\<bar> mod b = 0 then ''0'' else frac_digits 400 (\<bar>a\<bar> mod b) b))"

fun float_repr :: "pyfloat \<Rightarrow> string" where
  "float_repr (Flt q) = rat_str q"
| "float_repr PosInf = ''inf''"
| "float_repr NegInf = ''-inf''"
| "float_repr NotANumber = ''nan''"

definition backslash :: char where
  "backslash = CHR 0x5C"

definition quote :: char where
  "quote = CHR 0x27"

definition dquote :: char where
  "dquote = CHR 0x22"

definition hex_digit :: "nat \<Rightarrow> char" where
  "hex_digit n = (if n < 10 then char_of (48 + n) else char_of (87 + n))"

fun repr_char :: "char \<Rightarrow> char \<Rightarrow> string" where
  "repr_char q c =
     (if c = q \<or> c = backslash then [backslash, c]
      else if code c = 10 then [backslash, CHR ''n'']
      else if code c = 13 then [backslash, CHR ''r'']
      else if code c = 9 then [backslash, CHR ''t'']
      else if code c < 32 \<or> code c = 127
      then [backslash, CHR ''x'', hex_digit (code c div 16), hex_digit (code c mod 16)]
      else [c])"

definition str_repr :: "string \<Rightarrow> string" where
  "str_repr s =
     (let q = (if quote \<in> set s \<and> dquote \<notin> set s then dquote else quote)
      in [q] @ concat (map (repr_char q) s) @ [q])"

fun py_repr :: "pyv \<Rightarrow> string" where
  "py_repr PNone = ''None''"
| "py_repr (PBool b) = (if b then ''True'' else ''False'')"
| "py_repr (PInt i) = str_of_int i"
| "py_repr (PFloat f) = float_repr f"
| "py_repr (PStr s) = str_repr s"
| "py_repr (PList xs) = ''['' @ str_join '', '' (map py_repr xs) @ '']''"
| "py_repr (PDict d) =
     ''{'' @ str_join '', '' (map (\<lambda>(k, v). str_repr k @ '': '' @ py_repr v) d) @ ''}''"

fun py_str :: "pyv \<Rightarrow> string" where
  "py_str (PStr s) = s"
| "py_str v = py_repr v"

section \<open>Facts\<close>

lemma jgetd_eq_Inr [res_simps]:
  "jgetd v k dflt = Inr w \<longleftrightarrow>
     (\<exists>d. v = PDict d \<and> w = (case map_of d k of None \<Rightarrow> dflt | Some x \<Rightarrow> x))"
  by (cases v) auto

lemma jget_eq_Inr [res_simps]:
  "jget v k = Inr w \<longleftrightarrow>
     (\<exists>d. v = PDict d \<and> w = (case map_of d k of None \<Rightarrow> PNone | Some x \<Rightarrow> x))"
  by (simp add: jget_def jgetd_eq_Inr)

lemma jget_PDict [simp]:
  "jget (PDict d) k = Inr (case map_of d k of None \<Rightarrow> PNone | Some x \<Rightarrow> x)"
  by (simp add: jget_def)

lemma jidx_eq_Inr [res_simps]: "jidx v k = Inr w \<longleftrightarrow> (\<exists>d. v = PDict d \<and> map_of d k = Some w)"
  by (cases v) (auto split: option.splits)

lemma jitems_eq_Inr [res_simps]: "jitems v = Inr d \<longleftrightarrow> v = PDict d"
  by (cases v) auto

lemma str_method_eq_Inr [res_simps]: "str_method v = Inr s \<longleftrightarrow> v = PStr s"
  by (cases v) auto

lemma is_dict_iff: "is_dict v \<longleftrightarrow> (\<exists>d. v = PDict d)"
  by (cases v) auto

lemma is_list_iff: "is_list v \<longleftrightarrow> (\<exists>xs. v = PList xs)"
  by (cases v) auto

lemma is_str_iff: "is_str v \<longleftrightarrow> (\<exists>s. v = PStr s)"
  by (cases v) auto

lemma type_is_int_iff: "type_is_int v \<longleftrightarrow> (\<exists>i. v = PInt i)"
  by (cases v) auto

lemma isinstance_int_iff: "isinstance_int v \<longleftrightarrow> (\<exists>i. v = PInt i) \<or> (\<exists>b. v = PBool b)"
  by (cases v) auto

lemmas shape_iffs = is_dict_iff is_list_iff is_str_iff type_is_int_iff

lemma in_strs_PStr [simp]: "in_strs (PStr s) ss = Inr (s \<in> set ss)"
  by (auto simp: in_strs_def)

lemma in_strs_eq_True: "in_strs v ss = Inr True \<longleftrightarrow> (\<exists>s \<in> set ss. v = PStr s)"
  by (auto simp: in_strs_def split: if_splits)

lemma same_keys_iff: "same_keys xs ys \<longleftrightarrow> set xs = set ys"
  by (auto simp: same_keys_def list_all_iff)

lemma sub_keys_iff: "sub_keys xs ys \<longleftrightarrow> set xs \<subseteq> set ys"
  by (auto simp: sub_keys_def list_all_iff)

lemma list_add_eq_Inr [res_simps]:
  "list_add v w = Inr zs \<longleftrightarrow> (\<exists>xs ys. v = PList xs \<and> w = PList ys \<and> zs = xs @ ys)"
  by (cases "(v, w)" rule: list_add.cases) auto

lemma set_dedup_subset: "set (dedup xs) \<subseteq> set xs"
  by (induction xs) auto

lemma length_dedup_le: "length (dedup xs) \<le> length xs"
  by (induction xs) (auto intro: le_trans [OF length_filter_le])

lemma length_filter_eq_iff: "length (filter P xs) = length xs \<longleftrightarrow> (\<forall>x \<in> set xs. P x)"
  by (metis filter_id_conv length_filter_conv_card length_filter_less less_irrefl)

lemma dedup_full: "length (dedup xs) = length xs \<Longrightarrow> dedup xs = xs"
proof (induction xs)
  case Nil
  show ?case by simp
next
  case (Cons x xs)
  have "length (filter (\<lambda>y. \<not> py_eq x y) (dedup xs)) \<le> length (dedup xs)"
    by (rule length_filter_le)
  with Cons.prems length_dedup_le [of xs]
  have len: "length (dedup xs) = length xs"
    and full: "length (filter (\<lambda>y. \<not> py_eq x y) (dedup xs)) = length (dedup xs)"
    by simp_all
  from full have "filter (\<lambda>y. \<not> py_eq x y) (dedup xs) = dedup xs"
    by (simp add: length_filter_eq_iff filter_id_conv)
  with Cons.IH [OF len] show ?case by simp
qed

lemma dedup_full_distinct_strs:
  "length (dedup (map PStr ss)) = length ss \<Longrightarrow> distinct ss"
proof (induction ss)
  case Nil
  show ?case by simp
next
  case (Cons s ss)
  have le: "length (filter (\<lambda>y. \<not> py_eq (PStr s) y) (dedup (map PStr ss)))
      \<le> length (dedup (map PStr ss))"
    by (rule length_filter_le)
  have le': "length (dedup (map PStr ss)) \<le> length ss"
    using length_dedup_le [of "map PStr ss"] by simp
  from Cons.prems le le' have len: "length (dedup (map PStr ss)) = length ss" by simp
  from Cons.prems len
  have "length (filter (\<lambda>y. \<not> py_eq (PStr s) y) (dedup (map PStr ss))) = length (dedup (map PStr ss))"
    by simp
  then have "\<forall>y \<in> set (dedup (map PStr ss)). \<not> py_eq (PStr s) y"
    by (simp add: length_filter_eq_iff)
  moreover have "dedup (map PStr ss) = map PStr ss"
    using dedup_full [of "map PStr ss"] len by simp
  ultimately have "s \<notin> set ss" by auto
  with Cons.IH [OF len] show ?case by simp
qed

section \<open>Bounded integers and items\<close>

text \<open>\<open>type(v) is int and -(2**63) < v < 2**63\<close>.\<close>

definition bounded_int :: "pyv \<Rightarrow> bool" where
  "bounded_int v = (case v of PInt i \<Rightarrow> - (2 ^ 63) < i \<and> i < 2 ^ 63 | _ \<Rightarrow> False)"

lemma set_dset: "set (dset k v d) \<subseteq> insert (k, v) (set d)"
  by (induction k v d rule: dset.induct) auto

lemma set_dupdate: "set (dupdate d e) \<subseteq> set d \<union> set e"
proof (induction e arbitrary: d)
  case (Cons x e)
  then show ?case using set_dset [of "fst x" "snd x" d] by (fastforce simp: dupdate_def split: prod.splits)
qed (simp add: dupdate_def)

lemma list_all_dupdate: "list_all P d \<Longrightarrow> list_all P e \<Longrightarrow> list_all P (dupdate d e)"
  using set_dupdate by (fastforce simp: list_all_iff)

end
