(* ===== verification/Py_Json.thy ===== *)
theory Py_Json
  imports Py_Value
begin

text \<open>
  The \<open>json\<close> module: \<open>loads\<close> and \<open>dumps\<close> with the options the sources use, and the UTF-8
  decoding of \<open>read_text\<close>.  The parser accepts what the module accepts: duplicate keys (the
  last one wins), \<open>NaN\<close> and the infinities, lone surrogates.  The parser counts its steps
  down from twice the length of the text; \<open>jvalue_fuel\<close> shows that this bound is never what stops
  it, and \<open>loads_dumps\<close> that every value without floats comes back from its text.

  Not modelled: the interpreter's recursion limit on deeply nested text, and the detection of
  UTF-16 and UTF-32 in \<open>loads\<close> on bytes.
\<close>

section \<open>UTF-8\<close>

definition utf8_enc :: "nat \<Rightarrow> string" where
  "utf8_enc n =
     (if n < 128 then [char_of n]
      else if n < 2048 then [char_of (192 + n div 64), char_of (128 + n mod 64)]
      else if n < 65536
      then [char_of (224 + n div 4096), char_of (128 + n div 64 mod 64), char_of (128 + n mod 64)]
      else [char_of (240 + n div 262144), char_of (128 + n div 4096 mod 64),
            char_of (128 + n div 64 mod 64), char_of (128 + n mod 64)])"

text \<open>
  The decoder keeps the number of continuation bytes it waits for, the bits read so far and
  the least code point of that length.
\<close>

fun utf8_dec :: "nat \<Rightarrow> nat \<Rightarrow> nat \<Rightarrow> string \<Rightarrow> nat list option" where
  "utf8_dec 0 acc lo [] = Some []"
| "utf8_dec (Suc k) acc lo [] = None"
| "utf8_dec 0 acc lo (c # s) =
     (let a = code c in
      if a < 128 then map_option ((#) a) (utf8_dec 0 0 0 s)
      else if 192 \<le> a \<and> a < 224 then utf8_dec 1 (a - 192) 128 s
      else if 224 \<le> a \<and> a < 240 then utf8_dec 2 (a - 224) 2048 s
      else if 240 \<le> a \<and> a < 248 then utf8_dec 3 (a - 240) 65536 s
      else None)"
| "utf8_dec (Suc k) acc lo (c # s) =
     (let a = code c; acc' = 64 * acc + (a - 128) in
      if \<not> (128 \<le> a \<and> a < 192) then None
      else if 0 < k then utf8_dec k acc' lo s
      else if lo \<le> acc' \<and> acc' < 1114112 then map_option ((#) acc') (utf8_dec 0 0 0 s)
      else None)"

definition code_points :: "string \<Rightarrow> nat list option" where
  "code_points s = utf8_dec 0 0 0 s"

definition is_surrogate :: "nat \<Rightarrow> bool" where
  "is_surrogate n = (55296 \<le> n \<and> n < 57344)"

text \<open>\<open>data.decode("utf-8")\<close>, as in \<open>read_text\<close>.\<close>

definition decode_utf8 :: "string \<Rightarrow> string res" where
  "decode_utf8 s =
     (case code_points s of
        None \<Rightarrow> Inl (Exn UnicodeError [])
      | Some ns \<Rightarrow> if list_ex is_surrogate ns then Inl (Exn UnicodeError []) else Inr s)"

section \<open>Parser\<close>

abbreviation json_error :: "'a res" where
  "json_error \<equiv> Inl (Exn JSONDecodeError [])"

definition is_jws :: "char \<Rightarrow> bool" where
  "is_jws c = (code c = 32 \<or> code c = 9 \<or> code c = 10 \<or> code c = 13)"

definition skip_ws :: "string \<Rightarrow> string" where
  "skip_ws s = dropWhile is_jws s"

text \<open>String literals, after the opening quote.\<close>

definition simple_escape :: "char \<Rightarrow> char option" where
  "simple_escape c =
     (if c = dquote \<or> c = backslash \<or> c = CHR ''/'' then Some c
      else if c = CHR ''b'' then Some (char_of (8 :: nat))
      else if c = CHR ''f'' then Some (char_of (12 :: nat))
      else if c = CHR ''n'' then Some (char_of (10 :: nat))
      else if c = CHR ''r'' then Some (char_of (13 :: nat))
      else if c = CHR ''t'' then Some (char_of (9 :: nat))
      else None)"

definition hex_value :: "char \<Rightarrow> nat option" where
  "hex_value c =
     (if is_digit c then Some (code c - 48)
      else if 97 \<le> code c \<and> code c \<le> 102 then Some (code c - 87)
      else if 65 \<le> code c \<and> code c \<le> 70 then Some (code c - 55)
      else None)"

fun hex4 :: "string \<Rightarrow> nat option" where
  "hex4 (a # b # c # d # s) =
     (case (hex_value a, hex_value b, hex_value c, hex_value d) of
        (Some x, Some y, Some z, Some w) \<Rightarrow> Some (((16 * x + y) * 16 + z) * 16 + w)
      | _ \<Rightarrow> None)"
| "hex4 _ = None"

text \<open>The bytes of a \<open>u\<close> escape and the number of characters it takes.\<close>

definition unicode_escape :: "string \<Rightarrow> (string \<times> nat) option" where
  "unicode_escape s =
     (case hex4 s of
        None \<Rightarrow> None
      | Some u \<Rightarrow>
          if 55296 \<le> u \<and> u < 56320 \<and> take 2 (drop 4 s) = [backslash, CHR ''u'']
          then (case hex4 (drop 6 s) of
                  None \<Rightarrow> None
                | Some v \<Rightarrow>
                    if 56320 \<le> v \<and> v < 57344
                    then Some (utf8_enc (65536 + (u - 55296) * 1024 + (v - 56320)), 10)
                    else Some (utf8_enc u, 4))
          else Some (utf8_enc u, 4))"

function jstring :: "string \<Rightarrow> (string \<times> string) res" where
  "jstring [] = json_error"
| "jstring (c # s) =
     (if c = dquote then Inr ([], s)
      else if c = backslash
      then (case s of
              [] \<Rightarrow> json_error
            | e # s' \<Rightarrow>
                if e = CHR ''u''
                then (case unicode_escape s' of
                        None \<Rightarrow> json_error
                      | Some (bs, n) \<Rightarrow>
                          bnd (jstring (drop n s')) (\<lambda>(t, r). Inr (bs @ t, r)))
                else (case simple_escape e of
                        None \<Rightarrow> json_error
                      | Some x \<Rightarrow> bnd (jstring s') (\<lambda>(t, r). Inr (x # t, r))))
      else if code c < 32 then json_error
      else bnd (jstring s) (\<lambda>(t, r). Inr (c # t, r)))"
  by pat_completeness auto
termination
  by (relation "measure length") auto

text \<open>
  Numbers.  A fraction or an exponent makes a float; an integer of more than 4300 digits is
  refused by \<open>int\<close>.  A float beyond the largest double is infinite.
\<close>

definition float_of :: "rat \<Rightarrow> pyfloat" where
  "float_of q =
     (if 2 ^ 1024 - 2 ^ 970 \<le> q then PosInf else if q \<le> 2 ^ 970 - 2 ^ 1024 then NegInf else Flt q)"

definition frac_part :: "string \<Rightarrow> string \<times> string" where
  "frac_part s =
     (case s of
        c # t \<Rightarrow> if c = CHR ''.'' \<and> takeWhile is_digit t \<noteq> []
                 then (takeWhile is_digit t, dropWhile is_digit t) else ([], s)
      | [] \<Rightarrow> ([], []))"

definition exp_part :: "string \<Rightarrow> (bool \<times> string) option \<times> string" where
  "exp_part s =
     (case s of
        c # t \<Rightarrow>
          (let neg = (take 1 t = ''-'');
               u = (if take 1 t = ''-'' \<or> take 1 t = ''+'' then drop 1 t else t)
           in if (c = CHR ''e'' \<or> c = CHR ''E'') \<and> takeWhile is_digit u \<noteq> []
              then (Some (neg, takeWhile is_digit u), dropWhile is_digit u) else (None, s))
      | [] \<Rightarrow> (None, []))"

definition number_value :: "bool \<Rightarrow> string \<Rightarrow> string \<Rightarrow> (bool \<times> string) option \<Rightarrow> pyv res" where
  "number_value neg ds fs ex =
     (if fs = [] \<and> ex = None
      then (if 4300 < length ds then Inl (Exn ValueError [])
            else Inr (PInt (if neg then - int (nat_of_digits ds) else int (nat_of_digits ds))))
      else (let m = of_nat (nat_of_digits (ds @ fs)) / 10 ^ length fs;
                q = (case ex of
                       None \<Rightarrow> m
                     | Some (eneg, es) \<Rightarrow>
                         if eneg then m / 10 ^ nat_of_digits es else m * 10 ^ nat_of_digits es)
            in Inr (PFloat (float_of (if neg then - q else q)))))"

definition jnumber :: "string \<Rightarrow> (pyv \<times> string) res" where
  "jnumber s =
     (let neg = (take 1 s = ''-''); t = (if neg then drop 1 s else s) in
      if t = [] \<or> \<not> is_digit (hd t) then json_error
      else (let ds = (if hd t = CHR ''0'' then ''0'' else takeWhile is_digit t);
                (fs, u) = frac_part (drop (length ds) t);
                (ex, r) = exp_part u
            in bnd (number_value neg ds fs ex) (\<lambda>v. Inr (v, r))))"

definition json_literals :: "(string \<times> pyv) list" where
  "json_literals =
     [(''null'', PNone), (''true'', PBool True), (''false'', PBool False),
      (''NaN'', PFloat NotANumber), (''Infinity'', PFloat PosInf), (''-Infinity'', PFloat NegInf)]"

definition jscalar :: "string \<Rightarrow> (pyv \<times> string) res" where
  "jscalar s =
     (case find (\<lambda>(l, _). startswith s l) json_literals of
        Some (l, v) \<Rightarrow> Inr (v, drop (length l) s)
      | None \<Rightarrow> jnumber s)"

fun jvalue :: "nat \<Rightarrow> string \<Rightarrow> (pyv \<times> string) res"
  and jelems :: "nat \<Rightarrow> pyv list \<Rightarrow> string \<Rightarrow> (pyv \<times> string) res"
  and jmembers :: "nat \<Rightarrow> pydict \<Rightarrow> string \<Rightarrow> (pyv \<times> string) res"
where
  "jvalue n [] = json_error"
| "jvalue 0 (c # s) = json_error"
| "jvalue (Suc n) (c # s) =
     (if c = dquote then bnd (jstring s) (\<lambda>(t, r). Inr (PStr t, r))
      else if c = CHR ''['' then
        (if take 1 (skip_ws s) = '']'' then Inr (PList [], drop 1 (skip_ws s))
         else jelems n [] (skip_ws s))
      else if c = CHR ''{'' then
        (if take 1 (skip_ws s) = ''}'' then Inr (PDict [], drop 1 (skip_ws s))
         else jmembers n [] (skip_ws s))
      else jscalar (c # s))"
| "jelems 0 xs s = json_error"
| "jelems (Suc n) xs s =
     bnd (jvalue n s) (\<lambda>(v, r).
       case skip_ws r of
         [] \<Rightarrow> json_error
       | c # t \<Rightarrow>
           if c = CHR '']'' then Inr (PList (xs @ [v]), t)
           else if c = CHR '','' then jelems n (xs @ [v]) (skip_ws t)
           else json_error)"
| "jmembers 0 d s = json_error"
| "jmembers (Suc n) d s =
     (if take 1 s \<noteq> [dquote] then json_error
      else bnd (jstring (drop 1 s)) (\<lambda>(k, r).
        case skip_ws r of
          [] \<Rightarrow> json_error
        | c # t \<Rightarrow>
            if c \<noteq> CHR '':'' then json_error
            else bnd (jvalue n (skip_ws t)) (\<lambda>(v, r').
              case skip_ws r' of
                [] \<Rightarrow> json_error
              | c' # t' \<Rightarrow>
                  if c' = CHR ''}'' then Inr (PDict (dset k v d), t')
                  else if c' = CHR '','' then jmembers n (dset k v d) (skip_ws t')
                  else json_error)))"

definition byte_order_mark :: string where
  "byte_order_mark = map char_of [239 :: nat, 187, 191]"

definition loads :: "string \<Rightarrow> pyv res" where
  "loads s =
     (if startswith s byte_order_mark then json_error
      else bnd (jvalue (2 * length s) (skip_ws s)) (\<lambda>(v, r).
        if skip_ws r = [] then Inr v else json_error))"

text \<open>\<open>loads\<close> on bytes: a byte order mark is dropped and the rest decoded.\<close>

definition loads_bytes :: "string \<Rightarrow> pyv res" where
  "loads_bytes s =
     (let b = (if startswith s byte_order_mark then drop 3 s else s) in
      if code_points b = None then Inl (Exn UnicodeError []) else loads b)"

section \<open>Printer\<close>

record json_opts =
  indent :: "nat option"
  item_sep :: string
  key_sep :: string
  sort_keys :: bool
  ensure_ascii :: bool

definition json_default :: json_opts where
  "json_default = \<lparr>indent = None, item_sep = '', '', key_sep = '': '', sort_keys = False,
     ensure_ascii = True\<rparr>"

definition json_indent2 :: json_opts where
  "json_indent2 = json_default \<lparr>indent := Some 2, item_sep := '',''\<rparr>"

text \<open>\<open>separators=(",", ":")\<close>.\<close>

definition json_compact :: json_opts where
  "json_compact = json_default \<lparr>item_sep := '','', key_sep := '':''\<rparr>"

definition u4 :: "nat \<Rightarrow> string" where
  "u4 n = [backslash, CHR ''u'', hex_digit (n div 4096 mod 16), hex_digit (n div 256 mod 16),
     hex_digit (n div 16 mod 16), hex_digit (n mod 16)]"

definition u_escape :: "nat \<Rightarrow> string" where
  "u_escape n =
     (if n < 65536 then u4 n
      else u4 (55296 + (n - 65536) div 1024) @ u4 (56320 + (n - 65536) mod 1024))"

definition dump_code :: "nat \<Rightarrow> string" where
  "dump_code n =
     (if n = 34 then [backslash, dquote]
      else if n = 92 then [backslash, backslash]
      else if n = 10 then [backslash, CHR ''n'']
      else if n = 13 then [backslash, CHR ''r'']
      else if n = 9 then [backslash, CHR ''t'']
      else if n = 8 then [backslash, CHR ''b'']
      else if n = 12 then [backslash, CHR ''f'']
      else if n < 32 \<or> 127 \<le> n then u_escape n
      else [char_of n])"

definition dump_byte :: "char \<Rightarrow> string" where
  "dump_byte c = (if code c < 127 then dump_code (code c) else [c])"

definition dump_str :: "bool \<Rightarrow> string \<Rightarrow> string" where
  "dump_str ascii s =
     [dquote] @
     (if ascii
      then (case code_points s of
              None \<Rightarrow> concat (map dump_byte s)
            | Some ns \<Rightarrow> concat (map dump_code ns))
      else concat (map dump_byte s)) @
     [dquote]"

fun dump_float :: "pyfloat \<Rightarrow> string" where
  "dump_float (Flt q) = rat_str q"
| "dump_float PosInf = ''Infinity''"
| "dump_float NegInf = ''-Infinity''"
| "dump_float NotANumber = ''NaN''"

definition newline :: "json_opts \<Rightarrow> nat \<Rightarrow> string" where
  "newline opt lvl =
     (case indent opt of None \<Rightarrow> [] | Some k \<Rightarrow> char_of (10 :: nat) # replicate (lvl * k) (CHR '' ''))"

fun dump :: "json_opts \<Rightarrow> nat \<Rightarrow> pyv \<Rightarrow> string" where
  "dump opt lvl PNone = ''null''"
| "dump opt lvl (PBool b) = (if b then ''true'' else ''false'')"
| "dump opt lvl (PInt i) = str_of_int i"
| "dump opt lvl (PFloat f) = dump_float f"
| "dump opt lvl (PStr s) = dump_str (ensure_ascii opt) s"
| "dump opt lvl (PList xs) =
     (if xs = [] then ''[]''
      else ''['' @ newline opt (Suc lvl) @
        str_join (item_sep opt @ newline opt (Suc lvl)) (map (dump opt (Suc lvl)) xs) @
        newline opt lvl @ '']'')"
| "dump opt lvl (PDict d) =
     (if d = [] then ''{}''
      else ''{'' @ newline opt (Suc lvl) @
        str_join (item_sep opt @ newline opt (Suc lvl))
          (map (\<lambda>(k, v). dump_str (ensure_ascii opt) k @ key_sep opt @ dump opt (Suc lvl) v) d) @
        newline opt lvl @ ''}'')"

text \<open>\<open>sorted(d.items())\<close> of a dictionary: by key.\<close>

definition sort_items :: "(string \<times> 'v) list \<Rightarrow> (string \<times> 'v) list" where
  "sort_items d = sort_key fst d"

fun jsort :: "pyv \<Rightarrow> pyv" where
  "jsort (PList xs) = PList (map jsort xs)"
| "jsort (PDict d) = PDict (sort_items (map (\<lambda>(k, v). (k, jsort v)) d))"
| "jsort v = v"

definition dumps :: "json_opts \<Rightarrow> pyv \<Rightarrow> string" where
  "dumps opt v = dump opt 0 (if sort_keys opt then jsort v else v)"

section \<open>The step bound of the parser\<close>

lemma jstring_shorter: "jstring s = Inr (t, r) \<Longrightarrow> length r < length s"
proof (induction s arbitrary: t r rule: measure_induct_rule [of length])
  case (less s)
  show ?case
  proof (cases s)
    case Nil
    with less.prems show ?thesis by simp
  next
    case (Cons c s')
    have ih: "length r' < length u" if "jstring u = Inr (t', r')" "length u \<le> length s'" for u t' r'
      using less.IH [of u t' r'] that Cons by simp
    from less.prems show ?thesis unfolding Cons
      by (auto simp: bnd_eq_Inr res_simps split: if_splits list.splits option.splits) (drule ih, simp, simp)+
  qed
qed

lemma length_skip_ws: "length (skip_ws s) \<le> length s"
  by (simp add: skip_ws_def length_dropWhile_le)

lemma skip_ws_Cons_shorter: "skip_ws r = c # t \<Longrightarrow> length t < length r"
  using length_skip_ws [of r] by simp

lemma frac_part_shorter: "frac_part s = (f, u) \<Longrightarrow> length u \<le> length s"
  by (auto simp: frac_part_def length_dropWhile_le le_SucI split: list.splits if_splits)

lemma exp_part_shorter: "exp_part s = (e, u) \<Longrightarrow> length u \<le> length s"
proof (cases s)
  case (Cons c t)
  assume e: "exp_part s = (e, u)"
  have "length (dropWhile is_digit (drop 1 t)) \<le> length t" "length (dropWhile is_digit t) \<le> length t"
    by (metis diff_le_self le_trans length_drop length_dropWhile_le, rule length_dropWhile_le)
  with e Cons show ?thesis
    by (auto simp: exp_part_def Let_def split: if_splits)
qed (simp add: exp_part_def)

lemma jnumber_shorter:
  assumes "jnumber s = Inr (v, r)"
  shows "length r < length s"
proof -
  define t where "t = (if take 1 s = ''-'' then drop 1 s else s)"
  define ds where "ds = (if hd t = CHR ''0'' then ''0'' else takeWhile is_digit t)"
  from assms have t: "t \<noteq> []" "is_digit (hd t)"
    by (auto simp: jnumber_def t_def Let_def split: if_splits)
  obtain fs u where fu: "frac_part (drop (length ds) t) = (fs, u)" by fastforce
  obtain ex r' where er: "exp_part u = (ex, r')" by fastforce
  have "jnumber s = bnd (number_value (take 1 s = ''-'') ds fs ex) (\<lambda>v. Inr (v, r'))"
    using t fu er unfolding jnumber_def Let_def t_def [symmetric] ds_def [symmetric] by simp
  with assms have "length r = length r'" by (auto simp: bnd_eq_Inr res_simps)
  moreover have "ds \<noteq> []" using t by (cases t) (auto simp: ds_def)
  then have "length (drop (length ds) t) < length t" using t by simp
  moreover have "length t \<le> length s" by (simp add: t_def)
  ultimately show ?thesis
    using frac_part_shorter [OF fu] exp_part_shorter [OF er] by linarith
qed

lemma jscalar_shorter: "jscalar s = Inr (v, r) \<Longrightarrow> length r < length s"
proof (cases "find (\<lambda>(l, _). startswith s l) json_literals")
  case None
  assume "jscalar s = Inr (v, r)"
  with None show ?thesis by (simp add: jscalar_def jnumber_shorter)
next
  case (Some p)
  assume s: "jscalar s = Inr (v, r)"
  from Some have p: "p \<in> set json_literals" "startswith s (fst p)"
    by (auto simp: find_Some_iff in_set_conv_nth)
  then have "fst p \<noteq> []" by (auto simp: json_literals_def)
  moreover from p have "length (fst p) \<le> length s" by (auto simp: startswith_iff)
  moreover have "r = drop (length (fst p)) s"
    using s Some by (cases p) (simp add: jscalar_def)
  ultimately show ?thesis by (cases s) auto
qed

lemma jelems_SucD:
  assumes "jelems (Suc n) xs s = Inr (v, r)"
  shows "\<exists>w q t. jvalue n s = Inr (w, q) \<and>
    (skip_ws q = CHR '']'' # t \<and> v = PList (xs @ [w]) \<and> r = t \<or>
     skip_ws q = CHR '','' # t \<and> jelems n (xs @ [w]) (skip_ws t) = Inr (v, r))"
  using assms by (auto elim!: bndE split: list.splits if_splits prod.splits)

lemma jmembers_SucD:
  assumes "jmembers (Suc n) d s = Inr (v, r)"
  shows "\<exists>k q t w q' t'. take 1 s = [dquote] \<and> jstring (drop 1 s) = Inr (k, q) \<and>
    skip_ws q = CHR '':'' # t \<and> jvalue n (skip_ws t) = Inr (w, q') \<and>
    (skip_ws q' = CHR ''}'' # t' \<and> v = PDict (dset k w d) \<and> r = t' \<or>
     skip_ws q' = CHR '','' # t' \<and> jmembers n (dset k w d) (skip_ws t') = Inr (v, r))"
  using assms by (auto elim!: bndE split: list.splits if_splits prod.splits)

lemma json_shorter:
  "jvalue n s = Inr (v, r) \<Longrightarrow> length r < length s"
  "jelems n xs s = Inr (v, r) \<Longrightarrow> length r < length s"
  "jmembers n d s = Inr (v, r) \<Longrightarrow> length r < length s"
proof (induction n arbitrary: s v r xs d)
  case 0
  { case 1 then show ?case by (cases s) auto }
  { case 2 then show ?case by simp }
  { case 3 then show ?case by simp }
next
  case (Suc n)
  {
    case 1
    show ?case
    proof (cases s)
      case Nil
      with 1 show ?thesis by simp
    next
      case (Cons c t)
      show ?thesis
        using 1 Cons Suc.IH(2) [of "[]" "skip_ws t" v r] Suc.IH(3) [of "[]" "skip_ws t" v r]
          length_skip_ws [of t] jscalar_shorter [of s v r]
        by (auto simp: bnd_eq_Inr res_simps split: if_splits dest!: jstring_shorter)
    qed
  next
    case 2
    from jelems_SucD [OF this] obtain w q t where v: "jvalue n s = Inr (w, q)"
      and q: "skip_ws q = CHR '']'' # t \<and> r = t \<or>
        skip_ws q = CHR '','' # t \<and> jelems n (xs @ [w]) (skip_ws t) = Inr (v, r)" by blast
    from q show ?case
      using Suc.IH(1) [OF v] Suc.IH(2) [of "xs @ [w]" "skip_ws t" v r] skip_ws_Cons_shorter [of q]
        length_skip_ws [of t] by fastforce
  next
    case 3
    from jmembers_SucD [OF this] obtain k q t w q' t' where k: "jstring (drop 1 s) = Inr (k, q)"
      and q: "skip_ws q = CHR '':'' # t" and w: "jvalue n (skip_ws t) = Inr (w, q')"
      and q': "skip_ws q' = CHR ''}'' # t' \<and> r = t' \<or>
        skip_ws q' = CHR '','' # t' \<and> jmembers n (dset k w d) (skip_ws t') = Inr (v, r)" by blast
    from q' show ?case
      using jstring_shorter [OF k] skip_ws_Cons_shorter [OF q] Suc.IH(1) [OF w] length_skip_ws [of t]
        Suc.IH(3) [of "dset k w d" "skip_ws t'" v r] skip_ws_Cons_shorter [of q']
        length_skip_ws [of t'] by fastforce
  }
qed

lemma json_fuel:
  "2 * length s \<le> n \<Longrightarrow> 2 * length s \<le> m \<Longrightarrow> jvalue n s = jvalue m s"
  "2 * length s < n \<Longrightarrow> 2 * length s < m \<Longrightarrow> jelems n xs s = jelems m xs s"
  "2 * length s < n \<Longrightarrow> 2 * length s < m \<Longrightarrow> jmembers n d s = jmembers m d s"
proof (induction n arbitrary: s m xs d)
  case 0
  { case 1 then show ?case by simp }
  { case 2 then show ?case by simp }
  { case 3 then show ?case by simp }
next
  case (Suc n)
  {
    case 1
    show ?case
    proof (cases s)
      case (Cons c t)
      with 1 obtain m' where m: "m = Suc m'" by (cases m) auto
      have "2 * length (skip_ws t) < n" "2 * length (skip_ws t) < m'"
        using 1 Cons m length_skip_ws [of t] by auto
      from Suc.IH(2) [OF this, of "[]"] Suc.IH(3) [OF this, of "[]"] show ?thesis
        by (simp add: Cons m)
    qed simp
  next
    case 2
    then obtain m' where m: "m = Suc m'" by (cases m) auto
    from 2 m have v: "jvalue n s = jvalue m' s" by (intro Suc.IH(1)) auto
    have "jelems n ys (skip_ws t) = jelems m' ys (skip_ws t)"
      if "jvalue m' s = Inr (w, q)" "skip_ws q = c # t" for w q c t ys
      using 2 m json_shorter(1) [OF that(1)] skip_ws_Cons_shorter [OF that(2)] length_skip_ws [of t]
      by (intro Suc.IH(2)) linarith+
    then show ?case
      by (auto simp: m v intro!: bnd_cong split: list.splits)
  next
    case 3
    then obtain m' where m: "m = Suc m'" by (cases m) auto
    have v: "jvalue n (skip_ws t) = jvalue m' (skip_ws t)"
      if "jstring (drop 1 s) = Inr (k, q)" "skip_ws q = c # t" for k q c t
      using 3 m jstring_shorter [OF that(1)] skip_ws_Cons_shorter [OF that(2)] length_skip_ws [of t]
      by (intro Suc.IH(1)) auto
    have e: "jmembers n e (skip_ws t') = jmembers m' e (skip_ws t')"
      if "jstring (drop (Suc 0) s) = Inr (k, q)" "skip_ws q = c # t"
        "jvalue m' (skip_ws t) = Inr (w, q')" "skip_ws q' = c' # t'" for k q c t w q' c' t' e
      using 3 m jstring_shorter [OF that(1)] skip_ws_Cons_shorter [OF that(2)] length_skip_ws [of t]
        json_shorter(1) [OF that(3)] skip_ws_Cons_shorter [OF that(4)] length_skip_ws [of t']
      by (intro Suc.IH(3)) auto
    show ?case
      by (auto simp: m v intro!: bnd_cong split: list.splits) (rule e, assumption+)
  }
qed

lemma jvalue_fuel:
  "2 * length s \<le> n \<Longrightarrow> jvalue n s = jvalue (2 * length s) s"
  by (rule json_fuel(1)) simp_all

section \<open>What the parser returns and raises\<close>

text \<open>Every object the parser builds has distinct keys.\<close>

fun keys_ok :: "pyv \<Rightarrow> bool" where
  "keys_ok (PList xs) = list_all keys_ok xs"
| "keys_ok (PDict d) = (dict_ok d \<and> list_all (\<lambda>(k, v). keys_ok v) d)"
| "keys_ok _ = True"

lemma list_all_dset:
  "list_all (\<lambda>(k, v). P v) d \<Longrightarrow> P v \<Longrightarrow> list_all (\<lambda>(k, v). P v) (dset k v d)"
  by (induction k v d rule: dset.induct) auto

lemma number_value_keys_ok: "number_value neg ds fs ex = Inr v \<Longrightarrow> keys_ok v"
  by (auto simp: number_value_def Let_def split: if_splits)

lemma jscalar_keys_ok: "jscalar s = Inr (v, r) \<Longrightarrow> keys_ok v"
  by (auto simp: jscalar_def jnumber_def Let_def json_literals_def number_value_keys_ok
      elim!: bndE split: option.splits if_splits prod.splits)

lemma json_keys_ok:
  "jvalue n s = Inr (v, r) \<Longrightarrow> keys_ok v"
  "jelems n xs s = Inr (v, r) \<Longrightarrow> list_all keys_ok xs \<Longrightarrow> keys_ok v"
  "jmembers n d s = Inr (v, r) \<Longrightarrow> dict_ok d \<Longrightarrow> list_all (\<lambda>(k, v). keys_ok v) d \<Longrightarrow> keys_ok v"
proof (induction n s and n xs s and n d s arbitrary: v r and v r and v r
    rule: jvalue_jelems_jmembers.induct)
  case (3 n c s)
  then show ?case
    by (auto simp: dict_ok_def dest: jscalar_keys_ok elim!: bndE split: if_splits)
next
  case (5 n xs s)
  then show ?case
    by (auto elim!: bndE split: if_splits list.splits)
next
  case (7 n d s)
  then show ?case
    by (auto simp: dict_ok_dset list_all_dset elim!: bndE split: if_splits list.splits)
qed auto

lemma loads_keys_ok: "loads s = Inr v \<Longrightarrow> keys_ok v"
  by (auto simp: loads_def elim!: bndE split: if_splits dest: json_keys_ok(1))

lemma loads_bytes_keys_ok: "loads_bytes s = Inr v \<Longrightarrow> keys_ok v"
  by (auto simp: loads_bytes_def Let_def split: if_splits dest: loads_keys_ok)

text \<open>Every exception of the parser is a \<open>ValueError\<close>.\<close>

definition value_error :: "exn \<Rightarrow> bool" where
  "value_error e = (cls e \<in> {ValueError, JSONDecodeError, UnicodeError})"

lemma value_error_simps [simp]:
  "value_error (Exn JSONDecodeError m)" "value_error (Exn ValueError m)"
  "value_error (Exn UnicodeError m)"
  by (simp_all add: value_error_def)

lemma value_error_caught: "value_error e \<Longrightarrow> ValueError \<in> set cs \<Longrightarrow> catches cs e"
  by (cases e; cases "cls e") (auto simp: value_error_def catches_def)

lemma jstring_raises: "jstring s = Inl e \<Longrightarrow> value_error e"
  by (induction s rule: jstring.induct)
    (auto elim!: bnd_InlE split: if_splits list.splits option.splits)

lemma jscalar_raises: "jscalar s = Inl e \<Longrightarrow> value_error e"
  by (auto simp: jscalar_def jnumber_def number_value_def Let_def
      elim!: bnd_InlE split: option.splits if_splits prod.splits)

lemma json_raises:
  "jvalue n s = Inl e \<Longrightarrow> value_error e"
  "jelems n xs s = Inl e \<Longrightarrow> value_error e"
  "jmembers n d s = Inl e \<Longrightarrow> value_error e"
proof (induction n s and n xs s and n d s arbitrary: e and e and e
    rule: jvalue_jelems_jmembers.induct)
  case (3 n c s)
  then show ?case
    by (auto dest: jscalar_raises jstring_raises elim!: bnd_InlE split: if_splits)
next
  case (5 n xs s)
  then show ?case
    by (auto elim!: bnd_InlE split: if_splits list.splits)
next
  case (7 n d s)
  then show ?case
    by (auto dest: jstring_raises
        elim!: bnd_InlE split: if_splits list.splits)
qed auto

lemma loads_raises: "loads s = Inl e \<Longrightarrow> value_error e"
  by (auto simp: loads_def elim!: bnd_InlE split: if_splits
      dest: json_raises(1))

lemma loads_bytes_raises: "loads_bytes s = Inl e \<Longrightarrow> value_error e"
  by (auto simp: loads_bytes_def Let_def split: if_splits
      dest: loads_raises)

section \<open>Round trip\<close>

definition is_ascii :: "string \<Rightarrow> bool" where
  "is_ascii s = list_all (\<lambda>c. code c < 128) s"

text \<open>The values whose text reads back: no floats, and ASCII strings under \<open>ensure_ascii\<close>.\<close>

fun json_ok :: "json_opts \<Rightarrow> pyv \<Rightarrow> bool" where
  "json_ok opt (PInt i) = (length (str_of_nat (nat \<bar>i\<bar>)) \<le> 4300)"
| "json_ok opt (PFloat f) = False"
| "json_ok opt (PStr s) = (ensure_ascii opt \<longrightarrow> is_ascii s)"
| "json_ok opt (PList xs) = list_all (json_ok opt) xs"
| "json_ok opt (PDict d) =
     (dict_ok d \<and> list_all (\<lambda>(k, v). (ensure_ascii opt \<longrightarrow> is_ascii k) \<and> json_ok opt v) d)"
| "json_ok opt _ = True"

definition opts_ok :: "json_opts \<Rightarrow> bool" where
  "opts_ok opt =
     (take 1 (item_sep opt) = '','' \<and> list_all is_jws (drop 1 (item_sep opt)) \<and>
      take 1 (key_sep opt) = '':'' \<and> list_all is_jws (drop 1 (key_sep opt)))"

lemma opts_ok_used [simp]:
  "opts_ok json_default" "opts_ok json_indent2" "opts_ok json_compact"
  "opts_ok (opt \<lparr>sort_keys := b\<rparr>) = opts_ok opt" "opts_ok (opt \<lparr>ensure_ascii := b\<rparr>) = opts_ok opt"
  by (simp_all add: opts_ok_def json_default_def json_indent2_def json_compact_def is_jws_def)

lemma code_char_of: "n < 256 \<Longrightarrow> code (char_of n) = (n :: nat)"
  by (simp add: of_char_of)

lemma is_digit_char_of: "n < 10 \<Longrightarrow> is_digit (char_of (48 + n :: nat))"
  by (simp add: is_digit_def code_char_of)

lemma str_of_nat_digits: "list_all is_digit (str_of_nat n)"
proof (induction n rule: str_of_nat.induct)
  case (1 n)
  then show ?case
    by (subst str_of_nat.simps) (auto simp: is_digit_char_of)
qed

lemma str_of_nat_nonempty [simp]: "str_of_nat n \<noteq> []"
  by (subst str_of_nat.simps) simp

lemma nat_of_digits_append: "nat_of_digits (s @ [c]) = 10 * nat_of_digits s + (code c - 48)"
  by (simp add: nat_of_digits_def)

lemma nat_of_digits_str_of_nat [simp]: "nat_of_digits (str_of_nat n) = n"
proof (induction n rule: str_of_nat.induct)
  case (1 n)
  show ?case
  proof (cases "n < 10")
    case True
    then show ?thesis
      by (subst str_of_nat.simps) (simp add: nat_of_digits_def code_char_of)
  next
    case False
    with 1 have "nat_of_digits (str_of_nat (n div 10)) = n div 10" by simp
    with False show ?thesis
      by (subst str_of_nat.simps) (simp add: nat_of_digits_append code_char_of)
  qed
qed

lemma hd_str_of_nat: "hd (str_of_nat n) = CHR ''0'' \<longleftrightarrow> n = 0"
proof (induction n rule: str_of_nat.induct)
  case (1 n)
  show ?case
  proof (cases "n < 10")
    case True
    have "hd (str_of_nat n) = char_of (48 + n)" using True by (subst str_of_nat.simps) simp
    moreover have "char_of (48 + n) = CHR ''0'' \<longleftrightarrow> code (char_of (48 + n)) = code (CHR ''0'')"
      by (metis of_char_eq_iff)
    ultimately show ?thesis using True by (simp add: code_char_of)
  next
    case False
    then have "hd (str_of_nat n) = hd (str_of_nat (n div 10))"
      by (subst str_of_nat.simps) (simp add: hd_append)
    with 1 False show ?thesis by simp
  qed
qed

text \<open>What may follow a value inside a document: no digit, point or exponent.\<close>

definition json_stop :: "string \<Rightarrow> bool" where
  "json_stop r =
     (r = [] \<or> (\<not> is_digit (hd r) \<and> hd r \<noteq> CHR ''.'' \<and> hd r \<noteq> CHR ''e'' \<and> hd r \<noteq> CHR ''E''))"

lemma frac_part_stop: "json_stop r \<Longrightarrow> frac_part r = ([], r)"
  by (cases r) (auto simp: json_stop_def frac_part_def)

lemma exp_part_stop: "json_stop r \<Longrightarrow> exp_part r = (None, r)"
  by (cases r) (auto simp: json_stop_def exp_part_def Let_def)

lemma takeWhile_digits:
  "list_all is_digit ds \<Longrightarrow> json_stop r \<Longrightarrow> takeWhile is_digit (ds @ r) = ds"
  by (cases r) (auto simp: json_stop_def list_all_iff takeWhile_append)

lemma not_digit_minus: "\<not> is_digit (CHR ''-'')"
  by (simp add: is_digit_def)

lemma jnumber_parts:
  assumes "t = (if take 1 s = ''-'' then drop 1 s else s)" "t \<noteq> []" "is_digit (hd t)"
    and "ds = (if hd t = CHR ''0'' then ''0'' else takeWhile is_digit t)"
    and "frac_part (drop (length ds) t) = (fs, u)" "exp_part u = (ex, r)"
  shows "jnumber s = bnd (number_value (take 1 s = ''-'') ds fs ex) (\<lambda>v. Inr (v, r))"
  using assms(2,3,5,6)
  unfolding jnumber_def Let_def assms(1) [symmetric] assms(4) [symmetric] by simp

lemma jnumber_digits:
  assumes "list_all is_digit ds" "ds \<noteq> []" "hd ds = CHR ''0'' \<Longrightarrow> ds = ''0''" "json_stop r"
    and "length ds \<le> 4300"
  shows "jnumber (ds @ r) = Inr (PInt (int (nat_of_digits ds)), r)"
    and "jnumber (CHR ''-'' # ds @ r) = Inr (PInt (- int (nat_of_digits ds)), r)"
proof -
  obtain c t where ds: "ds = c # t" using assms(2) by (cases ds) auto
  have c: "is_digit c" "c \<noteq> CHR ''-''" using assms(1) not_digit_minus by (auto simp: ds)
  have tw: "(if hd (ds @ r) = CHR ''0'' then ''0'' else takeWhile is_digit (ds @ r)) = ds"
    using assms(3) takeWhile_digits [OF assms(1,4)] by (auto simp: ds)
  have nv: "number_value neg ds [] None = Inr (PInt (if neg then - int (nat_of_digits ds) else int (nat_of_digits ds)))" for neg
    using assms(5) by (simp add: number_value_def)
  show "jnumber (ds @ r) = Inr (PInt (int (nat_of_digits ds)), r)"
  proof -
    have t: "ds @ r = (if take 1 (ds @ r) = ''-'' then drop 1 (ds @ r) else ds @ r)"
      using c by (simp add: ds)
    have "jnumber (ds @ r) = bnd (number_value (take 1 (ds @ r) = ''-'') ds [] None) (\<lambda>v. Inr (v, r))"
      by (rule jnumber_parts [OF t _ _ tw [symmetric], where u = r])
        (use c in \<open>simp_all add: ds frac_part_stop exp_part_stop assms(4)\<close>)
    then show ?thesis using c by (simp add: nv) (simp add: ds)
  qed
  show "jnumber (CHR ''-'' # ds @ r) = Inr (PInt (- int (nat_of_digits ds)), r)"
  proof -
    let ?s = "CHR ''-'' # ds @ r"
    have t: "ds @ r = (if take 1 ?s = ''-'' then drop 1 ?s else ?s)" by simp
    have "jnumber ?s = bnd (number_value (take 1 ?s = ''-'') ds [] None) (\<lambda>v. Inr (v, r))"
      by (rule jnumber_parts [OF t _ _ tw [symmetric], where u = r])
        (use c in \<open>simp_all add: ds frac_part_stop exp_part_stop assms(4)\<close>)
    then show ?thesis by (simp add: nv)
  qed
qed

lemma char_of_numerals:
  "char_of (34 :: nat) = dquote" "char_of (92 :: nat) = backslash"
  by (simp_all add: dquote_def backslash_def char_of_eq_iff)

lemma quote_chars [simp]: "backslash \<noteq> dquote" "dquote \<noteq> backslash"
  "code dquote = 34" "code backslash = 92" "dquote \<noteq> CHR ''u''" "backslash \<noteq> CHR ''u''"
  by (simp_all add: dquote_def backslash_def)

lemma simple_escape_eval:
  "simple_escape dquote = Some dquote" "simple_escape backslash = Some backslash"
  "simple_escape (CHR ''b'') = Some (char_of (8 :: nat))"
  "simple_escape (CHR ''f'') = Some (char_of (12 :: nat))"
  "simple_escape (CHR ''n'') = Some (char_of (10 :: nat))"
  "simple_escape (CHR ''r'') = Some (char_of (13 :: nat))"
  "simple_escape (CHR ''t'') = Some (char_of (9 :: nat))"
  by (simp_all add: simple_escape_def dquote_def backslash_def)

lemma hex_value_digit: "n < 16 \<Longrightarrow> hex_value (hex_digit n) = Some n"
  by (auto simp: hex_value_def hex_digit_def is_digit_def code_char_of)

lemma hex4_u4: "n < 65536 \<Longrightarrow> hex4 (drop 2 (u4 n) @ r) = Some n"
proof -
  assume "n < 65536"
  then have "((16 * (n div 4096 mod 16) + n div 256 mod 16) * 16 + n div 16 mod 16) * 16 + n mod 16 = n"
  proof -
    have "n div 256 = n div 16 div 16" "n div 4096 = n div 16 div 16 div 16"
      by (simp_all flip: div_mult2_eq)
    moreover have "n div 16 div 16 div 16 mod 16 = n div 16 div 16 div 16"
      using \<open>n < 65536\<close> by (intro mod_less) (simp flip: div_mult2_eq add: less_mult_imp_div_less)
    ultimately show ?thesis by (simp add: mult.commute [of _ 16])
  qed
  then show ?thesis using \<open>n < 65536\<close> by (simp add: u4_def hex_value_digit)
qed

lemma jstring_u4:
  assumes "n < 128"
  shows "jstring (u4 n @ r) = bnd (jstring r) (\<lambda>(t, q). Inr (char_of n # t, q))"
proof -
  have "unicode_escape (drop 2 (u4 n) @ r) = Some ([char_of n], 4)"
    using assms hex4_u4 [of n r] by (simp add: unicode_escape_def utf8_enc_def)
  then show ?thesis by (simp add: u4_def)
qed

lemma jstring_plain:
  "code c \<noteq> 34 \<Longrightarrow> code c \<noteq> 92 \<Longrightarrow> 32 \<le> code c \<Longrightarrow>
     jstring (c # r) = bnd (jstring r) (\<lambda>(t, q). Inr (c # t, q))"
  by auto

lemma jstring_dump_code:
  assumes "n < 128"
  shows "jstring (dump_code n @ r) = bnd (jstring r) (\<lambda>(t, q). Inr (char_of n # t, q))"
proof -
  consider "n \<in> {34, 92, 10, 13, 9, 8, 12}" | "n \<notin> {34, 92, 10, 13, 9, 8, 12}" "n < 32 \<or> 127 \<le> n"
    | "n \<notin> {34, 92}" "32 \<le> n" "n < 127"
    by force
  then show ?thesis
  proof cases
    case 1
    then obtain e where "dump_code n = [backslash, e]" "simple_escape e = Some (char_of n)"
        "e \<noteq> CHR ''u''"
      by (auto simp: dump_code_def simple_escape_eval char_of_numerals)
    then show ?thesis by simp
  next
    case 2
    then have "dump_code n = u4 n" using assms by (simp add: dump_code_def u_escape_def)
    then show ?thesis by (simp add: jstring_u4 assms)
  next
    case 3
    then show ?thesis
      using jstring_plain [of "char_of n" r] by (simp add: dump_code_def code_char_of)
  qed
qed

lemma jstring_dump_codes:
  "list_all (\<lambda>n. n < 128) ns \<Longrightarrow>
     jstring (concat (map dump_code ns) @ dquote # r) = Inr (map char_of ns, r)"
  by (induction ns) (simp_all add: jstring_dump_code)

lemma jstring_dump_byte:
  "jstring (dump_byte c @ r) = bnd (jstring r) (\<lambda>(t, q). Inr (c # t, q))"
  using jstring_dump_code [of "code c" r] jstring_plain [of c r] by (simp add: dump_byte_def)

lemma jstring_dump_bytes:
  "jstring (concat (map dump_byte s) @ dquote # r) = Inr (s, r)"
  by (induction s) (simp_all add: jstring_dump_byte)

lemma code_points_ascii: "is_ascii s \<Longrightarrow> code_points s = Some (map code s)"
  by (induction s) (auto simp: is_ascii_def code_points_def)

lemma jstring_dump_str:
  assumes "ascii \<longrightarrow> is_ascii s"
  shows "\<exists>u. dump_str ascii s = dquote # u \<and> jstring (u @ r) = Inr (s, r)"
proof (cases ascii)
  case True
  with assms have "list_all (\<lambda>n. n < 128) (map code s)" by (simp add: is_ascii_def list.pred_map comp_def)
  from jstring_dump_codes [OF this, of r] True assms show ?thesis
    by (simp add: dump_str_def code_points_ascii comp_def)
next
  case False
  then show ?thesis using jstring_dump_bytes [of s r] by (simp add: dump_str_def)
qed

lemma skip_ws_append [simp]: "list_all is_jws w \<Longrightarrow> skip_ws (w @ s) = skip_ws s"
  by (induction w) (auto simp: skip_ws_def)

lemma skip_ws_Cons [simp]: "\<not> is_jws c \<Longrightarrow> skip_ws (c # s) = c # s"
  by (simp add: skip_ws_def)

lemma newline_ws: "list_all is_jws (newline opt lvl)"
  by (cases "indent opt") (auto simp: newline_def is_jws_def list_all_iff code_char_of)

lemma json_delims [simp]:
  "\<not> is_jws (CHR ''['')" "\<not> is_jws (CHR '']'')" "\<not> is_jws (CHR ''{'')" "\<not> is_jws (CHR ''}'')"
  "\<not> is_jws (CHR '','')" "\<not> is_jws (CHR '':'')" "\<not> is_jws dquote"
  "CHR ''['' \<noteq> dquote" "CHR ''{'' \<noteq> dquote" "dquote \<noteq> CHR '']''" "dquote \<noteq> CHR ''}''"
  by (simp_all add: is_jws_def) (simp_all add: dquote_def)

lemma json_stop_ws: "list_all is_jws w \<Longrightarrow> json_stop s \<Longrightarrow> json_stop (w @ s)"
  by (cases w) (auto simp: json_stop_def is_jws_def is_digit_def)

lemma json_stop_delims [simp]:
  "json_stop []" "json_stop (CHR '']'' # s)" "json_stop (CHR ''}'' # s)" "json_stop (CHR '','' # s)"
  by (simp_all add: json_stop_def is_digit_def)

lemma str_of_int_head: "\<exists>c t. str_of_int i = c # t \<and> (is_digit c \<or> c = CHR ''-'')"
proof (cases "i < 0")
  case True
  then show ?thesis by (simp add: str_of_int_def)
next
  case False
  with str_of_nat_digits [of "nat i"] show ?thesis
    by (cases "str_of_nat (nat i)") (auto simp: str_of_int_def)
qed

lemma jscalar_int:
  assumes "length (str_of_nat (nat \<bar>i\<bar>)) \<le> 4300" "json_stop r"
  shows "jscalar (str_of_int i @ r) = Inr (PInt i, r)"
proof -
  let ?ds = "str_of_nat (nat \<bar>i\<bar>)"
  have zero: "?ds = ''0''" if "hd ?ds = CHR ''0''"
    using that by (simp add: hd_str_of_nat str_of_nat.simps [of 0] char_of_eq_iff)
  note num = jnumber_digits [OF str_of_nat_digits str_of_nat_nonempty zero assms(2,1)]
  have "jnumber (str_of_int i @ r) = Inr (PInt i, r)"
    using num by (cases "i < 0") (simp_all add: str_of_int_def)
  moreover have "find (\<lambda>(l, _). startswith (str_of_int i @ r) l) json_literals = None"
  proof -
    have "\<not> startswith (str_of_int i @ r) ''-Infinity''"
    proof (cases "i < 0")
      case True
      have "list_all is_digit ?ds" "?ds \<noteq> []" by (rule str_of_nat_digits, simp)
      then show ?thesis using True by (cases ?ds) (auto simp: str_of_int_def is_digit_def startswith_def)
    next
      case False
      have "list_all is_digit ?ds" "?ds \<noteq> []" by (rule str_of_nat_digits, simp)
      then show ?thesis using False by (cases ?ds) (auto simp: str_of_int_def is_digit_def startswith_def)
    qed
    then show ?thesis
      using str_of_int_head [of i] unfolding find_None_iff json_literals_def
      by (auto simp: startswith_def is_digit_def)
  qed
  ultimately show ?thesis by (simp add: jscalar_def)
qed

lemma dump_head:
  assumes "json_ok opt v"
  shows "\<exists>c t. dump opt lvl v = c # t \<and> \<not> is_jws c \<and> c \<noteq> CHR '']'' \<and> c \<noteq> CHR ''}'' \<and> code c < 128"
proof (cases v)
  case (PInt i)
  then show ?thesis using str_of_int_head [of i] by (auto simp: is_digit_def is_jws_def)
qed (use assms in \<open>auto simp: is_jws_def dump_str_def\<close>)

lemma skip_ws_dump: "json_ok opt v \<Longrightarrow> skip_ws (dump opt lvl v @ r) = dump opt lvl v @ r"
  using dump_head [of opt v lvl] by auto

lemma list_allI: "(\<And>x. x \<in> set xs \<Longrightarrow> P x) \<Longrightarrow> list_all P xs"
  by (simp add: list_all_iff)

lemma sep_shape:
  "take 1 s = [c] \<Longrightarrow> s = c # drop 1 s"
  by (cases s) auto

lemma jelems_dump:
  assumes opt: "opts_ok opt"
    and elems: "\<And>x r. x \<in> set xs \<Longrightarrow> json_stop r \<Longrightarrow> \<exists>n0. \<forall>n \<ge> n0. jvalue n (dump opt l x @ r) = Inr (x, r)"
    and ok: "list_all (json_ok opt) xs" and ne: "xs \<noteq> []"
  shows "\<exists>n0. \<forall>n \<ge> n0. jelems n acc (str_join (item_sep opt @ newline opt l) (map (dump opt l) xs)
           @ newline opt m @ CHR '']'' # r) = Inr (PList (acc @ xs), r)"
  using elems ok ne
proof (induction xs arbitrary: acc)
  case (Cons x xs)
  let ?fin = "newline opt m @ CHR '']'' # r"
  show ?case
  proof (cases xs)
    case Nil
    from Cons.prems(1) [of x ?fin] obtain n0
      where n0: "\<And>n. n \<ge> n0 \<Longrightarrow> jvalue n (dump opt l x @ ?fin) = Inr (x, ?fin)"
      using json_stop_ws [OF newline_ws] by auto
    have "jelems n acc (dump opt l x @ ?fin) = Inr (PList (acc @ [x]), r)" if "n \<ge> Suc n0" for n
      using that n0 [of "n - 1"] newline_ws [of opt m] by (cases n) auto
    then show ?thesis using Nil by auto
  next
    case (Cons y ys)
    have xs: "xs \<noteq> []" using Cons by simp
    let ?rest = "str_join (item_sep opt @ newline opt l) (map (dump opt l) xs) @ ?fin"
    let ?next = "item_sep opt @ newline opt l @ ?rest"
    have sep: "item_sep opt = CHR '','' # drop 1 (item_sep opt)" "list_all is_jws (drop 1 (item_sep opt))"
      using opt sep_shape [of "item_sep opt"] by (simp_all add: opts_ok_def)
    have stop: "json_stop ?next" by (subst sep(1)) simp
    have split: "str_join (item_sep opt @ newline opt l) (map (dump opt l) (x # xs)) @ ?fin
        = dump opt l x @ ?next"
      using Cons by simp
    have rest: "skip_ws ?rest = ?rest"
      using skip_ws_dump [of opt y l] Cons.prems(2) Cons by (cases ys) auto
    from Cons.prems(1) [of x, OF _ stop] obtain n0
      where n0: "\<And>n. n \<ge> n0 \<Longrightarrow> jvalue n (dump opt l x @ ?next) = Inr (x, ?next)" by auto
    from Cons.IH [of "acc @ [x]"] Cons.prems xs obtain n1
      where n1: "\<And>n. n \<ge> n1 \<Longrightarrow> jelems n (acc @ [x]) ?rest = Inr (PList ((acc @ [x]) @ xs), r)"
      by auto
    have next_ws: "skip_ws ?next = CHR '','' # drop 1 (item_sep opt) @ newline opt l @ ?rest"
      by (subst sep(1)) simp
    have "jelems n acc (dump opt l x @ ?next) = Inr (PList (acc @ x # xs), r)"
      if n: "n \<ge> Suc (max n0 n1)" for n
    proof -
      obtain k where k: "n = Suc k" "k \<ge> n0" "k \<ge> n1" using n by (cases n) auto
      have "jelems n acc (dump opt l x @ ?next) =
          jelems k (acc @ [x]) (skip_ws (drop 1 (item_sep opt) @ newline opt l @ ?rest))"
        by (simp add: k(1) n0 [OF k(2)] next_ws del: append_assoc)
      also have "\<dots> = jelems k (acc @ [x]) ?rest"
        using sep(2) newline_ws [of opt l] rest by simp
      finally show ?thesis using n1 [OF k(3)] by simp
    qed
    then show ?thesis unfolding split by blast
  qed
qed simp

lemma dset_fresh: "k \<notin> fst ` set d \<Longrightarrow> dset k v d = d @ [(k, v)]"
  by (induction d) auto

definition dump_item :: "json_opts \<Rightarrow> nat \<Rightarrow> string \<times> pyv \<Rightarrow> string" where
  "dump_item opt l = (\<lambda>(k, v). dump_str (ensure_ascii opt) k @ key_sep opt @ dump opt l v)"

lemma jmembers_step:
  assumes opt: "opts_ok opt" and k: "ensure_ascii opt \<longrightarrow> is_ascii k" and v: "json_ok opt v"
    and val: "jvalue n (dump opt l v @ q) = Inr (v, q)"
    and q: "skip_ws q = c # t"
  shows "jmembers (Suc n) d (dump_item opt l (k, v) @ q) =
    (if c = CHR ''}'' then Inr (PDict (dset k v d), t)
     else if c = CHR '','' then jmembers n (dset k v d) (skip_ws t) else json_error)"
proof -
  have sep: "key_sep opt = CHR '':'' # drop 1 (key_sep opt)" "list_all is_jws (drop 1 (key_sep opt))"
    using opt sep_shape [of "key_sep opt"] by (simp_all add: opts_ok_def)
  let ?r = "key_sep opt @ dump opt l v @ q"
  obtain u where u: "dump_str (ensure_ascii opt) k = dquote # u" "jstring (u @ ?r) = Inr (k, ?r)"
    using jstring_dump_str [OF k, of ?r] by blast
  have r: "skip_ws ?r = CHR '':'' # drop 1 (key_sep opt) @ dump opt l v @ q"
    by (subst sep(1)) simp
  have w: "skip_ws (drop 1 (key_sep opt) @ dump opt l v @ q) = dump opt l v @ q"
    using sep(2) skip_ws_dump [OF v] by simp
  show ?thesis
    using u w val q r by (simp add: dump_item_def)
qed

lemma dump_item_head:
  "\<exists>t. dump_item opt l kv = dquote # t"
  by (cases kv) (simp add: dump_item_def dump_str_def)

lemma jmembers_dump:
  assumes opt: "opts_ok opt"
    and vals: "\<And>k x r. (k, x) \<in> set e \<Longrightarrow> json_stop r \<Longrightarrow> \<exists>n0. \<forall>n \<ge> n0. jvalue n (dump opt l x @ r) = Inr (x, r)"
    and ok: "list_all (\<lambda>(k, v). (ensure_ascii opt \<longrightarrow> is_ascii k) \<and> json_ok opt v) e"
    and d: "dict_ok (d @ e)" and ne: "e \<noteq> []"
  shows "\<exists>n0. \<forall>n \<ge> n0. jmembers n d (str_join (item_sep opt @ newline opt l) (map (dump_item opt l) e)
           @ newline opt m @ CHR ''}'' # r) = Inr (PDict (d @ e), r)"
  using vals ok d ne
proof (induction e arbitrary: d)
  case (Cons kv e)
  obtain k v where kv: "kv = (k, v)" by (cases kv)
  have fresh: "dset k v d = d @ [(k, v)]"
    using Cons.prems(3) by (intro dset_fresh) (auto simp: dict_ok_def kv)
  have ok': "ensure_ascii opt \<longrightarrow> is_ascii k" "json_ok opt v" using Cons.prems(2) by (auto simp: kv)
  let ?fin = "newline opt m @ CHR ''}'' # r"
  show ?case
  proof (cases "e = []")
    case True
    from Cons.prems(1) [of k v ?fin] obtain n0
      where n0: "\<And>n. n \<ge> n0 \<Longrightarrow> jvalue n (dump opt l v @ ?fin) = Inr (v, ?fin)"
      using json_stop_ws [OF newline_ws] by (auto simp: kv)
    have "jmembers n d (dump_item opt l kv @ ?fin) = Inr (PDict (d @ [kv]), r)" if n: "n \<ge> Suc n0" for n
    proof -
      obtain j where j: "n = Suc j" "j \<ge> n0" using n by (cases n) auto
      have "skip_ws ?fin = CHR ''}'' # r" using newline_ws [of opt m] by simp
      from jmembers_step [OF opt ok' n0 [OF j(2)] this] show ?thesis by (simp add: j(1) kv fresh)
    qed
    then show ?thesis using True by auto
  next
    case False
    let ?rest = "str_join (item_sep opt @ newline opt l) (map (dump_item opt l) e) @ ?fin"
    let ?next = "item_sep opt @ newline opt l @ ?rest"
    have sep: "item_sep opt = CHR '','' # drop 1 (item_sep opt)" "list_all is_jws (drop 1 (item_sep opt))"
      using opt sep_shape [of "item_sep opt"] by (simp_all add: opts_ok_def)
    have stop: "json_stop ?next" by (subst sep(1)) simp
    obtain y ys where ys: "e = y # ys" using False by (cases e) auto
    have split: "str_join (item_sep opt @ newline opt l) (map (dump_item opt l) (kv # e)) @ ?fin
        = dump_item opt l kv @ ?next"
      by (simp add: ys)
    have rest: "skip_ws ?rest = ?rest"
      using dump_item_head [of opt l y] by (cases ys) (auto simp: ys)
    from Cons.prems(1) [of k v, OF _ stop] obtain n0
      where n0: "\<And>n. n \<ge> n0 \<Longrightarrow> jvalue n (dump opt l v @ ?next) = Inr (v, ?next)" by (auto simp: kv)
    have dict: "dict_ok ((d @ [(k, v)]) @ e)" using Cons.prems(3) by (simp add: kv)
    have "\<exists>n0. \<forall>n \<ge> n0. jmembers n (d @ [(k, v)]) ?rest = Inr (PDict ((d @ [(k, v)]) @ e), r)"
    proof (rule Cons.IH [OF _ _ dict False])
      show "\<exists>n0. \<forall>n \<ge> n0. jvalue n (dump opt l x @ r') = Inr (x, r')"
        if "(j, x) \<in> set e" "json_stop r'" for j x r'
        using Cons.prems(1) [of j x r'] that by simp
    qed (use Cons.prems(2) in simp)
    then obtain n1
      where n1: "\<And>n. n \<ge> n1 \<Longrightarrow> jmembers n (d @ [(k, v)]) ?rest = Inr (PDict ((d @ [(k, v)]) @ e), r)"
      by blast
    have next_ws: "skip_ws ?next = CHR '','' # drop 1 (item_sep opt) @ newline opt l @ ?rest"
      by (subst sep(1)) simp
    have "jmembers n d (dump_item opt l kv @ ?next) = Inr (PDict (d @ kv # e), r)"
      if n: "n \<ge> Suc (max n0 n1)" for n
    proof -
      obtain j where j: "n = Suc j" "j \<ge> n0" "j \<ge> n1" using n by (cases n) auto
      have "jmembers n d (dump_item opt l kv @ ?next) =
          jmembers j (d @ [(k, v)]) (skip_ws (drop 1 (item_sep opt) @ newline opt l @ ?rest))"
        using jmembers_step [OF opt ok' n0 [OF j(2)] next_ws] by (simp add: j(1) kv fresh)
      also have "\<dots> = jmembers j (d @ [(k, v)]) ?rest"
        using sep(2) newline_ws [of opt l] rest by simp
      finally show ?thesis using n1 [OF j(3)] by (simp add: kv)
    qed
    then show ?thesis unfolding split by blast
  qed
qed simp

lemma ex_fuel_Suc:
  assumes "\<exists>n0. \<forall>n \<ge> n0. f n = y" and "\<And>n. h (Suc n) = f n"
  shows "\<exists>n0 :: nat. \<forall>n \<ge> n0. h n = y"
  using assms by (metis Suc_le_D Suc_le_mono)

lemma jvalue_dump:
  assumes "opts_ok opt"
  shows "json_ok opt v \<Longrightarrow> json_stop r \<Longrightarrow>
    \<exists>n0. \<forall>n \<ge> n0. jvalue n (dump opt lvl v @ r) = Inr (v, r)"
proof (induction v arbitrary: lvl r)
  case (PInt i)
  obtain c t where c: "str_of_int i = c # t" "is_digit c \<or> c = CHR ''-''"
    using str_of_int_head [of i] by blast
  then have "c \<noteq> dquote" "c \<noteq> CHR ''[''" "c \<noteq> CHR ''{''" by (auto simp: is_digit_def dquote_def)
  then have "jvalue (Suc n) (dump opt lvl (PInt i) @ r) = Inr (PInt i, r)" for n
    using jscalar_int [of i r] PInt c by simp
  then show ?case by (metis Suc_le_D)
next
  case (PStr s)
  obtain u where "dump_str (ensure_ascii opt) s = dquote # u" "jstring (u @ r) = Inr (s, r)"
    using jstring_dump_str [of "ensure_ascii opt" s r] PStr by auto
  then have "jvalue (Suc n) (dump opt lvl (PStr s) @ r) = Inr (PStr s, r)" for n by simp
  then show ?case by (metis Suc_le_D)
next
  case (PList xs)
  show ?case
  proof (cases "xs = []")
    case True
    have "jvalue (Suc n) (dump opt lvl (PList xs) @ r) = Inr (PList xs, r)" for n
      using True by simp
    then show ?thesis by (metis Suc_le_D)
  next
    case False
    let ?text = "str_join (item_sep opt @ newline opt (Suc lvl)) (map (dump opt (Suc lvl)) xs) @
      newline opt lvl @ CHR '']'' # r"
    have ws: "skip_ws (newline opt (Suc lvl) @ ?text) = ?text \<and> take 1 ?text \<noteq> '']''"
    proof -
      obtain y ys where ys: "xs = y # ys" using False by (cases xs) auto
      obtain c t where "dump opt (Suc lvl) y = c # t" "\<not> is_jws c" "c \<noteq> CHR '']''"
        using dump_head [of opt y "Suc lvl"] PList ys by auto
      then show ?thesis using newline_ws [of opt "Suc lvl"] by (cases ys) (auto simp: ys)
    qed
    have fuel: "\<exists>n0. \<forall>n \<ge> n0. jelems n [] ?text = Inr (PList ([] @ xs), r)"
    proof (rule jelems_dump [OF assms _ _ False])
      show "\<exists>n0. \<forall>n \<ge> n0. jvalue n (dump opt (Suc lvl) x @ r') = Inr (x, r')"
        if "x \<in> set xs" "json_stop r'" for x r'
        using PList.IH [OF that(1) _ that(2)] PList.prems(1) that(1) by (simp add: list_all_iff)
    qed (use PList.prems(1) in simp)
    have step: "jvalue (Suc n) (dump opt lvl (PList xs) @ r) = jelems n [] ?text" for n
      using False ws by simp
    show ?thesis using ex_fuel_Suc [OF fuel step] by simp
  qed
next
  case (PDict d)
  show ?case
  proof (cases "d = []")
    case True
    have "jvalue (Suc n) (dump opt lvl (PDict d) @ r) = Inr (PDict d, r)" for n
      using True by simp
    then show ?thesis by (metis Suc_le_D)
  next
    case False
    let ?text = "str_join (item_sep opt @ newline opt (Suc lvl)) (map (dump_item opt (Suc lvl)) d) @
      newline opt lvl @ CHR ''}'' # r"
    have ws: "skip_ws (newline opt (Suc lvl) @ ?text) = ?text \<and> take 1 ?text \<noteq> ''}''"
    proof -
      obtain y ys where ys: "d = y # ys" using False by (cases d) auto
      obtain t where "dump_item opt (Suc lvl) y = dquote # t" using dump_item_head by blast
      then show ?thesis using newline_ws [of opt "Suc lvl"] by (cases ys) (auto simp: ys)
    qed
    have fuel: "\<exists>n0. \<forall>n \<ge> n0. jmembers n [] ?text = Inr (PDict ([] @ d), r)"
    proof (rule jmembers_dump [OF assms _ _ _ False])
      show "\<exists>n0. \<forall>n \<ge> n0. jvalue n (dump opt (Suc lvl) x @ r') = Inr (x, r')"
        if "(k, x) \<in> set d" "json_stop r'" for k x r'
        using PDict.IH [OF that(1) _ _ that(2), of x] PDict.prems(1) that(1)
        by (auto simp: list_all_iff)
    qed (use PDict.prems(1) in simp_all)
    have step: "jvalue (Suc n) (dump opt lvl (PDict d) @ r) = jmembers n [] ?text" for n
      using False ws by (simp add: dump_item_def)
    show ?thesis using ex_fuel_Suc [OF fuel step] by simp
  qed
qed (auto simp: jscalar_def json_literals_def startswith_def dquote_def intro!: exI [of _ "Suc 0"] dest!: Suc_le_D)

lemma sort_items_set [simp]: "set (sort_items d) = set d"
  by (simp add: sort_items_def)

lemma dict_ok_sort_items [simp]: "dict_ok (sort_items d) = dict_ok d"
  by (auto simp: dict_ok_def sort_items_def distinct_map inj_on_def)

lemma jsort_json_ok: "json_ok opt v \<Longrightarrow> json_ok opt (jsort v)"
proof (induction v)
  case (PList xs)
  then show ?case by (auto simp: list_all_iff)
next
  case (PDict d)
  have "dict_ok (map (\<lambda>(k, v). (k, jsort v)) d) = dict_ok d"
    by (simp add: dict_ok_def comp_def case_prod_beta)
  with PDict show ?case by (fastforce simp: list_all_iff)
qed auto

theorem loads_dumps:
  assumes "opts_ok opt" "json_ok opt v"
  shows "loads (dumps opt v) = Inr (if sort_keys opt then jsort v else v)"
proof -
  define w where "w = (if sort_keys opt then jsort v else v)"
  have w: "json_ok opt w" using assms jsort_json_ok by (auto simp: w_def)
  have txt_w: "dumps opt v = dump opt 0 w" by (simp add: dumps_def w_def)
  obtain n0 where n0: "\<And>n. n \<ge> n0 \<Longrightarrow> jvalue n (dump opt 0 w) = Inr (w, [])"
    using jvalue_dump [OF assms(1) w, of "[]" 0] by auto
  let ?n = "2 * length (dump opt 0 w)"
  have "jvalue ?n (dump opt 0 w) = jvalue (max n0 ?n) (dump opt 0 w)"
    by (rule json_fuel(1)) simp_all
  then have "jvalue ?n (dump opt 0 w) = Inr (w, [])" using n0 [of "max n0 ?n"] by simp
  moreover have "skip_ws (dump opt 0 w) = dump opt 0 w"
    using skip_ws_dump [OF w, of 0 "[]"] by simp
  moreover have "\<not> startswith (dump opt 0 w) byte_order_mark"
    using dump_head [OF w, of 0] by (auto simp: startswith_def byte_order_mark_def code_char_of
        dest: arg_cong [where f = "of_char :: char \<Rightarrow> nat"])
  ultimately show ?thesis
    unfolding txt_w w_def [symmetric] by (simp add: loads_def skip_ws_def)
qed

section \<open>ASCII output\<close>

lemma is_ascii_simps [simp]:
  "is_ascii []" "is_ascii (c # s) \<longleftrightarrow> code c < 128 \<and> is_ascii s"
  "is_ascii (s @ t) \<longleftrightarrow> is_ascii s \<and> is_ascii t"
  by (simp_all add: is_ascii_def)

lemma decode_utf8_ascii: "is_ascii s \<Longrightarrow> decode_utf8 s = Inr s"
proof -
  assume s: "is_ascii s"
  have "\<not> list_ex is_surrogate (map code s)"
    using s by (induction s) (auto simp: is_surrogate_def)
  then show ?thesis by (simp add: decode_utf8_def code_points_ascii [OF s])
qed

lemma is_ascii_concat: "is_ascii (concat xs) \<longleftrightarrow> list_all is_ascii xs"
  by (induction xs) simp_all

lemma is_ascii_join: "is_ascii sep \<Longrightarrow> list_all is_ascii xs \<Longrightarrow> is_ascii (str_join sep xs)"
  by (induction sep xs rule: str_join.induct) simp_all

lemma is_ascii_jws: "list_all is_jws s \<Longrightarrow> is_ascii s"
  by (induction s) (auto simp: is_jws_def)

lemma is_ascii_digits: "list_all is_digit s \<Longrightarrow> is_ascii s"
  by (induction s) (auto simp: is_digit_def)

lemma is_ascii_hex: "list_all is_hex s \<Longrightarrow> is_ascii s"
  by (induction s) (auto simp: is_hex_def is_digit_def)

lemma is_ascii_str_of_int: "is_ascii (str_of_int i)"
  by (simp add: str_of_int_def is_ascii_digits [OF str_of_nat_digits])

lemma code_hex_digit: "n < 16 \<Longrightarrow> code (hex_digit n) < 128"
  by (simp add: hex_digit_def code_char_of)

lemma is_ascii_dump_code: "n < 128 \<Longrightarrow> is_ascii (dump_code n)"
  by (simp add: dump_code_def u_escape_def u4_def code_hex_digit code_char_of)

lemma is_ascii_dump_str: "is_ascii s \<Longrightarrow> is_ascii (dump_str True s)"
proof -
  assume s: "is_ascii s"
  then have "list_all (\<lambda>n. is_ascii (dump_code n)) (map code s)"
    by (induction s) (auto simp: is_ascii_dump_code)
  then show ?thesis
    by (simp add: dump_str_def code_points_ascii [OF s] is_ascii_concat list.pred_map comp_def)
qed

lemma is_ascii_sep: "take 1 s = [c] \<Longrightarrow> code c < 128 \<Longrightarrow> list_all is_jws (drop 1 s) \<Longrightarrow> is_ascii s"
  by (cases s) (auto simp: is_ascii_jws)

lemma is_ascii_seps:
  assumes "opts_ok opt"
  shows "is_ascii (item_sep opt)" "is_ascii (key_sep opt)" "is_ascii (newline opt lvl)"
  using assms is_ascii_jws [OF newline_ws] by (auto simp: opts_ok_def intro: is_ascii_sep)

lemma is_ascii_dump:
  assumes "opts_ok opt" "ensure_ascii opt"
  shows "json_ok opt v \<Longrightarrow> is_ascii (dump opt lvl v)"
proof (induction v arbitrary: lvl)
  case (PStr s)
  then show ?case using assms by (simp add: is_ascii_dump_str)
next
  case (PList xs)
  have "list_all is_ascii (map (dump opt (Suc lvl)) xs)"
    using PList by (auto simp: list_all_iff)
  then show ?case using assms by (simp add: is_ascii_seps is_ascii_join)
next
  case (PDict d)
  have "list_all is_ascii (map (dump_item opt (Suc lvl)) d)"
    using PDict assms by (fastforce simp: list_all_iff dump_item_def is_ascii_dump_str is_ascii_seps)
  then show ?case using assms by (simp add: is_ascii_seps is_ascii_join dump_item_def)
qed (auto simp: is_ascii_str_of_int)

lemma read_dumps:
  assumes "opts_ok opt" "ensure_ascii opt" "json_ok opt v"
  shows "bnd (decode_utf8 (dumps opt v)) loads = Inr (if sort_keys opt then jsort v else v)"
  using assms by (simp add: decode_utf8_ascii dumps_def is_ascii_dump jsort_json_ok
      loads_dumps [unfolded dumps_def])

end
