(* ===== verification/Py_Regex.thy ===== *)
theory Py_Regex
  imports Py_Text
begin

text \<open>
  The regular expressions of the \<open>re\<close> module, as far as the sources use them with
  \<open>fullmatch\<close>: character classes, concatenation, alternatives, star and bounded repetition.
  None of the patterns has back references, so whether \<open>fullmatch\<close> succeeds is membership in
  the pattern's language.  The matcher computes with derivatives, and
  \<open>fullmatch_lang\<close> shows that it decides the language.
\<close>

datatype rx =
    RZero
  | REps
  | RChr "char \<Rightarrow> bool"
  | RSeq rx rx
  | RAlt rx rx
  | RStar rx
  | RUpto rx nat  \<comment> \<open>at most that many times\<close>

section \<open>Patterns\<close>

fun rx_lit :: "string \<Rightarrow> rx" where
  "rx_lit [] = REps"
| "rx_lit (c # s) = RSeq (RChr (\<lambda>x. x = c)) (rx_lit s)"

fun rx_rep :: "nat \<Rightarrow> rx \<Rightarrow> rx" where
  "rx_rep 0 r = REps"
| "rx_rep (Suc n) r = RSeq r (rx_rep n r)"

definition rx_range :: "nat \<Rightarrow> nat \<Rightarrow> rx \<Rightarrow> rx" where
  "rx_range a b r = RSeq (rx_rep a r) (RUpto r (b - a))"

definition rx_plus :: "rx \<Rightarrow> rx" where
  "rx_plus r = RSeq r (RStar r)"

definition rx_opt :: "rx \<Rightarrow> rx" where
  "rx_opt r = RAlt r REps"

fun rx_seqs :: "rx list \<Rightarrow> rx" where
  "rx_seqs [] = REps"
| "rx_seqs [r] = r"
| "rx_seqs (r # rs) = RSeq r (rx_seqs rs)"

fun rx_alts :: "rx list \<Rightarrow> rx" where
  "rx_alts [] = RZero"
| "rx_alts [r] = r"
| "rx_alts (r # rs) = RAlt r (rx_alts rs)"

declare rx_lit.simps [simp del] rx_rep.simps [simp del]

section \<open>Language\<close>

definition conc :: "string set \<Rightarrow> string set \<Rightarrow> string set" where
  "conc A B = {u @ v | u v. u \<in> A \<and> v \<in> B}"

fun powl :: "string set \<Rightarrow> nat \<Rightarrow> string set" where
  "powl A 0 = {[]}"
| "powl A (Suc n) = conc A (powl A n)"

fun lang :: "rx \<Rightarrow> string set" where
  "lang RZero = {}"
| "lang REps = {[]}"
| "lang (RChr p) = {[c] | c. p c}"
| "lang (RSeq r s) = conc (lang r) (lang s)"
| "lang (RAlt r s) = lang r \<union> lang s"
| "lang (RStar r) = (\<Union>n. powl (lang r) n)"
| "lang (RUpto r m) = (\<Union>n \<in> {..m}. powl (lang r) n)"

section \<open>Matcher\<close>

fun nullable :: "rx \<Rightarrow> bool" where
  "nullable RZero = False"
| "nullable REps = True"
| "nullable (RChr p) = False"
| "nullable (RSeq r s) = (nullable r \<and> nullable s)"
| "nullable (RAlt r s) = (nullable r \<or> nullable s)"
| "nullable (RStar r) = True"
| "nullable (RUpto r m) = True"

fun mk_seq :: "rx \<Rightarrow> rx \<Rightarrow> rx" where
  "mk_seq RZero s = RZero"
| "mk_seq REps s = s"
| "mk_seq r s = RSeq r s"

fun mk_alt :: "rx \<Rightarrow> rx \<Rightarrow> rx" where
  "mk_alt RZero s = s"
| "mk_alt r RZero = r"
| "mk_alt r s = RAlt r s"

fun deriv :: "char \<Rightarrow> rx \<Rightarrow> rx" where
  "deriv c RZero = RZero"
| "deriv c REps = RZero"
| "deriv c (RChr p) = (if p c then REps else RZero)"
| "deriv c (RSeq r s) =
     (if nullable r then mk_alt (mk_seq (deriv c r) s) (deriv c s) else mk_seq (deriv c r) s)"
| "deriv c (RAlt r s) = mk_alt (deriv c r) (deriv c s)"
| "deriv c (RStar r) = mk_seq (deriv c r) (RStar r)"
| "deriv c (RUpto r 0) = RZero"
| "deriv c (RUpto r (Suc m)) = mk_seq (deriv c r) (RUpto r m)"

fun fullmatch :: "rx \<Rightarrow> string \<Rightarrow> bool" where
  "fullmatch r [] = nullable r"
| "fullmatch r (c # s) = fullmatch (deriv c r) s"

section \<open>Correctness of the matcher\<close>

lemma lang_mk_seq [simp]: "lang (mk_seq r s) = conc (lang r) (lang s)"
  by (cases r) (auto simp: conc_def)

lemma lang_mk_alt [simp]: "lang (mk_alt r s) = lang r \<union> lang s"
  by (cases "(r, s)" rule: mk_alt.cases) auto

lemma Nil_in_conc [simp]: "[] \<in> conc A B \<longleftrightarrow> [] \<in> A \<and> [] \<in> B"
  by (auto simp: conc_def)

lemma nullable_lang: "nullable r \<longleftrightarrow> [] \<in> lang r"
proof (induction r)
  case (RStar r)
  have "[] \<in> powl (lang r) 0" by simp
  then show ?case by (auto simp del: powl.simps)
next
  case (RUpto r m)
  have "[] \<in> powl (lang r) 0" by simp
  then show ?case by (auto simp del: powl.simps)
qed auto

lemma Cons_in_conc:
  "c # s \<in> conc A B \<longleftrightarrow>
     (\<exists>u v. s = u @ v \<and> c # u \<in> A \<and> v \<in> B) \<or> ([] \<in> A \<and> c # s \<in> B)"
  by (auto simp: conc_def Cons_eq_append_conv)

lemma Cons_in_powl:
  "c # s \<in> powl A n \<Longrightarrow> \<exists>u v k. k < n \<and> s = u @ v \<and> c # u \<in> A \<and> v \<in> powl A k"
proof (induction n)
  case 0
  then show ?case by simp
next
  case (Suc n)
  from Suc.prems consider u v where "s = u @ v" "c # u \<in> A" "v \<in> powl A n" | "c # s \<in> powl A n"
    by (auto simp: Cons_in_conc)
  then show ?case
  proof cases
    case 1
    then show ?thesis by blast
  next
    case 2
    from Suc.IH [OF this] obtain u v k where "k < n" "s = u @ v" "c # u \<in> A" "v \<in> powl A k"
      by blast
    then show ?thesis by (intro exI [of _ u] exI [of _ v] exI [of _ k]) simp
  qed
qed

lemma powl_ConsI: "c # u \<in> A \<Longrightarrow> v \<in> powl A k \<Longrightarrow> c # u @ v \<in> powl A (Suc k)"
  by (auto simp: conc_def) (metis append_Cons)

lemma Cons_in_star:
  "c # s \<in> (\<Union>n. powl A n) \<longleftrightarrow> (\<exists>u v. s = u @ v \<and> c # u \<in> A \<and> v \<in> (\<Union>n. powl A n))"
  (is "?l \<longleftrightarrow> ?r")
proof
  assume ?l
  then obtain n where "c # s \<in> powl A n" by blast
  from Cons_in_powl [OF this] show ?r by blast
next
  assume ?r
  then obtain u v k where "s = u @ v" "c # u \<in> A" "v \<in> powl A k" by blast
  then show ?l using powl_ConsI [of c u A v k] by blast
qed

lemma Cons_in_upto:
  "c # s \<in> (\<Union>n \<in> {..Suc m}. powl A n) \<longleftrightarrow>
     (\<exists>u v. s = u @ v \<and> c # u \<in> A \<and> v \<in> (\<Union>n \<in> {..m}. powl A n))"
  (is "?l \<longleftrightarrow> ?r")
proof
  assume ?l
  then obtain n where n: "n \<le> Suc m" "c # s \<in> powl A n" by auto
  from Cons_in_powl [OF n(2)] obtain u v k
    where "k < n" "s = u @ v" "c # u \<in> A" "v \<in> powl A k" by blast
  then show ?r using n(1) by (intro exI [of _ u] exI [of _ v]) auto
next
  assume ?r
  then obtain u v k where "s = u @ v" "c # u \<in> A" "v \<in> powl A k" "k \<le> m" by blast
  then show ?l using powl_ConsI [of c u A v k] by (auto simp del: powl.simps)
qed

lemma lang_deriv: "s \<in> lang (deriv c r) \<longleftrightarrow> c # s \<in> lang r"
proof (induction c r arbitrary: s rule: deriv.induct)
  case (4 c r t)
  then show ?case
    by (auto simp: Cons_in_conc nullable_lang) (auto simp: conc_def)
next
  case (6 c r)
  then show ?case
    unfolding lang.simps Cons_in_star by (auto simp: conc_def)
next
  case (8 c r m)
  then show ?case
    unfolding lang.simps Cons_in_upto by (auto simp: conc_def)
qed auto

lemma fullmatch_lang: "fullmatch r s \<longleftrightarrow> s \<in> lang r"
  by (induction r s rule: fullmatch.induct) (auto simp: nullable_lang lang_deriv)

section \<open>Shapes of the patterns\<close>

lemma lang_rx_lit [simp]: "lang (rx_lit s) = {s}"
  by (induction s) (auto simp: conc_def rx_lit.simps)

lemma lang_rx_rep [simp]: "lang (rx_rep n r) = powl (lang r) n"
  by (induction n) (auto simp: rx_rep.simps)

lemma conc_class: "conc {[c] | c. p c} B = {c # t | c t. p c \<and> t \<in> B}"
  by (auto simp: conc_def) (metis append_Cons append_Nil)

lemma powl_class: "powl {[c] | c. p c} n = {s. length s = n \<and> list_all p s}"
proof (induction n)
  case 0
  show ?case by auto
next
  case (Suc n)
  show ?case
    unfolding powl.simps conc_class Suc by (auto simp: length_Suc_conv)
qed

lemma star_class: "(\<Union>n. powl {[c] | c. p c} n) = {s. list_all p s}"
  by (auto simp: powl_class)

lemma upto_class: "(\<Union>n \<in> {..m}. powl {[c] | c. p c} n) = {s. length s \<le> m \<and> list_all p s}"
  by (auto simp: powl_class)

lemma fullmatch_rep_class:
  "fullmatch (rx_rep n (RChr p)) s \<longleftrightarrow> length s = n \<and> list_all p s"
  by (simp add: fullmatch_lang powl_class)

lemma fullmatch_star_class: "fullmatch (RStar (RChr p)) s \<longleftrightarrow> list_all p s"
  unfolding fullmatch_lang lang.simps star_class by simp

lemma fullmatch_Zero: "\<not> fullmatch RZero s"
  by (simp add: fullmatch_lang)

lemma fullmatch_plus_class: "fullmatch (rx_plus (RChr p)) s \<longleftrightarrow> s \<noteq> [] \<and> list_all p s"
proof (cases s)
  case Nil
  then show ?thesis by (simp add: rx_plus_def)
next
  case (Cons c t)
  have "fullmatch (rx_plus (RChr p)) (c # t) \<longleftrightarrow> p c \<and> fullmatch (RStar (RChr p)) t"
    by (simp add: rx_plus_def fullmatch_Zero)
  with Cons show ?thesis by (simp add: fullmatch_star_class)
qed

lemma fullmatch_Seq:
  "fullmatch (RSeq r t) s \<longleftrightarrow> (\<exists>u v. s = u @ v \<and> fullmatch r u \<and> fullmatch t v)"
  by (auto simp: fullmatch_lang conc_def)

lemma fullmatch_Alt: "fullmatch (RAlt r t) s \<longleftrightarrow> fullmatch r s \<or> fullmatch t s"
  by (simp add: fullmatch_lang)

lemma fullmatch_lit [simp]: "fullmatch (rx_lit p) s \<longleftrightarrow> s = p"
  by (simp add: fullmatch_lang)

lemma fullmatch_Eps [simp]: "fullmatch REps s \<longleftrightarrow> s = []"
  by (simp add: fullmatch_lang)

lemma fullmatch_alts: "fullmatch (rx_alts rs) s \<longleftrightarrow> (\<exists>r \<in> set rs. fullmatch r s)"
  by (induction rs rule: rx_alts.induct) (auto simp: fullmatch_Alt fullmatch_Zero)

lemma fullmatch_chr: "fullmatch (RChr p) s \<longleftrightarrow> (\<exists>c. s = [c] \<and> p c)"
  by (auto simp: fullmatch_lang)

lemma fullmatch_opt: "fullmatch (rx_opt r) s \<longleftrightarrow> s = [] \<or> fullmatch r s"
  by (auto simp: rx_opt_def fullmatch_Alt)

lemma fullmatch_lit_Seq:
  "fullmatch (RSeq (rx_lit p) r) s \<longleftrightarrow> startswith s p \<and> fullmatch r (drop (length p) s)"
  by (auto simp: fullmatch_Seq startswith_iff)

text \<open>The equations that evaluate a pattern on a concrete string.\<close>

declare fullmatch.simps(2) [simp del]

lemmas rx_eval = fullmatch.simps rx_lit.simps rx_rep.simps rx_range_def rx_plus_def rx_opt_def

lemma fullmatch_upto_class: "fullmatch (rx_range 0 n (RChr p)) s \<longleftrightarrow> length s \<le> n \<and> list_all p s"
  by (auto simp: fullmatch_lang rx_range_def powl_class conc_def)

lemma fullmatch_chr_Seq: "fullmatch (RSeq (RChr p) r) (c # s) \<longleftrightarrow> p c \<and> fullmatch r s"
  by (auto simp: fullmatch_Seq fullmatch_chr intro: exI [of _ "[c]"])

section \<open>The patterns several components share\<close>

text \<open>\<open>^[0-9a-f]{40}$\<close>, \<open>[0-9a-f]{64}\<close>, \<open>^sha256:[0-9a-f]{64}$\<close> and the OCI reference
  \<open>^([^@\s]+)@(sha256:[0-9a-f]{64})$\<close>.\<close>

definition rx_commit :: rx where
  "rx_commit = rx_rep 40 (RChr is_hex)"

definition rx_hex64 :: rx where
  "rx_hex64 = rx_rep 64 (RChr is_hex)"

definition rx_digest :: rx where
  "rx_digest = RSeq (rx_lit ''sha256:'') rx_hex64"

definition rx_oci :: rx where
  "rx_oci = rx_seqs [rx_plus (RChr (\<lambda>c. c \<noteq> CHR ''@'' \<and> \<not> is_space c)), rx_lit ''@'', rx_digest]"

text \<open>The two groups of an OCI match: the name cannot hold an at sign.\<close>

definition oci_groups :: "string \<Rightarrow> (string \<times> string) option" where
  "oci_groups s =
     (if fullmatch rx_oci s
      then (case str_partition ''@'' s of (name, _, digest) \<Rightarrow> Some (name, digest))
      else None)"

lemma fullmatch_commit: "fullmatch rx_commit s \<longleftrightarrow> length s = 40 \<and> list_all is_hex s"
  by (simp add: rx_commit_def fullmatch_rep_class)

lemma fullmatch_hex64: "fullmatch rx_hex64 s \<longleftrightarrow> length s = 64 \<and> list_all is_hex s"
  by (simp add: rx_hex64_def fullmatch_rep_class)

lemma fullmatch_digest:
  "fullmatch rx_digest s \<longleftrightarrow> (\<exists>h. s = ''sha256:'' @ h \<and> length h = 64 \<and> list_all is_hex h)"
  by (auto simp: rx_digest_def fullmatch_Seq fullmatch_hex64)

lemma fullmatch_oci:
  "fullmatch rx_oci s \<longleftrightarrow>
     (\<exists>n d. s = n @ ''@'' @ d \<and> n \<noteq> [] \<and> CHR ''@'' \<notin> set n \<and> list_all (\<lambda>c. \<not> is_space c) n
        \<and> fullmatch rx_digest d)"
  (is "_ \<longleftrightarrow> ?r")
proof -
  have "fullmatch rx_oci s \<longleftrightarrow>
     (\<exists>n d. s = n @ ''@'' @ d \<and> n \<noteq> [] \<and> list_all (\<lambda>c. c \<noteq> CHR ''@'' \<and> \<not> is_space c) n
        \<and> fullmatch rx_digest d)"
    by (auto simp: rx_oci_def fullmatch_Seq fullmatch_plus_class)
  also have "\<dots> \<longleftrightarrow> ?r"
    by (auto simp: list_all_iff)
  finally show ?thesis .
qed

lemma oci_groups_Some:
  "oci_groups s = Some (n, d) \<longleftrightarrow>
     s = n @ ''@'' @ d \<and> n \<noteq> [] \<and> CHR ''@'' \<notin> set n \<and> list_all (\<lambda>c. \<not> is_space c) n
       \<and> fullmatch rx_digest d"
  by (auto simp: oci_groups_def fullmatch_oci str_partition_char split: if_splits)

lemma oci_groups_None: "oci_groups s = None \<longleftrightarrow> \<not> fullmatch rx_oci s"
  by (auto simp: oci_groups_def split: prod.splits)

end
