(* ===== verification/Sha256.thy ===== *)
theory Sha256
  imports Py_Regex "HOL-Library.Word"
begin

text \<open>
  \<open>hashlib.sha256(data).hexdigest()\<close>: the hash of FIPS 180-4 on bytes, with 32-bit words whose
  additions wrap.  The components compare digests; the facts they need are that a digest is
  64 lower-case hexadecimal characters and that equal data has equal digests.
\<close>

unbundle bit_operations_syntax

type_synonym w32 = "32 word"

text \<open>
  The constants as the standard defines them: the first 32 bits of the fractional parts of the
  cube roots of the first sixty-four primes, and of the square roots of the first eight.
  \<open>int_root k n\<close> is the integer part of the \<open>k\<close>-th root, bit by bit; the conversion to a
  word drops the bits of the root's integer part.
\<close>

definition sha_primes :: "nat list" where
  "sha_primes = filter (\<lambda>n. list_all (\<lambda>d. n mod d \<noteq> 0) [2..<n]) [2..<312]"

definition int_root :: "nat \<Rightarrow> nat \<Rightarrow> nat" where
  "int_root k n = foldl (\<lambda>r i. if (r + 2 ^ i) ^ k \<le> n then r + 2 ^ i else r) 0 (rev [0..<40])"

definition sha_k :: "w32 list" where
  "sha_k = map (\<lambda>p. of_nat (int_root 3 (p * 2 ^ 96))) sha_primes"

definition sha_init :: "w32 list" where
  "sha_init = map (\<lambda>p. of_nat (int_root 2 (p * 2 ^ 64))) [2, 3, 5, 7, 11, 13, 17, 19]"

definition rotr :: "nat \<Rightarrow> w32 \<Rightarrow> w32" where
  "rotr n x = drop_bit n x OR push_bit (32 - n) x"

definition big_sigma0 :: "w32 \<Rightarrow> w32" where
  "big_sigma0 x = rotr 2 x XOR rotr 13 x XOR rotr 22 x"

definition big_sigma1 :: "w32 \<Rightarrow> w32" where
  "big_sigma1 x = rotr 6 x XOR rotr 11 x XOR rotr 25 x"

definition small_sigma0 :: "w32 \<Rightarrow> w32" where
  "small_sigma0 x = rotr 7 x XOR rotr 18 x XOR drop_bit 3 x"

definition small_sigma1 :: "w32 \<Rightarrow> w32" where
  "small_sigma1 x = rotr 17 x XOR rotr 19 x XOR drop_bit 10 x"

definition ch :: "w32 \<Rightarrow> w32 \<Rightarrow> w32 \<Rightarrow> w32" where
  "ch x y z = (x AND y) XOR (NOT x AND z)"

definition maj :: "w32 \<Rightarrow> w32 \<Rightarrow> w32 \<Rightarrow> w32" where
  "maj x y z = (x AND y) XOR (x AND z) XOR (y AND z)"

text \<open>Padding: a one bit, zeros, and the length in bits as eight bytes.\<close>

definition be_bytes :: "nat \<Rightarrow> nat \<Rightarrow> nat list" where
  "be_bytes k n = map (\<lambda>i. n div 256 ^ (k - 1 - i) mod 256) [0..<k]"

definition sha_pad :: "nat list \<Rightarrow> nat list" where
  "sha_pad bs = bs @ [128] @ replicate ((119 - length bs mod 64) mod 64) 0 @ be_bytes 8 (8 * length bs)"

fun words_of :: "nat list \<Rightarrow> w32 list" where
  "words_of (a # b # c # d # bs) =
     of_nat (((a * 256 + b) * 256 + c) * 256 + d) # words_of bs"
| "words_of _ = []"

text \<open>The message schedule: sixteen words extended to sixty-four; newest word first.\<close>

fun schedule :: "nat \<Rightarrow> w32 list \<Rightarrow> w32 list" where
  "schedule 0 ws = ws"
| "schedule (Suc n) ws =
     schedule n ((small_sigma1 (ws ! 1) + ws ! 6 + small_sigma0 (ws ! 14) + ws ! 15) # ws)"

fun sha_round :: "w32 list \<Rightarrow> w32 \<times> w32 \<Rightarrow> w32 list" where
  "sha_round [a, b, c, d, e, f, g, h] (k, w) =
     (let t1 = h + big_sigma1 e + ch e f g + k + w;
          t2 = big_sigma0 a + maj a b c
      in [t1 + t2, a, b, c, d + t1, e, f, g])"
| "sha_round st _ = st"

definition compress :: "w32 list \<Rightarrow> w32 list \<Rightarrow> w32 list" where
  "compress st block =
     map2 (+) st (foldl sha_round st (zip sha_k (rev (schedule 48 (rev block)))))"

fun sha_blocks :: "nat \<Rightarrow> w32 list \<Rightarrow> w32 list \<Rightarrow> w32 list" where
  "sha_blocks 0 st ws = st"
| "sha_blocks (Suc n) st ws = sha_blocks n (compress st (take 16 ws)) (drop 16 ws)"

definition sha256_words :: "string \<Rightarrow> w32 list" where
  "sha256_words s =
     (let ws = words_of (sha_pad (map of_char s))
      in sha_blocks (length ws div 16) sha_init ws)"

definition hex_char :: "nat \<Rightarrow> char" where
  "hex_char n = (if n < 10 then char_of (48 + n) else char_of (87 + n))"

definition hex_word :: "w32 \<Rightarrow> string" where
  "hex_word w = map (\<lambda>i. hex_char (unat w div 16 ^ (7 - i) mod 16)) [0..<8]"

definition sha256_hex :: "string \<Rightarrow> string" where
  "sha256_hex s = concat (map hex_word (sha256_words s))"

text \<open>\<open>"sha256:" + hashlib.sha256(data).hexdigest()\<close>, the digest of the release records.\<close>

definition sha256 :: "string \<Rightarrow> string" where
  "sha256 s = ''sha256:'' @ sha256_hex s"

lemma length_sha_round: "length st = 8 \<Longrightarrow> length (sha_round st kw) = 8"
  by (cases "(st, kw)" rule: sha_round.cases) (auto simp: Let_def)

lemma length_foldl_round: "length st = 8 \<Longrightarrow> length (foldl sha_round st xs) = 8"
  by (induction xs arbitrary: st) (auto simp: length_sha_round)

lemma length_sha_blocks: "length st = 8 \<Longrightarrow> length (sha_blocks n st ws) = 8"
  by (induction n st ws rule: sha_blocks.induct) (auto simp: compress_def length_foldl_round)

lemma is_hex_char: "n < 16 \<Longrightarrow> is_hex (hex_char n)"
  by (auto simp: hex_char_def is_hex_def is_digit_def of_char_of)

lemma hex_word_shape: "length (hex_word w) = 8" "list_all is_hex (hex_word w)"
  by (simp_all add: hex_word_def list_all_iff is_hex_char)

lemma sha256_hex_shape: "length (sha256_hex s) = 64" "list_all is_hex (sha256_hex s)"
proof -
  have "length (sha256_words s) = 8"
    by (simp add: sha256_words_def Let_def length_sha_blocks sha_init_def)
  moreover have "sum_list (map (\<lambda>w. length (hex_word w)) ws) = 8 * length ws" for ws
    by (induction ws) (simp_all add: hex_word_shape)
  ultimately show "length (sha256_hex s) = 64"
    by (simp add: sha256_hex_def length_concat comp_def)
  show "list_all is_hex (sha256_hex s)"
    using hex_word_shape(2) by (auto simp: sha256_hex_def list_all_iff)
qed

lemma sha256_is_digest [simp]: "fullmatch rx_digest (sha256 s)"
  by (auto simp: fullmatch_digest sha256_def sha256_hex_shape)

lemma sha256_hex_is_hex64 [simp]: "fullmatch rx_hex64 (sha256_hex s)"
  by (simp add: fullmatch_hex64 sha256_hex_shape)

lemma sha256_no_at [simp]: "CHR ''@'' \<notin> set (sha256 s)"
  using sha256_hex_shape(2) [of s] by (auto simp: sha256_def list_all_iff is_hex_def is_digit_def)

lemma sha256_eq_iff: "sha256 s = sha256 t \<longleftrightarrow> sha256_hex s = sha256_hex t"
  by (simp add: sha256_def)

end
