(* ===== verification/Source_Lock.thy ===== *)
theory Source_Lock
  imports Py_Json Sha256
begin

text \<open>
  \<open>scripts/verify-c8s-admission-source.py\<close>: the lock that pins the c8s commits whose source
  supports admission receipts, and the check of a c8s repository against it.

  The program's surroundings are arguments: the bytes of the lock file (or the \<open>OSError\<close> of
  reading it), what \<open>is_dir\<close> and \<open>is_symlink\<close> say of the repository, and \<open>run\<close>, the git
  process, which gives a return code and its standard output.
\<close>

section \<open>Lock entries\<close>

type_synonym process = "string list \<Rightarrow> (int \<times> string) res"

abbreviation source_error :: "string \<Rightarrow> exn" where
  "source_error m \<equiv> Exn SourceError m"

definition ENTRY_FIELDS :: "string list" where
  "ENTRY_FIELDS = [''commit'', ''nodeImage'', ''c8sOperatorImage'', ''requiredVerifierFlags'', ''files'']"

definition OPTIONAL_ENTRY_FIELDS :: "string list" where
  "OPTIONAL_ENTRY_FIELDS = [''candidate'', ''tag'', ''capabilities'', ''attestationProtocol'']"

definition safe_relative_path :: "string \<Rightarrow> bool" where
  "safe_relative_path name = (\<not> path_is_absolute name \<and> ''..'' \<notin> set (path_parts name))"

text \<open>The commit of an entry: well formed and not pinned before.\<close>

definition check_commit :: "pyv \<Rightarrow> string list \<Rightarrow> string list res" where
  "check_commit value seen =
     bnd (jidx value ''commit'') (\<lambda>commit.
       case commit of
         PStr c \<Rightarrow>
           if \<not> fullmatch rx_commit c then Inl (source_error ''the source lock commit is invalid'')
           else if c \<in> set seen
           then Inl (source_error ''the source lock pins the same commit twice'')
           else Inr (seen @ [c])
       | _ \<Rightarrow> Inl (source_error ''the source lock commit is invalid''))"

definition check_image :: "pyv \<Rightarrow> string \<Rightarrow> unit res" where
  "check_image value field =
     bnd (jidx value field) (\<lambda>image.
       let (reference, separator, digest) =
             (case image of PStr s \<Rightarrow> str_rpartition ''@'' s | _ \<Rightarrow> ([], [], []))
       in raise_if (separator = [] \<or> reference = [] \<or> \<not> fullmatch rx_digest digest)
            (source_error (''the source lock '' @ field @ '' is not digest-pinned'')))"

definition bad_file_record :: "string \<times> pyv \<Rightarrow> bool" where
  "bad_file_record = (\<lambda>(name, digest).
     path_is_absolute name \<or> ''..'' \<in> set (path_parts name) \<or>
     (case digest of PStr d \<Rightarrow> \<not> fullmatch rx_digest d | _ \<Rightarrow> True))"

definition check_files :: "pyv \<Rightarrow> unit res" where
  "check_files value =
     bnd (jidx value ''files'') (\<lambda>files.
       case files of
         PDict d \<Rightarrow>
           if d = [] then Inl (source_error ''the source lock has no files'')
           else for_each (\<lambda>r. raise_if (bad_file_record r)
                  (source_error ''the source lock contains an invalid file record'')) d
       | _ \<Rightarrow> Inl (source_error ''the source lock has no files''))"

definition bad_flag :: "pyv \<Rightarrow> bool" where
  "bad_flag f = (case f of PStr s \<Rightarrow> \<not> startswith s ''--'' | _ \<Rightarrow> True)"

definition check_flags :: "pyv \<Rightarrow> unit res" where
  "check_flags value =
     bnd (jidx value ''requiredVerifierFlags'') (\<lambda>flags.
       raise_ifM
         (case flags of
            PList fs \<Rightarrow>
              orsM [Inr (fs = []), Inr (list_ex bad_flag fs),
                    bnd (py_set fs) (\<lambda>u. Inr (length u \<noteq> length fs))]
          | _ \<Rightarrow> Inr True)
         (source_error ''the source lock verifier flags are invalid''))"

definition check_tag :: "pyv \<Rightarrow> unit res" where
  "check_tag value =
     bnd (jin ''tag'' value) (\<lambda>present.
       if \<not> present then Inr ()
       else bnd (jidx value ''tag'') (\<lambda>tag.
         raise_if (\<not> is_str tag \<or> \<not> truthy tag) (source_error ''the source lock tag is invalid'')))"

definition check_capabilities :: "pyv \<Rightarrow> unit res" where
  "check_capabilities value =
     bnd (jin ''capabilities'' value) (\<lambda>present.
       if \<not> present then Inr ()
       else bnd (jidx value ''capabilities'') (\<lambda>capabilities.
         raise_ifM
           (case capabilities of
              PDict d \<Rightarrow>
                orsM [Inr (''allowlistCanonicalize'' \<notin> set (dkeys d)),
                      Inr (\<not> sub_keys (dkeys d)
                        [''allowlistCanonicalize'', ''gpuAttestationMode'', ''frontDoorVerification'']),
                      bnd (jidx capabilities ''allowlistCanonicalize'') (\<lambda>v. Inr (\<not> is_bool v)),
                      bnd (jgetd capabilities ''gpuAttestationMode'' (PStr ''receipt-evidence'')) (\<lambda>v.
                        bnd (in_strs v [''receipt-evidence'', ''measured-boot-gate'']) (\<lambda>b. Inr (\<not> b))),
                      bnd (jgetd capabilities ''frontDoorVerification'' (PStr ''c8s-cli'')) (\<lambda>v.
                        bnd (in_strs v [''c8s-cli'', ''external-teerminator'']) (\<lambda>b. Inr (\<not> b)))]
            | _ \<Rightarrow> Inr True)
           (source_error ''the source lock capabilities are invalid'')))"

definition check_protocol :: "pyv \<Rightarrow> unit res" where
  "check_protocol value =
     bnd (jin ''attestationProtocol'' value) (\<lambda>present.
       if \<not> present then Inr ()
       else bnd (jidx value ''attestationProtocol'') (\<lambda>v.
         bnd (in_strs v [''c8s/attest-pq/v1'', ''c8s/attest-pq/v1+xwing'']) (\<lambda>b.
           raise_if (\<not> b) (source_error ''the source lock attestation protocol is invalid''))))"

definition bad_candidate :: "pyv \<Rightarrow> pyv \<Rightarrow> bool res" where
  "bad_candidate value candidate =
     (case candidate of
        PDict d \<Rightarrow>
          orsM [Inr (\<not> same_keys (dkeys d) [''status'', ''commit''] \<and>
                     \<not> same_keys (dkeys d) [''status'', ''commit'', ''sourceChecks'']),
                bnd (jget candidate ''status'') (\<lambda>s.
                  bnd (in_strs s [''staging-only'', ''release-ready'']) (\<lambda>b. Inr (\<not> b))),
                bnd (jget candidate ''commit'') (\<lambda>c. Inr (\<not> is_str c)),
                bnd (jidx candidate ''commit'') (\<lambda>c. Inr (\<not> fullmatch rx_commit (py_str c))),
                bnd (jidx candidate ''commit'') (\<lambda>c. bnd (jidx value ''commit'') (\<lambda>v. Inr (py_eq c v)))]
      | _ \<Rightarrow> Inr True)"

definition bad_source_checks :: "pyv \<Rightarrow> bool res" where
  "bad_source_checks checks =
     (case checks of
        PDict d \<Rightarrow>
          orsM [Inr (\<not> same_keys (dkeys d) [''status'', ''files'', ''content'']),
                bnd (jidx checks ''status'') (\<lambda>s.
                  bnd (in_strs s [''pending-final-integration'', ''verified'']) (\<lambda>b. Inr (\<not> b))),
                bnd (jidx checks ''files'') (\<lambda>fs. Inr (\<not> is_list fs)),
                bnd (jidx checks ''files'') (\<lambda>fs. Inr (\<not> truthy fs)),
                bnd (jidx checks ''files'') (\<lambda>fs. bnd (jiter fs) (\<lambda>names.
                  Inr (list_ex (\<lambda>n. case n of PStr s \<Rightarrow> \<not> safe_relative_path s | _ \<Rightarrow> True) names))),
                bnd (jidx checks ''files'') (\<lambda>fs. bnd (jiter fs) (\<lambda>names.
                  bnd (py_set names) (\<lambda>u. Inr (length u \<noteq> length names)))),
                bnd (jidx checks ''content'') (\<lambda>c. Inr (\<not> is_dict c))]
      | _ \<Rightarrow> Inr True)"

definition bad_markers :: "pyv \<Rightarrow> bool" where
  "bad_markers markers =
     (case markers of
        PList ms \<Rightarrow> ms = [] \<or> list_ex (\<lambda>m. \<not> is_str m \<or> \<not> truthy m) ms
      | _ \<Rightarrow> True)"

definition check_source_checks :: "pyv \<Rightarrow> unit res" where
  "check_source_checks candidate =
     bnd (jidx candidate ''sourceChecks'') (\<lambda>checks.
     bnd (raise_ifM (bad_source_checks checks)
            (source_error ''the c8s candidate source checks are invalid'')) (\<lambda>_.
     bnd (jidx checks ''content'') (\<lambda>content.
     bnd (jidx checks ''files'') (\<lambda>files.
     bnd (jitems content) (\<lambda>items.
     bnd (jiter files) (\<lambda>names.
     bnd (raise_if (\<not> (list_all (\<lambda>k. PStr k \<in> set names) (dkeys items) \<and>
                        list_all (\<lambda>n. n \<in> PStr ` set (dkeys items)) names))
            (source_error ''the c8s candidate source checks do not cover every file'')) (\<lambda>_.
     bnd (for_each (\<lambda>(name, markers). raise_if (bad_markers markers)
            (source_error ''the c8s candidate source markers are invalid'')) items) (\<lambda>_.
     bnd (jidx candidate ''status'') (\<lambda>status.
     bnd (jidx checks ''status'') (\<lambda>checked.
       raise_if (py_eq status (PStr ''release-ready'') \<and> \<not> py_eq checked (PStr ''verified''))
         (source_error ''the release-ready c8s candidate source checks are not verified'')))))))))))"

definition check_candidate :: "pyv \<Rightarrow> unit res" where
  "check_candidate value =
     bnd (jin ''candidate'' value) (\<lambda>present.
       if \<not> present then Inr ()
       else bnd (jidx value ''candidate'') (\<lambda>candidate.
         bnd (raise_ifM (bad_candidate value candidate)
                (source_error ''the c8s staging candidate is invalid'')) (\<lambda>_.
         bnd (jin ''sourceChecks'' candidate) (\<lambda>checked.
           if checked then check_source_checks candidate
           else bnd (jidx candidate ''status'') (\<lambda>status.
             raise_if (py_eq status (PStr ''release-ready''))
               (source_error ''the release-ready c8s candidate has no source checks''))))))"

text \<open>\<open>validate_entry\<close>: the checks of one entry in the order of the code; it returns the
  commits seen so far.\<close>

definition validate_entry :: "pyv \<Rightarrow> string list \<Rightarrow> string list res" where
  "validate_entry value seen =
     bnd (check_commit value seen) (\<lambda>seen'.
     bnd (for_each (check_image value) [''nodeImage'', ''c8sOperatorImage'']) (\<lambda>_.
     bnd (check_files value) (\<lambda>_.
     bnd (check_flags value) (\<lambda>_.
     bnd (check_tag value) (\<lambda>_.
     bnd (check_capabilities value) (\<lambda>_.
     bnd (check_protocol value) (\<lambda>_.
     bnd (check_candidate value) (\<lambda>_. Inr seen'))))))))"

section \<open>Reading the lock\<close>

definition lock_schema :: string where
  "lock_schema = ''confidential-inference.c8s-admission-source-lock/v1''"

text \<open>The body of the loop over the \<open>commits\<close> list.\<close>

definition entry_step :: "string list \<Rightarrow> pyv \<Rightarrow> string list res" where
  "entry_step seen entry =
     (case entry of
        PDict e \<Rightarrow>
          if \<not> sub_keys ENTRY_FIELDS (dkeys e) \<or>
             \<not> sub_keys (dkeys e) (ENTRY_FIELDS @ OPTIONAL_ENTRY_FIELDS)
          then Inl (source_error ''the source lock commits list contains invalid fields'')
          else validate_entry entry seen
      | _ \<Rightarrow> Inl (source_error ''the source lock commits list contains invalid fields''))"

definition read_lock :: "string res \<Rightarrow> pyv res" where
  "read_lock source =
     bnd (try_except (bnd source (\<lambda>data. bnd (decode_utf8 data) loads))
            [OSError, UnicodeError, JSONDecodeError]
            (\<lambda>_. Inl (source_error ''the source lock is not valid JSON''))) (\<lambda>value.
     bnd (case value of
            PDict d \<Rightarrow>
              raise_if (\<not> sub_keys (''schema'' # ENTRY_FIELDS) (dkeys d) \<or>
                  \<not> sub_keys (dkeys d) (''schema'' # ENTRY_FIELDS @ OPTIONAL_ENTRY_FIELDS @ [''commits'']))
                (source_error ''the source lock fields are invalid'')
          | _ \<Rightarrow> Inl (source_error ''the source lock fields are invalid'')) (\<lambda>_.
     bnd (jidx value ''schema'') (\<lambda>schema.
     bnd (raise_if (\<not> py_eq schema (PStr lock_schema))
            (source_error ''the source lock schema is invalid'')) (\<lambda>_.
     bnd (validate_entry value []) (\<lambda>seen.
     bnd (jin ''commits'' value) (\<lambda>present.
       if \<not> present then Inr value
       else bnd (jidx value ''commits'') (\<lambda>commits.
         case commits of
           PList entries \<Rightarrow>
             if entries = [] then Inl (source_error ''the source lock commits list is invalid'')
             else bnd (foldM entry_step seen entries) (\<lambda>_. Inr value)
         | _ \<Rightarrow> Inl (source_error ''the source lock commits list is invalid''))))))))"

definition select_entry :: "pyv \<Rightarrow> string option \<Rightarrow> pyv res" where
  "select_entry lock commit =
     (case commit of
        None \<Rightarrow> Inr lock
      | Some c \<Rightarrow>
          bnd (jidx lock ''commit'') (\<lambda>top.
            if py_eq top (PStr c) then Inr lock
            else bnd (jgetd lock ''commits'' (PList [])) (\<lambda>commits.
              bnd (jiter commits) (\<lambda>entries.
              bnd (findM (\<lambda>entry. bnd (jidx entry ''commit'') (\<lambda>v. Inr (py_eq v (PStr c)))) entries) (\<lambda>found.
                case found of
                  Some entry \<Rightarrow> Inr entry
                | None \<Rightarrow> Inl (source_error ''the requested c8s commit is not pinned in the source lock''))))))"

section \<open>Checking a repository\<close>

definition git_source :: "process \<Rightarrow> string \<Rightarrow> string list \<Rightarrow> string res" where
  "git_source run repository arguments =
     bnd (try_except (run ([''git'', ''-C'', repository] @ arguments)) [OSError]
            (\<lambda>_. Inl (source_error ''git did not run''))) (\<lambda>(code, out).
       if code \<noteq> 0 then Inl (source_error ''git could not read the pinned c8s commit'') else Inr out)"

definition decode_ascii :: "string \<Rightarrow> string res" where
  "decode_ascii s = (if is_ascii s then Inr s else Inl (Exn UnicodeError []))"

definition resolve_commit :: "process \<Rightarrow> string \<Rightarrow> string \<Rightarrow> string \<Rightarrow> unit res" where
  "resolve_commit run repository commit message =
     bnd (git_source run repository [''rev-parse'', commit @ ''^{commit}'']) (\<lambda>resolved.
     bnd (decode_ascii resolved) (\<lambda>t.
       raise_if (str_strip t \<noteq> commit) (source_error message)))"

definition verify_file :: "process \<Rightarrow> string \<Rightarrow> string \<Rightarrow> pydict \<Rightarrow> string \<times> pyv \<Rightarrow> pydict res" where
  "verify_file run repository commit verified = (\<lambda>(name, expected).
     bnd (git_source run repository [''show'', commit @ '':'' @ name]) (\<lambda>value.
       if \<not> py_eq (PStr (sha256 value)) expected
       then Inl (source_error (''the pinned c8s source differs at '' @ name))
       else Inr (dset name (PStr (sha256 value)) verified)))"

definition verify_markers :: "process \<Rightarrow> string \<Rightarrow> string \<Rightarrow> pyv \<Rightarrow> unit res" where
  "verify_markers run repository commit checks =
     bnd (jidx checks ''files'') (\<lambda>files. bnd (jiter files) (for_each (\<lambda>file.
       bnd (str_method file) (\<lambda>name.
       bnd (git_source run repository [''show'', commit @ '':'' @ name]) (\<lambda>value.
       bnd (jidx checks ''content'') (\<lambda>content.
       bnd (jidx content name) (\<lambda>markers.
       bnd (jiter markers) (for_each (\<lambda>m.
         bnd (str_method m) (\<lambda>marker.
           raise_if (\<not> contains marker value)
             (source_error (''the c8s candidate source lacks '' @ str_repr marker @ '' in '' @ name))))))))))))"

definition verify_candidate :: "process \<Rightarrow> string \<Rightarrow> pyv \<Rightarrow> pyv res" where
  "verify_candidate run repository lock =
     bnd (jget lock ''candidate'') (\<lambda>candidate.
     bnd (if candidate = PNone then Inr PNone else jget candidate ''sourceChecks'') (\<lambda>checks.
       if checks = PNone then Inr (PStr ''not-declared'')
       else bnd (jidx checks ''status'') (\<lambda>status.
         bnd (jidx candidate ''status'') (\<lambda>cstatus.
           if \<not> py_eq cstatus (PStr ''release-ready'') then Inr status
           else bnd (jidx candidate ''commit'') (\<lambda>c. bnd (str_method c) (\<lambda>commit.
             bnd (resolve_commit run repository commit
                    ''git resolved a different c8s candidate commit'') (\<lambda>_.
             bnd (verify_markers run repository commit checks) (\<lambda>_. Inr status))))))))"

definition verify_source ::
  "process \<Rightarrow> bool \<Rightarrow> bool \<Rightarrow> string \<Rightarrow> string res \<Rightarrow> string option \<Rightarrow> pyv res" where
  "verify_source run is_dir is_symlink repository lock_file commit =
     (if \<not> is_dir \<or> is_symlink then Inl (source_error ''the c8s repository is invalid'')
      else bnd (read_lock lock_file) (\<lambda>whole.
        bnd (select_entry whole commit) (\<lambda>lock.
        bnd (jidx lock ''commit'') (\<lambda>c. bnd (str_method c) (\<lambda>commit.
        bnd (resolve_commit run repository commit ''git resolved a different c8s commit'') (\<lambda>_.
        bnd (jidx lock ''files'') (\<lambda>files. bnd (jitems files) (\<lambda>items.
        bnd (foldM (verify_file run repository commit) [] (sort_items items)) (\<lambda>verified.
        bnd (verify_candidate run repository lock) (\<lambda>status.
        bnd (jidx lock ''nodeImage'') (\<lambda>node.
        bnd (jidx lock ''c8sOperatorImage'') (\<lambda>operator.
          Inr (PDict [(''verified'', PBool True), (''commit'', PStr commit),
            (''nodeImage'', node), (''c8sOperatorImage'', operator),
            (''files'', PDict verified), (''candidateSourceStatus'', status)])))))))))))))"

text \<open>\<open>main\<close>: exit code, standard output and standard error.\<close>

definition main_source ::
  "process \<Rightarrow> bool \<Rightarrow> bool \<Rightarrow> string \<Rightarrow> string res \<Rightarrow> string option \<Rightarrow> (int \<times> string \<times> string) res" where
  "main_source run is_dir is_symlink repository lock_file commit =
     try_except
       (bnd (verify_source run is_dir is_symlink repository lock_file commit) (\<lambda>result.
          Inr (0, dumps (json_compact \<lparr>sort_keys := True\<rparr>) result @ [char_of (10 :: nat)], [])))
       [SourceError, UnicodeError]
       (\<lambda>e. Inr (1, [], ''source verification failed: '' @ msg e @ [char_of (10 :: nat)]))"

section \<open>What an accepted lock pins\<close>

text \<open>The entries of a lock: the document itself and the items of its \<open>commits\<close> list.\<close>

definition lock_entries :: "pyv \<Rightarrow> pyv list" where
  "lock_entries lock =
     lock # (case jget lock ''commits'' of Inr (PList entries) \<Rightarrow> entries | _ \<Rightarrow> [])"

definition entry_commit :: "pyv \<Rightarrow> string option" where
  "entry_commit entry = (case jidx entry ''commit'' of Inr (PStr c) \<Rightarrow> Some c | _ \<Rightarrow> None)"

definition digest_pinned :: "pyv option \<Rightarrow> bool" where
  "digest_pinned v \<longleftrightarrow>
     (\<exists>reference digest. v = Some (PStr (reference @ ''@'' @ digest)) \<and> reference \<noteq> [] \<and>
        fullmatch rx_digest digest)"

definition entry_pinned :: "pyv \<Rightarrow> bool" where
  "entry_pinned entry \<longleftrightarrow>
     (\<exists>d c files. entry = PDict d \<and> map_of d ''commit'' = Some (PStr c) \<and> fullmatch rx_commit c \<and>
        digest_pinned (map_of d ''nodeImage'') \<and> digest_pinned (map_of d ''c8sOperatorImage'') \<and>
        map_of d ''files'' = Some (PDict files) \<and> files \<noteq> [] \<and>
        (\<forall>(name, v) \<in> set files. safe_relative_path name \<and> (\<exists>h. v = PStr h \<and> fullmatch rx_digest h)))"

lemma check_image_ok: 
  "check_image (PDict d) field = Inr u \<Longrightarrow> digest_pinned (map_of d field)"
  by (auto simp: check_image_def digest_pinned_def res_simps Let_def elim!: bndE
      split: pyv.splits prod.splits option.splits) (metis append_Cons append_Nil str_rpartition_shape)

lemma check_commit_ok:
  "check_commit value seen = Inr seen' \<Longrightarrow>
     \<exists>c. entry_commit value = Some c \<and> fullmatch rx_commit c \<and> c \<notin> set seen \<and> seen' = seen @ [c]"
  by (auto simp: check_commit_def entry_commit_def elim!: bndE split: pyv.splits if_splits)

lemma check_files_ok:
  "check_files (PDict d) = Inr u \<Longrightarrow>
     \<exists>files. map_of d ''files'' = Some (PDict files) \<and> files \<noteq> [] \<and>
       (\<forall>(name, v) \<in> set files. safe_relative_path name \<and> (\<exists>h. v = PStr h \<and> fullmatch rx_digest h))"
  by (auto simp: check_files_def res_simps bad_file_record_def safe_relative_path_def
      elim!: bndE split: pyv.splits if_splits option.splits)

lemma validate_entry_ok:
  assumes "validate_entry value seen = Inr seen'"
  shows "entry_pinned value" 
    and "\<exists>c. entry_commit value = Some c \<and> c \<notin> set seen \<and> seen' = seen @ [c]"
proof -
  from assms have c: "check_commit value seen = Inr seen'"
    and i: "check_image value ''nodeImage'' = Inr ()" "check_image value ''c8sOperatorImage'' = Inr ()"
    and f: "check_files value = Inr ()"
    by (auto simp: validate_entry_def res_simps elim!: bndE)
  from c obtain d where d: "value = PDict d"
    by (auto simp: check_commit_def res_simps elim!: bndE)
  show "\<exists>c. entry_commit value = Some c \<and> c \<notin> set seen \<and> seen' = seen @ [c]"
    using check_commit_ok [OF c] by blast
  show "entry_pinned value"
    using check_commit_ok [OF c] check_files_ok [of d] check_image_ok [of d] i f
    by (auto simp: entry_pinned_def d entry_commit_def split: option.splits pyv.splits)
qed

lemma entry_stepD: "entry_step seen entry = Inr seen' \<Longrightarrow> validate_entry entry seen = Inr seen'"
  by (auto simp: entry_step_def split: pyv.splits if_splits)

lemma validate_entries_ok:
  assumes "foldM entry_step seen entries = Inr seen'" "distinct seen"
  shows "list_all entry_pinned entries \<and>
    (\<exists>cs. map entry_commit entries = map Some cs \<and> seen' = seen @ cs \<and> distinct (seen @ cs))"
  using assms
proof (induction entries arbitrary: seen)
  case Nil
  then show ?case by simp
next
  case (Cons entry entries)
  from Cons.prems(1) obtain seen1 where s: "validate_entry entry seen = Inr seen1"
    "foldM entry_step seen1 entries = Inr seen'" by (auto elim!: bndE dest: entry_stepD)
  from validate_entry_ok [OF s(1)] obtain c where c: "entry_pinned entry"
    "entry_commit entry = Some c" "c \<notin> set seen" "seen1 = seen @ [c]" by blast
  with Cons.prems(2) have "distinct seen1" by simp
  from Cons.IH [OF s(2) this] obtain cs where "list_all entry_pinned entries"
    "map entry_commit entries = map Some cs" "seen' = seen1 @ cs" "distinct (seen1 @ cs)" by blast
  with c show ?case by (auto intro!: exI [of _ "c # cs"])
qed

lemma read_lock_inv:
  assumes "read_lock source = Inr lock"
  shows "\<exists>d seen seen'. lock = PDict d \<and> validate_entry lock [] = Inr seen \<and>
    foldM entry_step seen (tl (lock_entries lock)) = Inr seen' \<and>
    (map_of d ''commits'' = None \<or> (\<exists>entries. map_of d ''commits'' = Some (PList entries)))"
proof -
  from assms obtain d seen where d: "lock = PDict d" "validate_entry lock [] = Inr seen"
    and rest: "''commits'' \<notin> fst ` set d \<or>
      (\<exists>entries seen'. map_of d ''commits'' = Some (PList entries) \<and> foldM entry_step seen entries = Inr seen')"
    by (auto simp: read_lock_def res_simps elim!: bndE split: pyv.splits if_splits)
  from rest show ?thesis
    using d by (auto simp: lock_entries_def map_of_eq_None_iff [symmetric])
qed

lemma read_lock_pins:
  assumes "read_lock source = Inr lock"
  shows "list_all entry_pinned (lock_entries lock)"
    and "\<exists>cs. map entry_commit (lock_entries lock) = map Some cs \<and> distinct cs"
proof -
  from read_lock_inv [OF assms] obtain seen seen' where s: "validate_entry lock [] = Inr seen"
    "foldM entry_step seen (tl (lock_entries lock)) = Inr seen'" by blast
  from validate_entry_ok [OF s(1)] obtain c
    where top: "entry_pinned lock" "entry_commit lock = Some c" "seen = [c]" by auto
  from validate_entries_ok [OF s(2)] top obtain cs
    where rest: "list_all entry_pinned (tl (lock_entries lock))"
      "map entry_commit (tl (lock_entries lock)) = map Some cs" "distinct (c # cs)" by auto
  have entries: "lock_entries lock = lock # tl (lock_entries lock)" by (simp add: lock_entries_def)
  show "list_all entry_pinned (lock_entries lock)" by (subst entries) (use top rest in simp)
  show "\<exists>cs. map entry_commit (lock_entries lock) = map Some cs \<and> distinct cs"
    by (subst entries, rule exI [of _ "c # cs"]) (use top rest in simp)
qed

lemma jiter_dict_member: "jiter v = Inr xs \<Longrightarrow> PDict d \<in> set xs \<Longrightarrow> v = PList xs"
  by (cases v) auto

lemma select_entry_member:
  assumes "select_entry lock commit = Inr entry"
  shows "entry \<in> set (lock_entries lock)" and "commit = Some c \<Longrightarrow> entry_commit entry = Some c"
proof -
  from assms consider "entry = lock" "commit = Some c \<longrightarrow> entry_commit entry = Some c"
    | c' v entries where "commit = Some c'" "jgetd lock ''commits'' (PList []) = Inr v" "jiter v = Inr entries"
       "findM (\<lambda>entry. bnd (jidx entry ''commit'') (\<lambda>v. Inr (py_eq v (PStr c')))) entries = Inr (Some entry)"
    by (auto simp: select_entry_def entry_commit_def elim!: bndE split: option.splits if_splits)
  then have "entry \<in> set (lock_entries lock) \<and> (commit = Some c \<longrightarrow> entry_commit entry = Some c)"
  proof cases
    case 1
    then show ?thesis by (simp add: lock_entries_def)
  next
    case (2 c' v entries)
    from findM_eq_Some [OF 2(4)] obtain e where e: "entry \<in> set entries" "entry = PDict e"
      "map_of e ''commit'' = Some (PStr c')"
      by (auto simp: res_simps elim!: bndE)
    then have "v = PList entries" using jiter_dict_member 2(3) by blast
    with 2 e show ?thesis
      by (auto simp: lock_entries_def entry_commit_def res_simps split: option.splits)
  qed
  then show "entry \<in> set (lock_entries lock)" "commit = Some c \<Longrightarrow> entry_commit entry = Some c"
    by blast+
qed

lemma select_entry_unlisted:
  assumes "read_lock source = Inr lock" "Some c \<notin> entry_commit ` set (lock_entries lock)"
  shows "select_entry lock (Some c) =
    Inl (source_error ''the requested c8s commit is not pinned in the source lock'')"
proof -
  have pinned: "list_all entry_pinned (lock_entries lock)" by (rule read_lock_pins(1) [OF assms(1)])
  have other: "\<exists>e c'. entry = PDict e \<and> map_of e ''commit'' = Some (PStr c') \<and> c' \<noteq> c"
    if "entry \<in> set (lock_entries lock)" for entry
  proof -
    from pinned that obtain e c' where "entry = PDict e" "map_of e ''commit'' = Some (PStr c')"
      by (auto simp: list_all_iff entry_pinned_def)
    with assms(2) that show ?thesis by (force simp: entry_commit_def)
  qed
  from other [of lock] obtain d c' where d: "lock = PDict d" "map_of d ''commit'' = Some (PStr c')" "c' \<noteq> c"
    by (auto simp: lock_entries_def)
  from read_lock_inv [OF assms(1)] d 
  have shape: "map_of d ''commits'' = None \<or> (\<exists>es. map_of d ''commits'' = Some (PList es))"
    by blast
  have "findM (\<lambda>entry. bnd (jidx entry ''commit'') (\<lambda>v. Inr (py_eq v (PStr c)))) (tl (lock_entries lock)) = Inr None"
    unfolding findM_eq_None
  proof
    fix entry assume "entry \<in> set (tl (lock_entries lock))"
    then have "entry \<in> set (lock_entries lock)" by (simp add: lock_entries_def)
    from other [OF this] show "bnd (jidx entry ''commit'') (\<lambda>v. Inr (py_eq v (PStr c))) = Inr False"
      by auto
  qed
  with d shape show ?thesis
    by (auto simp: select_entry_def lock_entries_def)
qed

section \<open>What a passed verification shows\<close>

text \<open>Git names the object \<open>commit\<close> itself, and the file \<open>name\<close> of that commit is \<open>data\<close>.\<close>

definition git_has_commit :: "process \<Rightarrow> string \<Rightarrow> string \<Rightarrow> bool" where
  "git_has_commit run repository commit \<longleftrightarrow>
     (\<exists>out. run [''git'', ''-C'', repository, ''rev-parse'', commit @ ''^{commit}''] = Inr (0, out) \<and>
        str_strip out = commit)"

definition git_file :: "process \<Rightarrow> string \<Rightarrow> string \<Rightarrow> string \<Rightarrow> string \<Rightarrow> bool" where
  "git_file run repository commit name data \<longleftrightarrow>
     run [''git'', ''-C'', repository, ''show'', commit @ '':'' @ name] = Inr (0, data)"

lemma git_source_ok:
  "git_source run repository arguments = Inr out \<longleftrightarrow>
     run ([''git'', ''-C'', repository] @ arguments) = Inr (0, out)"
  by (auto simp: git_source_def try_except_reraise elim!: bndE split: if_splits)

lemma resolve_commit_ok: "resolve_commit run repository commit m = Inr u \<Longrightarrow> git_has_commit run repository commit"
  by (auto simp: resolve_commit_def git_has_commit_def git_source_ok decode_ascii_def res_simps
      elim!: bndE split: if_splits)

lemma verify_file_ok:
  "verify_file run repository commit acc (name, v) = Inr acc' \<longleftrightarrow>
     (\<exists>data. git_file run repository commit name data \<and> v = PStr (sha256 data)) \<and> acc' = dset name v acc"
  by (auto simp: verify_file_def git_source_ok git_file_def bnd_eq_Inr)

lemma verify_files_ok:
  assumes "foldM (verify_file run repository commit) acc items = Inr verified"
  shows "(\<forall>(name, v) \<in> set items. \<exists>data. git_file run repository commit name data \<and> v = PStr (sha256 data)) \<and>
    verified = dupdate acc items"
  using assms
proof (induction items arbitrary: acc)
  case Nil
  then show ?case by (simp add: dupdate_def)
next
  case (Cons item items)
  obtain name v where item: "item = (name, v)" by (cases item)
  from Cons.prems obtain data where d: "git_file run repository commit name data" "v = PStr (sha256 data)"
    "foldM (verify_file run repository commit) (dset name v acc) items = Inr verified"
    by (auto simp: item verify_file_ok elim!: bndE)
  from Cons.IH [OF d(3)] d show ?case by (auto simp: item dupdate_def)
qed

lemma verify_source_inv:
  assumes "verify_source run is_dir is_symlink repository lock_file commit = Inr r"
  shows "\<exists>lock e c files node operator verified status. read_lock lock_file = Inr lock \<and>
    select_entry lock commit = Inr (PDict e) \<and>
    map_of e ''commit'' = Some (PStr c) \<and> git_has_commit run repository c \<and>
    map_of e ''files'' = Some (PDict files) \<and>
    foldM (verify_file run repository c) [] (sort_items files) = Inr verified \<and>
    map_of e ''nodeImage'' = Some node \<and> map_of e ''c8sOperatorImage'' = Some operator \<and>
    r = PDict [(''verified'', PBool True), (''commit'', PStr c), (''nodeImage'', node),
      (''c8sOperatorImage'', operator), (''files'', PDict verified), (''candidateSourceStatus'', status)]"
  using assms
  by (auto simp: verify_source_def res_simps elim!: bndE split: if_splits) (erule resolve_commit_ok)

text \<open>
  What the record of a passed verification stands for: it names a pinned entry of the lock (the
  requested one), git has its commit, and every file the entry lists has the locked digest there.
\<close>

definition source_verified ::
  "process \<Rightarrow> string \<Rightarrow> string res \<Rightarrow> string option \<Rightarrow> pyv \<Rightarrow> bool" where
  "source_verified run repository lock_file commit result \<longleftrightarrow>
     (\<exists>lock e c files node operator verified status.
        read_lock lock_file = Inr lock \<and> PDict e \<in> set (lock_entries lock) \<and>
        entry_commit (PDict e) = Some c \<and> fullmatch rx_commit c \<and>
        (\<forall>requested. commit = Some requested \<longrightarrow> c = requested) \<and>
        git_has_commit run repository c \<and>
        map_of e ''files'' = Some (PDict files) \<and> files \<noteq> [] \<and>
        (\<forall>(name, v) \<in> set files. \<exists>data. git_file run repository c name data \<and> v = PStr (sha256 data)) \<and>
        set (dkeys verified) = set (dkeys files) \<and>
        digest_pinned (Some node) \<and> digest_pinned (Some operator) \<and>
        result = PDict [(''verified'', PBool True), (''commit'', PStr c), (''nodeImage'', node),
          (''c8sOperatorImage'', operator), (''files'', PDict verified), (''candidateSourceStatus'', status)])"

subsection \<open>A concrete lock\<close>

definition example_commit :: string where
  "example_commit = replicate 40 (CHR ''a'')"

definition example_repository :: string where
  "example_repository = ''ghcr.io/c8s/node''"

definition example_image :: pyv where
  "example_image = PStr (example_repository @ ''@'' @ sha256 ''image'')"

definition example_lock :: pyv where
  "example_lock = PDict [(''schema'', PStr lock_schema), (''commit'', PStr example_commit),
     (''nodeImage'', example_image), (''c8sOperatorImage'', example_image),
     (''requiredVerifierFlags'', PList [PStr ''--strict'']),
     (''files'', PDict [(''cmd/main.go'', PStr (sha256 ''package main''))])]"

definition example_lock_file :: "string res" where
  "example_lock_file = Inr (dumps json_default example_lock)"

definition example_git :: process where
  "example_git args =
     (if args ! 3 = ''rev-parse'' then Inr (0, example_commit) else Inr (0, ''package main''))"

lemma is_ascii_sha256: "is_ascii (sha256 s)"
  using sha256_hex_shape(2) [of s] by (simp add: sha256_def is_ascii_hex)

lemma example_commit_shape: "is_ascii example_commit" "fullmatch rx_commit example_commit"
  by (simp_all add: example_commit_def is_ascii_def fullmatch_commit list_all_iff is_hex_def)

lemma example_lock_read: "bnd (decode_utf8 (dumps json_default example_lock)) loads = Inr example_lock"
  by (subst read_dumps)
    (simp_all add: example_lock_def example_image_def lock_schema_def dict_ok_def is_ascii_sha256
      example_commit_shape example_repository_def json_default_def opts_ok_def is_jws_def)

lemma example_checks:
  "check_commit example_lock [] = Inr [example_commit]"
  "check_image example_lock ''nodeImage'' = Inr ()"
  "check_image example_lock ''c8sOperatorImage'' = Inr ()"
  "check_files example_lock = Inr ()" "check_flags example_lock = Inr ()"
  "check_tag example_lock = Inr ()" "check_capabilities example_lock = Inr ()"
  "check_protocol example_lock = Inr ()" "check_candidate example_lock = Inr ()"
  by (simp_all add: example_lock_def check_commit_def example_commit_shape check_image_def
      example_image_def str_rpartition_char check_files_def bad_file_record_def check_flags_def
      bad_flag_def py_set_def check_tag_def check_capabilities_def check_protocol_def
      check_candidate_def path_is_absolute_def path_parts_def startswith_def)
    (simp add: example_repository_def)+

lemma example_read_lock: "read_lock example_lock_file = Inr example_lock"
proof -
  have "validate_entry example_lock [] = Inr [example_commit]"
    by (simp add: validate_entry_def example_checks)
  then show ?thesis
    unfolding read_lock_def example_lock_file_def
    by (simp add: example_lock_read)
      (simp add: example_lock_def sub_keys_def ENTRY_FIELDS_def dkeys_def OPTIONAL_ENTRY_FIELDS_def)
qed

lemma example_verified:
  "\<exists>result. verify_source example_git True False ''repo'' example_lock_file None = Inr result"
proof -
  have strip: "str_strip example_commit = example_commit"
    by (simp add: str_strip_def example_commit_def is_space_def)
  show ?thesis
    by (simp add: verify_source_def example_read_lock select_entry_def resolve_commit_def git_source_def
        example_git_def decode_ascii_def example_commit_shape strip verify_candidate_def
        verify_file_def sort_items_def example_lock_def)
qed

text \<open>
  C3: when \<open>verify\<close> returns a record, the record names an entry of the accepted lock (the
  requested commit if one was requested) with a well-formed commit that git resolves to itself,
  both images are pinned by digest, and for every file of the entry the content git shows at that
  commit has exactly the locked SHA-256 digest; the record lists exactly those files.
\<close>

theorem verify_source_sound:
  assumes "verify_source run is_dir is_symlink repository lock_file commit = Inr result"
  shows "source_verified run repository lock_file commit result"
proof -
  from verify_source_inv [OF assms] obtain lock e c files node operator verified status where
    v: "read_lock lock_file = Inr lock" "select_entry lock commit = Inr (PDict e)"
      "map_of e ''commit'' = Some (PStr c)" "git_has_commit run repository c"
      "map_of e ''files'' = Some (PDict files)"
      "foldM (verify_file run repository c) [] (sort_items files) = Inr verified"
      "map_of e ''nodeImage'' = Some node" "map_of e ''c8sOperatorImage'' = Some operator"
    and r: "result = PDict [(''verified'', PBool True), (''commit'', PStr c), (''nodeImage'', node),
      (''c8sOperatorImage'', operator), (''files'', PDict verified), (''candidateSourceStatus'', status)]"
    by blast
  have mem: "PDict e \<in> set (lock_entries lock)" by (rule select_entry_member(1) [OF v(2)])
  have commit: "entry_commit (PDict e) = Some c" using v(3) by (simp add: entry_commit_def)
  have pinned: "entry_pinned (PDict e)"
    using read_lock_pins(1) [OF v(1)] mem by (simp add: list_all_iff)
  have fs: "(\<forall>(name, v) \<in> set files. \<exists>data. git_file run repository c name data \<and> v = PStr (sha256 data))"
    "verified = dupdate [] (sort_items files)"
    using verify_files_ok [OF v(6)] by simp_all
  have keys: "set (dkeys verified) = set (dkeys files)"
    by (simp add: fs(2) keys_dupdate) (simp add: dkeys_def)
  have req: "\<forall>requested. commit = Some requested \<longrightarrow> c = requested"
    using select_entry_member(2) [OF v(2)] commit by fastforce
  show ?thesis
    using pinned v mem commit fs keys req r by (auto simp: entry_pinned_def source_verified_def)
qed


theorem verify_source_sound_witness:
  "\<exists>result. verify_source example_git True False ''repo'' example_lock_file None = Inr result \<and>
     source_verified example_git ''repo'' example_lock_file None result"
  using example_verified verify_source_sound by blast

text \<open>
  C4: a commit that the accepted lock does not list never verifies: the program prints the error
  and exits with 1, whatever git says.
\<close>

theorem unlisted_commit_fails:
  assumes "read_lock lock_file = Inr lock" "Some c \<notin> entry_commit ` set (lock_entries lock)"
  shows "main_source run is_dir is_symlink repository lock_file (Some c) =
    Inr (1, [], ''source verification failed: '' @
      (if is_dir \<and> \<not> is_symlink then ''the requested c8s commit is not pinned in the source lock''
       else ''the c8s repository is invalid'') @ [char_of (10 :: nat)])"
  using select_entry_unlisted [OF assms] assms(1)
  by (simp add: main_source_def verify_source_def try_except_def catches_def)

theorem unlisted_commit_fails_witness:
  "read_lock example_lock_file = Inr example_lock \<and>
   Some (replicate 40 (CHR ''b'')) \<notin> entry_commit ` set (lock_entries example_lock) \<and>
   main_source example_git True False ''repo'' example_lock_file (Some (replicate 40 (CHR ''b''))) =
     Inr (1, [], ''source verification failed: '' @
       ''the requested c8s commit is not pinned in the source lock'' @ [char_of (10 :: nat)])"
proof -
  have "Some (replicate 40 (CHR ''b'')) \<notin> entry_commit ` set (lock_entries example_lock)"
    by (simp add: lock_entries_def example_lock_def entry_commit_def example_commit_def)
  then show ?thesis
    using example_read_lock
      unlisted_commit_fails [of example_lock_file example_lock "replicate 40 (CHR ''b'')" example_git True False]
    by simp
qed

text \<open>
  The lock is accepted only if every entry is complete (well-formed commit, digest-pinned
  images, a non-empty list of safe paths with digests) and no commit is pinned twice.
\<close>

theorem read_lock_distinct_pins:
  assumes "read_lock source = Inr lock"
  shows "list_all entry_pinned (lock_entries lock) \<and>
    (\<exists>cs. map entry_commit (lock_entries lock) = map Some cs \<and> distinct cs)"
  using read_lock_pins [OF assms] by blast

theorem read_lock_distinct_pins_witness:
  "read_lock example_lock_file = Inr example_lock \<and> list_all entry_pinned (lock_entries example_lock) \<and>
   (\<exists>cs. map entry_commit (lock_entries example_lock) = map Some cs \<and> distinct cs)"
  using example_read_lock read_lock_distinct_pins by blast

end
