(* ===== verification/Repo_Env.thy ===== *)
theory Repo_Env
  imports Py_Json
begin

text \<open>
  What the release scripts see of their surroundings: the files of the checkout, the directories,
  the resolution of symbolic links, and PyYAML's \<open>safe_load\<close>.  All of it is one record, an
  argument of the scripts' definitions.  A path is the list of the parts of an absolute path.
\<close>

type_synonym path = "string list"

record repo_env =
  repo_root :: path                                  \<comment> \<open>\<open>Path(__file__).resolve().parents[1]\<close>\<close>
  file_bytes :: "path \<Rightarrow> string option"          \<comment> \<open>the content of a readable regular file\<close>
  dir_exists :: "path \<Rightarrow> bool"
  realpath :: "path \<Rightarrow> path"                      \<comment> \<open>\<open>Path.resolve\<close>\<close>
  yaml_load :: "string \<Rightarrow> pyv res"                 \<comment> \<open>\<open>yaml.safe_load\<close>\<close>

definition is_file :: "repo_env \<Rightarrow> path \<Rightarrow> bool" where
  "is_file env p = (file_bytes env p \<noteq> None)"

definition read_bytes :: "repo_env \<Rightarrow> path \<Rightarrow> string res" where
  "read_bytes env p =
     (case file_bytes env p of None \<Rightarrow> Inl (Exn FileNotFoundError []) | Some b \<Rightarrow> Inr b)"

definition read_text :: "repo_env \<Rightarrow> path \<Rightarrow> string res" where
  "read_text env p = bnd (read_bytes env p) decode_utf8"

text \<open>\<open>base / s\<close>: an absolute right operand replaces the base.\<close>

definition join_path :: "path \<Rightarrow> string \<Rightarrow> path" where
  "join_path base s =
     (if path_is_absolute s then drop 1 (path_parts s) else base @ path_parts s)"

definition path_str :: "path \<Rightarrow> string" where
  "path_str p = CHR ''/'' # str_join ''/'' p"

text \<open>\<open>q in (*p.parents, p)\<close>.\<close>

definition under :: "path \<Rightarrow> path \<Rightarrow> bool" where
  "under q p = (take (length q) p = q)"

text \<open>\<open>p.relative_to(base).as_posix()\<close>.\<close>

definition relative_to :: "path \<Rightarrow> path \<Rightarrow> string res" where
  "relative_to p base =
     (if under base p
      then Inr (if p = base then ''.'' else str_join ''/'' (drop (length base) p))
      else Inl (Exn ValueError []))"

lemma under_iff: "under q p \<longleftrightarrow> (\<exists>r. p = q @ r)"
  by (metis append_eq_conv_conj append_take_drop_id under_def)

lemma read_text_eq_Inr:
  "read_text env p = Inr t \<longleftrightarrow> file_bytes env p = Some t \<and> decode_utf8 t = Inr t"
  by (auto simp: read_text_def read_bytes_def bnd_eq_Inr decode_utf8_def split: option.splits if_splits)

end
