(* ===== verification/File_Tree.thy ===== *)
theory File_Tree
  imports Repo_Env Sha256
begin

text \<open>
  A POSIX file system as the programs that check a model volume see it: a tree of regular files,
  directories, symbolic links and other objects, path lookup that follows symbolic links (at most
  forty, as Linux does), and the walk of \<open>os.walk\<close>.
\<close>

datatype node =
    is_File: File (content: string)
  | is_Dir: Dir "(string \<times> node) list"
  | is_Link: Link string
  | Other  \<comment> \<open>device, socket, FIFO\<close>

section \<open>Lookup\<close>

fun lookup :: "node \<Rightarrow> path \<Rightarrow> node option" where
  "lookup n [] = Some n"
| "lookup (Dir es) (p # ps) = (case map_of es p of None \<Rightarrow> None | Some c \<Rightarrow> lookup c ps)"
| "lookup n (p # ps) = None"

definition link_parts :: "string \<Rightarrow> path" where
  "link_parts t = filter (\<lambda>p. p \<noteq> [] \<and> p \<noteq> ''.'') (split_char (CHR ''/'') t)"

text \<open>\<open>resolve l fs cur ps\<close> follows \<open>ps\<close> from the directory \<open>cur\<close>, with at most \<open>l\<close> links.\<close>

function resolve :: "nat \<Rightarrow> node \<Rightarrow> path \<Rightarrow> path \<Rightarrow> path option" where
  "resolve l fs cur [] = (if lookup fs cur = None then None else Some cur)"
| "resolve l fs cur (p # ps) =
     (if p = ''..'' then resolve l fs (butlast cur) ps
      else (case lookup fs (cur @ [p]) of
              None \<Rightarrow> None
            | Some n \<Rightarrow>
                (case n of
                   Link t \<Rightarrow>
                     (case l of
                        0 \<Rightarrow> None
                      | Suc k \<Rightarrow> resolve k fs (if path_is_absolute t then [] else cur) (link_parts t @ ps))
                 | _ \<Rightarrow> resolve l fs (cur @ [p]) ps)))"
  by pat_completeness auto
termination
  by (relation "measures [\<lambda>(l, fs, cur, ps). l, \<lambda>(l, fs, cur, ps). length ps]") auto

definition stat :: "node \<Rightarrow> path \<Rightarrow> node option" where
  "stat fs p = (case resolve 40 fs [] p of None \<Rightarrow> None | Some q \<Rightarrow> lookup fs q)"

text \<open>\<open>lstat\<close>: the last component is not followed.\<close>

definition lstat :: "node \<Rightarrow> path \<Rightarrow> node option" where
  "lstat fs p =
     (if p = [] then Some fs
      else (case resolve 40 fs [] (butlast p) of None \<Rightarrow> None | Some q \<Rightarrow> lookup fs (q @ [last p])))"

definition fs_is_file :: "node \<Rightarrow> path \<Rightarrow> bool" where
  "fs_is_file fs p = (case stat fs p of Some (File _) \<Rightarrow> True | _ \<Rightarrow> False)"

definition fs_is_dir :: "node \<Rightarrow> path \<Rightarrow> bool" where
  "fs_is_dir fs p = (case stat fs p of Some (Dir _) \<Rightarrow> True | _ \<Rightarrow> False)"

definition fs_is_symlink :: "node \<Rightarrow> path \<Rightarrow> bool" where
  "fs_is_symlink fs p = (case lstat fs p of Some (Link _) \<Rightarrow> True | _ \<Rightarrow> False)"

definition fs_lexists :: "node \<Rightarrow> path \<Rightarrow> bool" where
  "fs_lexists fs p = (lstat fs p \<noteq> None)"

definition fs_read :: "node \<Rightarrow> path \<Rightarrow> string res" where
  "fs_read fs p =
     (case stat fs p of
        Some (File c) \<Rightarrow> Inr c
      | Some _ \<Rightarrow> Inl (Exn OSError [])
      | None \<Rightarrow> Inl (Exn FileNotFoundError []))"

text \<open>\<open>stat().st_size\<close>: the length of a regular file; what other objects report is not used.\<close>

definition fs_size :: "node \<Rightarrow> path \<Rightarrow> nat res" where
  "fs_size fs p =
     (case stat fs p of
        Some (File c) \<Rightarrow> Inr (length c)
      | Some _ \<Rightarrow> Inr 0
      | None \<Rightarrow> Inl (Exn FileNotFoundError []))"

section \<open>Well-formed trees\<close>

text \<open>What a POSIX directory guarantees of the names of its entries.\<close>

definition entry_name :: "string \<Rightarrow> bool" where
  "entry_name n = (n \<noteq> [] \<and> n \<noteq> ''.'' \<and> n \<noteq> ''..'' \<and> CHR ''/'' \<notin> set n)"

fun wf_tree :: "node \<Rightarrow> bool" where
  "wf_tree (Dir es) = (distinct (map fst es) \<and> list_all (\<lambda>(n, c). entry_name n \<and> wf_tree c) es)"
| "wf_tree _ = True"

text \<open>No symbolic link and no special file in the tree.\<close>

fun plain_tree :: "node \<Rightarrow> bool" where
  "plain_tree (File _) = True"
| "plain_tree (Dir es) = list_all (\<lambda>(n, c). plain_tree c) es"
| "plain_tree _ = False"

text \<open>The regular files of a tree with their paths.\<close>

fun tree_files :: "node \<Rightarrow> (path \<times> string) list" where
  "tree_files (File c) = [([], c)]"
| "tree_files (Dir es) = concat (map (\<lambda>(n, c). map (\<lambda>(p, s). (n # p, s)) (tree_files c)) es)"
| "tree_files _ = []"

lemma lookup_append:
  "lookup n (a @ b) = (case lookup n a of None \<Rightarrow> None | Some c \<Rightarrow> lookup c b)"
  by (induction n a rule: lookup.induct) (auto split: option.splits)

lemma wf_tree_lookup: "wf_tree n \<Longrightarrow> lookup n p = Some c \<Longrightarrow> wf_tree c"
  by (induction n p rule: lookup.induct) (auto simp: list_all_iff split: option.splits dest!: map_of_SomeD)

lemma plain_tree_lookup: "plain_tree n \<Longrightarrow> lookup n p = Some c \<Longrightarrow> plain_tree c"
  by (induction n p rule: lookup.induct) (auto simp: list_all_iff split: option.splits dest!: map_of_SomeD)

lemma lookup_names: "wf_tree n \<Longrightarrow> lookup n p = Some c \<Longrightarrow> list_all entry_name p"
  by (induction n p rule: lookup.induct) (auto simp: list_all_iff split: option.splits dest!: map_of_SomeD)

lemma lookup_leaf: "\<not> is_Dir n \<Longrightarrow> lookup n p = (if p = [] then Some n else None)"
  by (cases p; cases n) auto

lemma lookup_Dir_Some:
  "lookup (Dir es) (x # q) = Some n \<longleftrightarrow> (\<exists>c. map_of es x = Some c \<and> lookup c q = Some n)"
  by (auto split: option.splits)

lemma tree_files_lookup:
  "wf_tree n \<Longrightarrow> (p, s) \<in> set (tree_files n) \<longleftrightarrow> lookup n p = Some (File s)"
proof (induction n arbitrary: p)
  case (Dir es)
  show ?case
  proof (cases p)
    case Nil
    then show ?thesis by auto
  next
    case (Cons x q)
    have "(p, s) \<in> set (tree_files (Dir es)) \<longleftrightarrow> (\<exists>c. (x, c) \<in> set es \<and> (q, s) \<in> set (tree_files c))"
      by (force simp: Cons)
    also have "\<dots> \<longleftrightarrow> (\<exists>c. (x, c) \<in> set es \<and> lookup c q = Some (File s))"
      using Dir by (fastforce simp: list_all_iff)
    also have "\<dots> \<longleftrightarrow> lookup (Dir es) p = Some (File s)"
      using Dir.prems map_of_eq_Some_iff [of es x] by (simp add: Cons lookup_Dir_Some del: lookup.simps)
    finally show ?thesis .
  qed
qed (auto simp: lookup_leaf)

text \<open>A canonical path: every prefix exists and is not a link.\<close>

definition canonical :: "node \<Rightarrow> path \<Rightarrow> bool" where
  "canonical fs p \<longleftrightarrow>
     ''..'' \<notin> set p \<and> (\<forall>k \<le> length p. \<exists>n. lookup fs (take k p) = Some n \<and> \<not> is_Link n)"

lemma canonical_lookup: "canonical fs p \<Longrightarrow> \<exists>n. lookup fs p = Some n \<and> \<not> is_Link n"
  by (auto simp: canonical_def)

lemma canonical_append1:
  "canonical fs (cur @ [p]) \<longleftrightarrow>
     canonical fs cur \<and> p \<noteq> ''..'' \<and> (\<exists>n. lookup fs (cur @ [p]) = Some n \<and> \<not> is_Link n)"
  by (auto simp: canonical_def le_Suc_eq)

lemma canonical_prefix: "canonical fs (p @ q) \<Longrightarrow> canonical fs p"
  by (induction q rule: rev_induct) (auto simp: canonical_append1 simp flip: append_assoc)

lemma canonical_butlast: "canonical fs p \<Longrightarrow> canonical fs (butlast p)"
  by (cases p rule: rev_cases) (auto simp: canonical_append1)

lemma resolve_canonical: "canonical fs (cur @ ps) \<Longrightarrow> resolve l fs cur ps = Some (cur @ ps)"
proof (induction ps arbitrary: cur)
  case Nil
  then show ?case using canonical_lookup by fastforce
next
  case (Cons p ps)
  then have "canonical fs ((cur @ [p]) @ ps)" by simp
  from canonical_prefix [OF this] Cons.IH [OF this] show ?case
    by (auto simp: canonical_append1 split: node.splits)
qed

lemma canonical_Nil: "\<not> is_Link fs \<Longrightarrow> canonical fs []"
  by (simp add: canonical_def)

lemma resolve_result:
  "canonical fs cur \<Longrightarrow> resolve l fs cur ps = Some q \<Longrightarrow> canonical fs q"
proof (induction l fs cur ps rule: resolve.induct)
  case (1 l fs cur)
  then show ?case by (auto split: if_splits)
next
  case (2 l fs cur p ps)
  show ?case
  proof (cases "p = ''..''")
    case True
    with 2 show ?thesis by (auto simp: canonical_butlast)
  next
    case False
    with "2.prems"(2) obtain n where n: "lookup fs (cur @ [p]) = Some n" by (auto split: option.splits)
    have nil: "canonical fs []" using "2.prems"(1) by (metis append_Nil canonical_prefix)
    show ?thesis
    proof (cases n)
      case (Link t)
      with "2.prems"(2) False n obtain k where "l = Suc k"
        "resolve k fs (if path_is_absolute t then [] else cur) (link_parts t @ ps) = Some q"
        by (auto split: nat.splits)
      with "2.IH"(4) [OF False n Link] nil "2.prems"(1) show ?thesis by (auto split: if_splits)
    qed (use 2 False n in \<open>auto simp: canonical_append1\<close>)
  qed
qed

lemma stat_canonical: "canonical fs p \<Longrightarrow> stat fs p = lookup fs p"
  using resolve_canonical [of fs "[]" p] by (simp add: stat_def)

lemma canonical_below:
  assumes "canonical fs p" "lookup fs p = Some v" "plain_tree v" "wf_tree v" "lookup v q = Some n"
  shows "canonical fs (p @ q)"
  using assms(5)
proof (induction q arbitrary: n rule: rev_induct)
  case Nil
  with assms(1) show ?case by simp
next
  case (snoc x q)
  from snoc.prems obtain m where m: "lookup v q = Some m" by (auto simp: lookup_append split: option.splits)
  have "list_all entry_name (q @ [x])" by (rule lookup_names [OF assms(4) snoc.prems])
  moreover have "\<not> is_Link n" using plain_tree_lookup [OF assms(3) snoc.prems] by (cases n) auto
  ultimately show ?case
    using snoc.IH [OF m] snoc.prems assms(2) canonical_append1 [of fs "p @ q" x]
    by (simp add: lookup_append entry_name_def)
qed

end
