(* ===== verification/Model_Mount.thy ===== *)
theory Model_Mount
  imports File_Tree
begin

text \<open>
  \<open>images/sglang/wait_for_model.py\<close>: the wrapper that starts an inference server only after every
  byte of the mounted model matches the manifest that the release pins.

  One attempt reads one snapshot of the world: the file system, the text of
  \<open>/proc/self/mountinfo\<close>, the outcome of the write probe, and the order in which the hashing
  threads finish.  Progress messages on standard error are not modelled, nor are directories
  that cannot be listed.
\<close>

section \<open>Arguments and world\<close>

type_synonym inventory = "(string \<times> (string \<times> int)) list"

record mount_args =
  arg_path :: path
  timeout_seconds :: int
  poll_seconds :: rat
  expected_revision :: string
  expected_repository :: string
  revision_metadata :: string
  expected_file :: "(string \<times> string) list"
  plain_cache :: bool
  gpu_metrics_port :: "int option"
  private_server_output :: bool
  command :: "string list"

datatype probe_result = ProbeOpened | ProbeErrno nat

record mount_world =
  w_fs :: node
  w_mountinfo :: "string res"
  w_probe :: probe_result
  w_completed :: "string list \<Rightarrow> string list"  \<comment> \<open>the order of \<open>as_completed\<close>\<close>

abbreviation mount_error :: "string \<Rightarrow> exn" where
  "mount_error m \<equiv> Exn ModelMountError m"

abbreviation mount_unavailable :: "string \<Rightarrow> exn" where
  "mount_unavailable m \<equiv> Exn MountUnavailable m"

definition hex_digest :: "string \<Rightarrow> bool" where
  "hex_digest d = (length d = 64 \<and> list_all is_hex d)"

section \<open>The mount table\<close>

definition decode_mount_path :: "string \<Rightarrow> string" where
  "decode_mount_path value =
     foldl (\<lambda>v (encoded, decoded). str_replace encoded decoded v) value
       [(backslash # ''040'', '' ''), (backslash # ''011'', [char_of (9 :: nat)]),
        (backslash # ''012'', [char_of (10 :: nat)]), (backslash # ''134'', [backslash])]"

type_synonym mount_entry = "string list \<times> string \<times> string \<times> string list"

definition mount_line :: "string \<Rightarrow> string \<Rightarrow> mount_entry option" where
  "mount_line target line =
     (let (left, separator, right) = str_partition '' - '' line;
          fields = split_ws left; after = split_ws right
      in if separator = [] \<or> length fields < 6 \<or> length after < 3 \<or>
            decode_mount_path (fields ! 4) \<noteq> target
         then None
         else Some (split_char (CHR '','') (fields ! 5), after ! 0, after ! 1,
                    split_char (CHR '','') (after ! 2)))"

definition mount_record :: "path \<Rightarrow> string res \<Rightarrow> mount_entry option res" where
  "mount_record p mountinfo =
     bnd (bnd mountinfo decode_utf8) (\<lambda>t.
       Inr (foldl (\<lambda>active line. case mount_line (path_str p) line of None \<Rightarrow> active | Some r \<Rightarrow> Some r)
              None (splitlines t)))"

section \<open>The manifest\<close>

definition sha256_file :: "node \<Rightarrow> path \<Rightarrow> string res" where
  "sha256_file fs p = bnd (fs_read fs p) (\<lambda>c. Inr (sha256_hex c))"

definition parse_expected_file :: "string \<Rightarrow> (string \<times> string) res" where
  "parse_expected_file value =
     (let (nm, separator, digest) = str_partition ''='' value in
      if separator = [] \<or> nm = [] \<or> startswith nm ''/'' \<or> ''..'' \<in> set (path_parts nm)
      then Inl (Exn ArgumentTypeError ''an expected file must use RELATIVE_PATH=SHA256'')
      else if \<not> hex_digest digest
      then Inl (Exn ArgumentTypeError ''an expected file needs a lowercase SHA-256 value'')
      else Inr (nm, digest))"

definition manifest_keys :: "string list" where
  "manifest_keys = [''canonical_local_manifest_sha256'', ''classification'', ''files'', ''immutable_ref'',
     ''immutable_revision'', ''repository'', ''schema'', ''source_remote_inventory_sha256'']"

definition manifest_file_keys :: "string list" where
  "manifest_file_keys = [''content_sha256'', ''path'', ''size'']"

definition digest_value :: "pyv \<Rightarrow> bool" where
  "digest_value v = (case v of PStr d \<Rightarrow> hex_digest d | _ \<Rightarrow> False)"

definition inventory_item :: "inventory \<Rightarrow> pyv \<Rightarrow> inventory res" where
  "inventory_item listed item =
     (let bad = mount_error ''the model revision manifest has an invalid file record'' in
      case item of
        PDict d \<Rightarrow>
          if \<not> same_keys (dkeys d) manifest_file_keys then Inl bad
          else bnd (jidx item ''path'') (\<lambda>nm.
               bnd (jidx item ''content_sha256'') (\<lambda>digest.
               bnd (jidx item ''size'') (\<lambda>size.
                 case nm of
                   PStr n \<Rightarrow>
                     if n = [] \<or> startswith n ''/'' \<or> ''..'' \<in> set (path_parts n) \<or>
                        n \<in> set (dkeys listed) \<or> \<not> isinstance_int size \<or> int_value size < 1 \<or>
                        \<not> digest_value digest
                     then Inl bad
                     else Inr (dset n (py_str digest, int_value size) listed)
                 | _ \<Rightarrow> Inl bad)))
      | _ \<Rightarrow> Inl bad)"

definition check_expected :: "node \<Rightarrow> path \<Rightarrow> string \<Rightarrow> inventory \<Rightarrow> string \<times> string \<Rightarrow> unit res" where
  "check_expected fs p metadata_name listed = (\<lambda>(nm, digest).
     if nm = metadata_name then Inr ()
     else bnd (fs_size fs (join_path p nm)) (\<lambda>size.
       raise_if (map_of listed nm \<noteq> Some (digest, int size))
         (mount_error ''the model revision manifest file inventory does not match the release'')))"

definition check_manifest_header :: "pyv \<Rightarrow> string \<Rightarrow> string \<Rightarrow> unit res" where
  "check_manifest_header value repository expected =
     bnd (raise_if (case value of PDict d \<Rightarrow> \<not> same_keys (dkeys d) manifest_keys | _ \<Rightarrow> True)
            (mount_error ''the model revision manifest has invalid fields'')) (\<lambda>_.
     bnd (jidx value ''schema'') (\<lambda>schema.
     bnd (raise_if (\<not> py_eq schema (PStr ''confidential-benchmark/local-model-byte-manifest/v1''))
            (mount_error ''the model revision manifest has an invalid schema'')) (\<lambda>_.
     bnd (jidx value ''classification'') (\<lambda>classification.
     bnd (raise_if (\<not> py_eq classification (PStr ''verified_local_snapshot_bytes''))
            (mount_error ''the model revision manifest has an invalid classification'')) (\<lambda>_.
     bnd (jidx value ''repository'') (\<lambda>repo.
     bnd (jidx value ''immutable_revision'') (\<lambda>revision.
     bnd (raise_if (\<not> py_eq repo (PStr repository) \<or> \<not> py_eq revision (PStr expected))
            (mount_error ''the model revision manifest does not match the release'')) (\<lambda>_.
     bnd (jidx value ''immutable_ref'') (\<lambda>ref.
     bnd (raise_if (\<not> py_eq ref (PStr (repository @ ''@'' @ expected)))
            (mount_error ''the model revision manifest reference does not match the release'')) (\<lambda>_.
     bnd (jidx value ''files'') (\<lambda>files.
     bnd (raise_if (\<not> is_list files \<or> \<not> truthy files)
            (mount_error ''the model revision manifest has no file inventory'')) (\<lambda>_.
       for_each (\<lambda>k. bnd (jidx value k) (\<lambda>v. raise_if (\<not> digest_value v)
           (mount_error ''the model revision manifest has an invalid digest'')))
         [''canonical_local_manifest_sha256'', ''source_remote_inventory_sha256'']))))))))))))"

definition verify_revision ::
  "node \<Rightarrow> path \<Rightarrow> string \<Rightarrow> string \<Rightarrow> string \<Rightarrow> (string \<times> string) list \<Rightarrow> inventory res" where
  "verify_revision fs p metadata_name repository expected expected_files =
     bnd (try_except (bnd (bnd (fs_read fs (join_path p metadata_name)) decode_utf8) loads)
            [OSError, JSONDecodeError, UnicodeError]
            (\<lambda>_. Inl (mount_error ''the model revision manifest is invalid''))) (\<lambda>value.
     bnd (check_manifest_header value repository expected) (\<lambda>_.
     bnd (jidx value ''files'') (\<lambda>files. bnd (jiter files) (\<lambda>items.
     bnd (foldM inventory_item [] items) (\<lambda>listed.
     bnd (for_each (check_expected fs p metadata_name listed) expected_files) (\<lambda>_.
     bnd (raise_if (metadata_name \<in> set (dkeys listed))
            (mount_error ''the model revision manifest lists itself'')) (\<lambda>_. Inr listed)))))))"

section \<open>The volume\<close>

text \<open>
  One directory of \<open>os.walk\<close>: its directories (a link to a directory counts as one), its other
  entries, then the directories below in order.
\<close>

definition walk_dir_check :: "node \<Rightarrow> path \<Rightarrow> path \<Rightarrow> (string \<times> node) list \<Rightarrow> string list res" where
  "walk_dir_check fs base rel es =
     (let listed_dir = (\<lambda>(n, c). is_Dir c \<or> (is_Link c \<and> fs_is_dir fs (base @ rel @ [n]))) in
      bnd (for_each (\<lambda>(n, c). raise_if (is_Link c)
             (mount_error (''the model volume contains a symbolic link: '' @ str_join ''/'' (rel @ [n]))))
           (filter listed_dir es)) (\<lambda>_.
      mapM (\<lambda>(n, c). if is_Link c \<or> \<not> is_File c
              then Inl (mount_error (''the model volume contains a non-regular file: '' @ str_join ''/'' (rel @ [n])))
              else Inr (str_join ''/'' (rel @ [n])))
           (filter (\<lambda>e. \<not> listed_dir e) es)))"

fun walk_tree :: "node \<Rightarrow> path \<Rightarrow> path \<Rightarrow> node \<Rightarrow> string list res" where
  "walk_tree fs base rel (Dir es) =
     bnd (walk_dir_check fs base rel es) (\<lambda>files.
     bnd (mapM (\<lambda>(n, c). walk_tree fs base (rel @ [n]) c) es) (\<lambda>below.
       Inr (files @ concat below)))"
| "walk_tree fs base rel _ = Inr []"

definition list_model_files :: "node \<Rightarrow> path \<Rightarrow> string list res" where
  "list_model_files fs p =
     (case stat fs p of None \<Rightarrow> Inr [] | Some n \<Rightarrow> walk_tree fs p [] n)"

definition check_size :: "node \<Rightarrow> path \<Rightarrow> string \<times> (string \<times> int) \<Rightarrow> unit res" where
  "check_size fs p = (\<lambda>(nm, _, size).
     bnd (fs_size fs (join_path p nm)) (\<lambda>n.
       raise_if (int n \<noteq> size) (mount_error (''the model file has the wrong size: '' @ nm))))"

definition check_hash :: "node \<Rightarrow> path \<Rightarrow> inventory \<Rightarrow> string \<Rightarrow> unit res" where
  "check_hash fs p listed nm =
     bnd (sha256_file fs (join_path p nm)) (\<lambda>h.
       raise_if (map_option fst (map_of listed nm) \<noteq> Some h)
         (mount_error (''the model file has the wrong digest: '' @ nm)))"

definition verify_every_file ::
  "node \<Rightarrow> (string list \<Rightarrow> string list) \<Rightarrow> path \<Rightarrow> string \<Rightarrow> inventory \<Rightarrow> unit res" where
  "verify_every_file fs completed p metadata_name listed =
     bnd (list_model_files fs p) (\<lambda>found.
       let expected = dkeys listed @ [metadata_name];
           missing = sort (filter (\<lambda>n. n \<notin> set found) expected);
           extra = sort (filter (\<lambda>n. n \<notin> set expected) found)
       in if missing \<noteq> []
          then Inl (mount_error (''the model volume is missing a manifest file: '' @ hd missing))
          else if extra \<noteq> []
          then Inl (mount_error (''the model volume contains a file the manifest does not list: '' @ hd extra))
          else bnd (for_each (check_size fs p) listed) (\<lambda>_.
            for_each (check_hash fs p listed)
              (completed (sort_key (\<lambda>nm. - snd (the (map_of listed nm))) (dkeys listed)))))"

definition verify_index :: "node \<Rightarrow> path \<Rightarrow> unit res" where
  "verify_index fs p =
     (let index = p @ [''model.safetensors.index.json''];
          single = p @ [''model.safetensors''] in
      if \<not> fs_lexists fs index
      then raise_ifM (orsM [Inr (fs_is_symlink fs single), Inr (\<not> fs_is_file fs single),
                            bnd (fs_size fs single) (\<lambda>n. Inr (n = 0))])
             (mount_error ''the model has no index and no single model.safetensors file'')
      else bnd (try_except (bnd (bnd (bnd (fs_read fs index) decode_utf8) loads) (\<lambda>v. jidx v ''weight_map''))
                  [OSError, JSONDecodeError, KeyError, TypeError]
                  (\<lambda>_. Inl (mount_error ''the model index is invalid''))) (\<lambda>weight_map.
           bnd (raise_if (\<not> is_dict weight_map \<or> \<not> truthy weight_map)
                  (mount_error ''the model index has no weights'')) (\<lambda>_.
           bnd (jvalues weight_map) (\<lambda>vs.
           bnd (py_set vs) (\<lambda>shards.
           bnd (raise_if (list_ex (\<lambda>s. case s of PStr n \<Rightarrow> path_name n \<noteq> n | _ \<Rightarrow> True) shards)
                  (mount_error ''the model index contains an invalid shard name'')) (\<lambda>_.
           bnd (mapM str_method shards) (\<lambda>names.
           bnd (filterM (\<lambda>n. orsM [Inr (\<not> fs_is_file fs (join_path p n)),
                  bnd (fs_size fs (join_path p n)) (\<lambda>k. Inr (k = 0))]) (sort names)) (\<lambda>missing.
             raise_if (missing \<noteq> [])
               (mount_error (''the model index references a missing shard: '' @ hd missing))))))))))"

text \<open>\<open>EROFS\<close>, \<open>EACCES\<close> and \<open>EPERM\<close> refuse the probe; any other outcome is an error.\<close>

definition verify_no_write :: "probe_result \<Rightarrow> unit res" where
  "verify_no_write r =
     (case r of
        ProbeErrno e \<Rightarrow>
          raise_if (e \<notin> {30, 13, 1}) (mount_error ''the write probe failed unexpectedly'')
      | ProbeOpened \<Rightarrow> Inl (mount_error ''the model mount permits writes''))"

text \<open>\<open>Path.resolve()\<close>: a path that does not exist stays as it is.\<close>

definition path_resolve :: "node \<Rightarrow> path \<Rightarrow> path" where
  "path_resolve fs p = (case resolve 40 fs [] p of None \<Rightarrow> p | Some q \<Rightarrow> q)"

definition check_required :: "node \<Rightarrow> path \<Rightarrow> string \<times> string \<Rightarrow> unit res" where
  "check_required fs p = (\<lambda>(nm, expected).
     if \<not> fs_is_file fs (join_path p nm)
     then Inl (mount_error (''the required model file is missing: '' @ nm))
     else bnd (sha256_file fs (join_path p nm)) (\<lambda>h.
       raise_if (h \<noteq> expected) (mount_error (''the required model file has the wrong digest: '' @ nm))))"

definition verify_once :: "mount_args \<Rightarrow> mount_world \<Rightarrow> unit res" where
  "verify_once args w =
     (let fs = w_fs w; p = path_resolve fs (arg_path args) in
      bnd (mount_record p (w_mountinfo w)) (\<lambda>record.
      bnd (case record of
             None \<Rightarrow> Inl (mount_unavailable ''the model path is not a mount point'')
           | Some (_, filesystem, source, _) \<Rightarrow>
               raise_if (\<not> plain_cache args \<and> \<not> contains ''c8s-verity-'' source)
                 (mount_unavailable (''the c8s dm-verity mapping is not attached yet (filesystem='' @
                    filesystem @ '', source='' @ source @ '')''))) (\<lambda>_.
      bnd (verify_no_write (w_probe w)) (\<lambda>_.
      bnd (for_each (check_required fs p) (expected_file args)) (\<lambda>_.
      let expected_files = dupdate [] (expected_file args) in
      bnd (raise_if (revision_metadata args \<notin> set (dkeys expected_files))
             (mount_error ''the release does not pin the model byte manifest digest'')) (\<lambda>_.
      bnd (verify_revision fs p (revision_metadata args) (expected_repository args)
             (expected_revision args) expected_files) (\<lambda>listed.
      bnd (verify_index fs p) (\<lambda>_.
        verify_every_file fs (w_completed w) p (revision_metadata args) listed))))))))"

section \<open>The wrapper\<close>

text \<open>The checks of \<open>parse_args\<close> on the parsed options; an error ends the program with code 2.\<close>

definition check_args :: "mount_args \<Rightarrow> string option" where
  "check_args args =
     (if timeout_seconds args < 1 \<or> poll_seconds args \<le> 0
      then Some ''the timeout and poll interval must be positive''
      else if length (expected_revision args) \<noteq> 40 \<or> \<not> list_all is_hex (expected_revision args)
      then Some ''the expected revision must be a lowercase 40-character commit''
      else if expected_repository args = [] \<or> contains ''@'' (expected_repository args) \<or>
              startswith (expected_repository args) ''/''
      then Some ''the expected repository is invalid''
      else if length (expected_file args) < 3
      then Some ''at least three expected model files are required''
      else if (case gpu_metrics_port args of None \<Rightarrow> False | Some n \<Rightarrow> \<not> (1024 \<le> n \<and> n \<le> 65535))
      then Some ''the GPU metrics port must be between 1024 and 65535''
      else if command args = [] \<or> hd (command args) \<noteq> ''--'' \<or> length (command args) = 1
      then Some ''a command must follow --''
      else None)"

text \<open>The retry loop: attempt \<open>i\<close> and the clock reading after it.\<close>

datatype wait_outcome = Verified | Rejected string | Crashed exn

partial_function (option) wait_loop ::
  "(nat \<Rightarrow> unit res) \<Rightarrow> (nat \<Rightarrow> rat) \<Rightarrow> rat \<Rightarrow> nat \<Rightarrow> wait_outcome option" where
  "wait_loop attempt clock deadline i =
     (case attempt i of
        Inr _ \<Rightarrow> Some Verified
      | Inl e \<Rightarrow>
          if catches [MountUnavailable] e
          then (if clock i \<ge> deadline then Some (Rejected (''model-mount: timeout: '' @ msg e))
                else wait_loop attempt clock deadline (Suc i))
          else if catches [ModelMountError, OSError, UnicodeError] e
          then Some (Rejected (''model-mount: rejected: '' @ msg e))
          else Some (Crashed e))"

text \<open>
  \<open>main\<close> after the arguments: the exit code and the processes started, in order.  \<open>child_code\<close> is
  the exit code of the server; \<open>exporter_starts\<close> whether the metrics exporter could be started.
\<close>

definition exporter_command :: "int \<Rightarrow> string list" where
  "exporter_command port =
     [''/usr/local/bin/dcgm-exporter'', ''--collectors=/etc/dcgm-exporter/counters.csv'',
      ''--address=:'' @ str_of_int port]"

definition main_mount ::
  "nat \<Rightarrow> mount_args \<Rightarrow> (nat \<Rightarrow> mount_world) \<Rightarrow> (nat \<Rightarrow> rat) \<Rightarrow> rat \<Rightarrow> bool \<Rightarrow> int \<Rightarrow>
   (int \<times> string list list) res option" where
  "main_mount euid args worlds clock start exporter_starts child_code =
     (if euid = 0 then Some (Inr (1, []))
      else (case wait_loop (\<lambda>i. verify_once args (worlds i)) clock (start + of_int (timeout_seconds args)) 0 of
              None \<Rightarrow> None
            | Some (Rejected _) \<Rightarrow> Some (Inr (1, []))
            | Some (Crashed e) \<Rightarrow> Some (Inl e)
            | Some Verified \<Rightarrow>
                Some (Inr (child_code,
                  (case gpu_metrics_port args of
                     None \<Rightarrow> []
                   | Some port \<Rightarrow> if exporter_starts then [exporter_command port] else []) @
                  [tl (command args)]))))"

text \<open>The signal handler of \<open>supervise\<close>: the signals it passes to the child.\<close>

definition forward :: "bool \<Rightarrow> int \<Rightarrow> int list" where
  "forward child_running signum = (if child_running then [signum] else [])"

section \<open>Names and paths\<close>

lemma split_char_no: "c \<notin> set x \<Longrightarrow> split_char c x = [x]"
  by (induction x) auto

lemma split_char_sep: "c \<notin> set x \<Longrightarrow> split_char c (x @ c # s) = x # split_char c s"
  by (induction x) auto

lemma split_join: "xs \<noteq> [] \<Longrightarrow> (\<forall>x \<in> set xs. c \<notin> set x) \<Longrightarrow> split_char c (str_join [c] xs) = xs"
  by (induction "[c]" xs rule: str_join.induct) (auto simp: split_char_no split_char_sep)

lemma join_entry_names:
  assumes "list_all entry_name q" "q \<noteq> []"
  shows "\<not> startswith (str_join ''/'' q) ''/''" "path_parts (str_join ''/'' q) = q" "str_join ''/'' q \<noteq> []"
proof -
  from assms obtain c x r where q: "q = (c # x) # r" "c \<noteq> CHR ''/''"
    by (cases q; cases "hd q") (auto simp: entry_name_def)
  then obtain t where t: "str_join ''/'' q = c # t" by (cases r) auto
  show abs: "\<not> startswith (str_join ''/'' q) ''/''" "str_join ''/'' q \<noteq> []"
    using t q by (auto simp: startswith_def)
  have "split_char (CHR ''/'') (str_join ''/'' q) = q"
    using assms by (intro split_join) (auto simp: list_all_iff entry_name_def)
  moreover have "\<not> startswith (str_join ''/'' q) ''//''" using t q by (auto simp: startswith_def)
  moreover have "filter (\<lambda>p. p \<noteq> [] \<and> p \<noteq> ''.'') q = q"
    using assms by (auto simp: filter_id_conv list_all_iff entry_name_def)
  ultimately show "path_parts (str_join ''/'' q) = q" using abs by (simp add: path_parts_def)
qed

lemma join_path_names:
  "list_all entry_name q \<Longrightarrow> q \<noteq> [] \<Longrightarrow> join_path p (str_join ''/'' q) = p @ q"
  by (simp add: join_path_def path_is_absolute_def join_entry_names)

section \<open>The walk\<close>

lemma walk_dir_check_ok:
  assumes "walk_dir_check fs base rel es = Inr files"
  shows "(\<forall>(n, c) \<in> set es. is_Dir c \<or> is_File c) \<and>
    set files = {str_join ''/'' (rel @ [n]) | n c. (n, c) \<in> set es \<and> is_File c}"
proof -
  let ?dir = "\<lambda>(n, c). is_Dir c \<or> (is_Link c \<and> fs_is_dir fs (base @ rel @ [n]))"
  let ?name = "\<lambda>(n, c). if is_Link c \<or> \<not> is_File c
    then Inl (mount_error (''the model volume contains a non-regular file: '' @ str_join ''/'' (rel @ [n])))
    else Inr (str_join ''/'' (rel @ [n]))"
  from assms have links: "\<And>n c. (n, c) \<in> set es \<Longrightarrow> ?dir (n, c) \<Longrightarrow> \<not> is_Link c"
    and files: "mapM ?name (filter (\<lambda>e. \<not> ?dir e) es) = Inr files"
    by (fastforce simp: walk_dir_check_def Let_def for_each_eq_Inr raise_if_eq_Inr elim!: bndE)+
  have reg: "is_File c \<and> str_join ''/'' (rel @ [n]) \<in> set files" if "(n, c) \<in> set es" "\<not> ?dir (n, c)" for n c
    using mapM_member [OF files, of "(n, c)"] that by (auto split: if_splits)
  have only_reg: "\<exists>n c. (n, c) \<in> set es \<and> is_File c \<and> y = str_join ''/'' (rel @ [n])" if "y \<in> set files" for y
    using mapM_member_rev [OF files that] by (auto split: if_splits)
  have kind: "is_Dir c \<or> is_File c" if "(n, c) \<in> set es" for n c
    using reg links that by (cases c) fastforce+
  have "str_join ''/'' (rel @ [n]) \<in> set files" if "(n, c) \<in> set es" "is_File c" for n c
    using reg [OF that(1)] links [OF that(1)] that(2) by (cases c) auto
  with only_reg have "set files = {str_join ''/'' (rel @ [n]) | n c. (n, c) \<in> set es \<and> is_File c}"
    by blast
  with kind show ?thesis by blast
qed

lemma walk_tree_ok:
  assumes "walk_tree fs base rel (Dir es) = Inr files"
  shows "plain_tree (Dir es) \<and>
    set files = {str_join ''/'' (rel @ q) | q s. (q, s) \<in> set (tree_files (Dir es))}"
  using assms
proof (induction "Dir es" arbitrary: es rel files rule: measure_induct_rule [of size])
  case (less es)
  from less.prems obtain here below where here: "walk_dir_check fs base rel es = Inr here"
    and below: "mapM (\<lambda>(n, c). walk_tree fs base (rel @ [n]) c) es = Inr below"
    and files: "files = here @ concat below"
    by (auto elim!: bndE)
  note ok = walk_dir_check_ok [OF here]
  have sub: "plain_tree c \<and> (\<exists>ys \<in> set below. walk_tree fs base (rel @ [n]) c = Inr ys \<and>
      set ys = {str_join ''/'' (rel @ n # q) | q s. (q, s) \<in> set (tree_files c)})"
    if mem: "(n, c) \<in> set es" and dir: "is_Dir c" for n c
  proof -
    obtain cs where c: "c = Dir cs" using dir by (cases c) auto
    from mapM_member [OF below mem] obtain ys where ys: "ys \<in> set below" "walk_tree fs base (rel @ [n]) c = Inr ys"
      by auto
    have "size (Dir cs) < size (Dir es)"
      using mem c by (induction es) auto
    from less.hyps [OF this, of "rel @ [n]" ys] ys c show ?thesis by auto
  qed
  have plain: "plain_tree (Dir es)" using ok sub by (fastforce simp: list_all_iff is_File_def)
  have members: "(q, s) \<in> set (tree_files (Dir es)) \<longleftrightarrow>
      (\<exists>n c r. q = n # r \<and> (n, c) \<in> set es \<and> (r, s) \<in> set (tree_files c))" for q s
    by force
  have "x \<in> set files \<longleftrightarrow> (\<exists>q s. x = str_join ''/'' (rel @ q) \<and> (q, s) \<in> set (tree_files (Dir es)))" for x
  proof
    assume "x \<in> set files"
    then consider "x \<in> set here" | ys where "ys \<in> set below" "x \<in> set ys" using files by auto
    then show "\<exists>q s. x = str_join ''/'' (rel @ q) \<and> (q, s) \<in> set (tree_files (Dir es))"
    proof cases
      case 1
      with ok obtain n s where "x = str_join ''/'' (rel @ [n])" "(n, File s) \<in> set es"
        by (auto simp: is_File_def)
      then show ?thesis unfolding members by (metis list.set_intros(1) tree_files.simps(1))
    next
      case (2 ys)
      from mapM_member_rev [OF below 2(1)] obtain n c where "(n, c) \<in> set es" "walk_tree fs base (rel @ [n]) c = Inr ys"
        by auto
      moreover from this ok have "is_Dir c" using 2(2) by (cases c) auto
      ultimately show ?thesis unfolding members using sub 2(2) by fastforce
    qed
  next
    assume "\<exists>q s. x = str_join ''/'' (rel @ q) \<and> (q, s) \<in> set (tree_files (Dir es))"
    then obtain n c r s where x: "x = str_join ''/'' (rel @ n # r)" "(n, c) \<in> set es" "(r, s) \<in> set (tree_files c)"
      unfolding members by blast
    show "x \<in> set files"
    proof (cases "is_Dir c")
      case True
      from sub [OF x(2) True] x show ?thesis by (auto simp: files)
    next
      case False
      with ok x(2) have f: "is_File c" by blast
      then have "r = []" using x(3) by (cases c) auto
      with f x(1,2) ok have "x \<in> set here" by blast
      then show ?thesis by (simp add: files)
    qed
  qed
  with plain show ?case by blast
qed

section \<open>What a passed check shows\<close>

text \<open>
  A volume holds exactly the manifest: only directories and regular files, the files are the
  listed ones and the manifest itself, and each listed file has the listed size and SHA-256.
\<close>

definition volume_holds :: "node \<Rightarrow> string \<Rightarrow> inventory \<Rightarrow> bool" where
  "volume_holds vol metadata_name listed \<longleftrightarrow>
     plain_tree vol \<and>
     {str_join ''/'' q | q s. (q, s) \<in> set (tree_files vol)} = insert metadata_name (fst ` set listed) \<and>
     (\<forall>(q, s) \<in> set (tree_files vol). str_join ''/'' q \<noteq> metadata_name \<longrightarrow>
        map_of listed (str_join ''/'' q) = Some (sha256_hex s, int (length s)))"

definition completes_all :: "(string list \<Rightarrow> string list) \<Rightarrow> bool" where
  "completes_all completed \<longleftrightarrow> (\<forall>xs. set (completed xs) = set xs)"

lemma tree_file_path:
  assumes "wf_tree (Dir es)" "(q, s) \<in> set (tree_files (Dir es))"
  shows "lookup (Dir es) q = Some (File s) \<and> q \<noteq> [] \<and> list_all entry_name q"
  using assms tree_files_lookup [OF assms(1)] lookup_names [OF assms(1)] by fastforce

lemma tree_file_stat:
  assumes "wf_tree fs" "canonical fs p" "lookup fs p = Some (Dir es)" "plain_tree (Dir es)"
    and "(q, s) \<in> set (tree_files (Dir es))"
  shows "stat fs (join_path p (str_join ''/'' q)) = Some (File s)"
proof -
  have wf: "wf_tree (Dir es)" by (rule wf_tree_lookup [OF assms(1,3)])
  note q = tree_file_path [OF wf assms(5)]
  then have "canonical fs (p @ q)" by (intro canonical_below [OF assms(2,3,4) wf]) blast
  then show ?thesis using q assms(3) by (simp add: join_path_names stat_canonical lookup_append)
qed

lemma sort_eq_Nil_iff: "sort xs = [] \<longleftrightarrow> xs = []"
  by (metis length_0_conv length_sort)

lemma verify_every_file_ok:
  assumes wf: "wf_tree fs" and canon: "canonical fs p" and all: "completes_all completed"
    and ok: "verify_every_file fs completed p metadata_name listed = Inr ()"
  shows "\<exists>es. lookup fs p = Some (Dir es) \<and> volume_holds (Dir es) metadata_name listed"
proof -
  from ok obtain found where found: "list_model_files fs p = Inr found"
    and sub: "metadata_name \<in> set found" "\<forall>e \<in> set listed. fst e \<in> set found"
      "\<forall>x \<in> set found. x = metadata_name \<or> x \<in> fst ` set listed"
    and sizes: "for_each (check_size fs p) listed = Inr ()"
    and hashes: "for_each (check_hash fs p listed) (completed (sort_key (\<lambda>nm. - snd (the (map_of listed nm))) (dkeys listed))) = Inr ()"
    by (auto simp: verify_every_file_def Let_def dkeys_def filter_empty_conv sort_eq_Nil_iff
        elim!: bndE split: if_splits)
  from sub have same: "set found = insert metadata_name (fst ` set listed)" by auto
  then have "found \<noteq> []" by auto
  obtain n where n: "lookup fs p = Some n" using canonical_lookup [OF canon] by blast
  with found stat_canonical [OF canon] have "walk_tree fs p [] n = Inr found"
    by (simp add: list_model_files_def)
  with \<open>found \<noteq> []\<close> obtain es where "n = Dir es" and walk: "walk_tree fs p [] (Dir es) = Inr found"
    by (cases n) auto
  with n have es: "lookup fs p = Some (Dir es)" by simp
  from walk_tree_ok [OF walk] have plain: "plain_tree (Dir es)"
    and names: "set found = {str_join ''/'' q | q s. (q, s) \<in> set (tree_files (Dir es))}" by auto
  have "map_of listed (str_join ''/'' q) = Some (sha256_hex s, int (length s))"
    if q: "(q, s) \<in> set (tree_files (Dir es))" "str_join ''/'' q \<noteq> metadata_name" for q s
  proof -
    let ?nm = "str_join ''/'' q"
    have stat: "stat fs (join_path p ?nm) = Some (File s)" by (rule tree_file_stat [OF wf canon es plain q(1)])
    have "?nm \<in> set found" using q(1) names by blast
    then have nm: "?nm \<in> set (dkeys listed)" using q(2) same by (simp add: dkeys_def)
    then obtain h size where hs: "map_of listed ?nm = Some (h, size)" 
      by (metis dkeys_def list.set_map map_of_eq_None_iff not_None_eq surj_pair)
    have "check_size fs p (?nm, h, size) = Inr ()"
      using sizes map_of_SomeD [OF hs] by (auto simp: for_each_eq_Inr)
    then have "size = int (length s)" using stat by (auto simp: check_size_def fs_size_def res_simps)
    moreover have "check_hash fs p listed ?nm = Inr ()"
      using hashes all nm by (auto simp: for_each_eq_Inr completes_all_def)
    then have "h = sha256_hex s" using stat hs by (auto simp: check_hash_def sha256_file_def fs_read_def res_simps)
    ultimately show ?thesis using hs by simp
  qed
  then have "volume_holds (Dir es) metadata_name listed"
    using plain names same unfolding volume_holds_def by blast
  with es show ?thesis by blast
qed

lemma resolve_None_append:
  "canonical fs cur \<Longrightarrow> resolve l fs cur ps = None \<Longrightarrow> resolve l fs cur (ps @ qs) = None"
proof (induction l fs cur ps rule: resolve.induct)
  case (1 l fs cur)
  then show ?case using canonical_lookup by fastforce
next
  case (2 l fs cur p ps)
  have nil: "canonical fs []" using "2.prems"(1) by (metis append_Nil canonical_prefix)
  show ?case
  proof (cases "p = ''..''")
    case True
    with 2 show ?thesis by (simp add: canonical_butlast)
  next
    case False
    show ?thesis
    proof (cases "lookup fs (cur @ [p])")
      case None
      with False show ?thesis by simp
    next
      case (Some n)
      show ?thesis
      proof (cases n)
        case (Link t)
        with "2.prems" "2.IH"(4) [OF False Some Link] False Some nil show ?thesis
          by (auto split: nat.splits)
      qed (use "2.prems" "2.IH" False Some in \<open>auto simp: canonical_append1\<close>)
    qed
  qed
qed

lemma path_resolve_canonical:
  assumes "\<not> is_Link fs" "stat fs (path_resolve fs p @ q) \<noteq> None"
  shows "canonical fs (path_resolve fs p)"
proof (cases "resolve 40 fs [] p")
  case None
  with assms resolve_None_append [OF canonical_Nil None] show ?thesis
    by (simp add: path_resolve_def stat_def)
next
  case (Some r)
  then show ?thesis using resolve_result [OF canonical_Nil [OF assms(1)] Some] by (simp add: path_resolve_def)
qed

text \<open>The record of one item of the manifest's file list.\<close>

fun item_record :: "pyv \<Rightarrow> string \<times> (string \<times> int)" where
  "item_record (PDict d) =
     (py_str (the (map_of d ''path'')), py_str (the (map_of d ''content_sha256'')),
      int_value (the (map_of d ''size'')))"
| "item_record _ = ([], [], 0)"

lemma inventory_item_ok:
  "inventory_item listed item = Inr listed' \<Longrightarrow>
     listed' = listed @ [item_record item] \<and> fst (item_record item) \<notin> set (dkeys listed)"
  by (auto simp: inventory_item_def Let_def res_simps dkeys_def dset_fresh elim!: bndE
      split: pyv.splits if_splits) force

lemma inventory_ok:
  "foldM inventory_item acc items = Inr listed \<Longrightarrow> distinct (dkeys acc) \<Longrightarrow>
     listed = acc @ map item_record items \<and> distinct (dkeys listed)"
proof (induction items arbitrary: acc)
  case (Cons item items)
  then obtain acc' where "inventory_item acc item = Inr acc'" "foldM inventory_item acc' items = Inr listed"
    by (auto elim!: bndE)
  moreover from inventory_item_ok [OF this(1)] Cons.prems(2) have acc': "acc' = acc @ [item_record item]" "distinct (dkeys acc')"
    by (auto simp: dkeys_def)
  ultimately show ?case using Cons.IH [of acc'] by auto
qed simp

lemma check_manifest_header_ok:
  assumes "check_manifest_header value repository expected = Inr ()"
  shows "\<exists>d items. value = PDict d \<and> map_of d ''repository'' = Some (PStr repository) \<and>
    map_of d ''immutable_revision'' = Some (PStr expected) \<and> map_of d ''files'' = Some (PList items)"
  using assms
  by (auto simp: check_manifest_header_def res_simps is_list_iff elim!: bndE)

lemma verify_revision_ok:
  assumes "verify_revision fs p metadata_name repository expected expected_files = Inr listed"
  shows "\<exists>body d items. fs_read fs (join_path p metadata_name) = Inr body \<and> loads body = Inr (PDict d) \<and>
    map_of d ''repository'' = Some (PStr repository) \<and> map_of d ''immutable_revision'' = Some (PStr expected) \<and>
    map_of d ''files'' = Some (PList items) \<and> listed = map item_record items \<and> distinct (map fst listed)"
proof -
  from assms obtain body v items where t: "fs_read fs (join_path p metadata_name) = Inr body" "decode_utf8 body = Inr body"
    "loads body = Inr v" "check_manifest_header v repository expected = Inr ()"
    "bnd (jidx v ''files'') jiter = Inr items" "foldM inventory_item [] items = Inr listed"
    by (auto simp: verify_revision_def res_simps decode_utf8_def elim!: bndE split: option.splits if_splits)
  from check_manifest_header_ok [OF t(4)] inventory_ok [OF t(6)] t show ?thesis by (auto simp: dkeys_def)
qed

text \<open>What one passed attempt shows of the world it saw.\<close>

definition model_verified :: "mount_args \<Rightarrow> mount_world \<Rightarrow> bool" where
  "model_verified args w \<longleftrightarrow>
     (\<exists>p es listed manifest doc items.
        p = path_resolve (w_fs w) (arg_path args) \<and> lookup (w_fs w) p = Some (Dir es) \<and>
        volume_holds (Dir es) (revision_metadata args) listed \<and>
        stat (w_fs w) (join_path p (revision_metadata args)) = Some (File manifest) \<and>
        (revision_metadata args, sha256_hex manifest) \<in> set (expected_file args) \<and>
        loads manifest = Inr (PDict doc) \<and>
        map_of doc ''repository'' = Some (PStr (expected_repository args)) \<and>
        map_of doc ''immutable_revision'' = Some (PStr (expected_revision args)) \<and>
        map_of doc ''files'' = Some (PList items) \<and>
        listed = map item_record items \<and> distinct (map fst listed) \<and>
        (\<forall>(nm, h) \<in> set (expected_file args). \<exists>c. stat (w_fs w) (join_path p nm) = Some (File c) \<and> sha256_hex c = h) \<and>
        (\<exists>options fstype source super.
           mount_record p (w_mountinfo w) = Inr (Some (options, fstype, source, super)) \<and>
           (plain_cache args \<or> contains ''c8s-verity-'' source)) \<and>
        w_probe w \<noteq> ProbeOpened)"

text \<open>The expected files come from \<open>parse_expected_file\<close>.\<close>

definition args_parsed :: "mount_args \<Rightarrow> bool" where
  "args_parsed args = list_all (\<lambda>e. parse_expected_file (fst e @ ''='' @ snd e) = Inr e) (expected_file args)"

lemma fs_read_eq_Inr: "fs_read fs p = Inr c \<longleftrightarrow> stat fs p = Some (File c)"
  by (auto simp: fs_read_def split: option.splits node.splits)

lemma check_required_ok:
  "check_required fs p (nm, h) = Inr u \<longleftrightarrow> (\<exists>c. stat fs (join_path p nm) = Some (File c) \<and> sha256_hex c = h)"
  by (auto simp: check_required_def sha256_file_def fs_is_file_def fs_read_eq_Inr res_simps bnd_eq_Inr
      split: option.splits node.splits)

lemma verify_once_inv:
  assumes "verify_once args w = Inr ()"
  shows "\<exists>p options fstype source super listed. p = path_resolve (w_fs w) (arg_path args) \<and>
    mount_record p (w_mountinfo w) = Inr (Some (options, fstype, source, super)) \<and>
    (plain_cache args \<or> contains ''c8s-verity-'' source) \<and>
    verify_no_write (w_probe w) = Inr () \<and>
    for_each (check_required (w_fs w) p) (expected_file args) = Inr () \<and>
    revision_metadata args \<in> fst ` set (expected_file args) \<and>
    verify_revision (w_fs w) p (revision_metadata args) (expected_repository args) (expected_revision args)
      (dupdate [] (expected_file args)) = Inr listed \<and>
    verify_every_file (w_fs w) (w_completed w) p (revision_metadata args) listed = Inr ()"
proof -
  have keys: "set (dkeys (dupdate [] (expected_file args))) = fst ` set (expected_file args)"
    by (simp add: keys_dupdate) (simp add: dkeys_def)
  from assms show ?thesis
    unfolding verify_once_def Let_def keys
    by (auto simp: res_simps elim!: bndE split: option.splits)
qed

lemma parsed_not_absolute: "parse_expected_file v = Inr (nm, h) \<Longrightarrow> \<not> startswith nm ''/''"
  by (auto simp: parse_expected_file_def split: prod.splits if_splits)

lemma verify_once_ok:
  assumes "wf_tree (w_fs w)" "\<not> is_Link (w_fs w)" "completes_all (w_completed w)" "args_parsed args"
    and "verify_once args w = Inr ()"
  shows "model_verified args w"
proof -
  let ?fs = "w_fs w" and ?m = "revision_metadata args"
  from verify_once_inv [OF assms(5)] obtain p options fstype source super listed where
    p: "p = path_resolve ?fs (arg_path args)"
    and mount: "mount_record p (w_mountinfo w) = Inr (Some (options, fstype, source, super))"
      "plain_cache args \<or> contains ''c8s-verity-'' source"
    and probe: "verify_no_write (w_probe w) = Inr ()"
    and req: "for_each (check_required ?fs p) (expected_file args) = Inr ()"
    and pinned: "?m \<in> fst ` set (expected_file args)"
    and rev: "verify_revision ?fs p ?m (expected_repository args) (expected_revision args)
      (dupdate [] (expected_file args)) = Inr listed"
    and every: "verify_every_file ?fs (w_completed w) p ?m listed = Inr ()" by blast
  have files: "\<exists>c. stat ?fs (join_path p nm) = Some (File c) \<and> sha256_hex c = h"
    if "(nm, h) \<in> set (expected_file args)" for nm h
    using req that by (auto simp: for_each_eq_Inr check_required_ok)
  obtain h where m: "(?m, h) \<in> set (expected_file args)" using pinned by auto
  with assms(4) have "\<not> startswith ?m ''/''"
    by (auto simp: args_parsed_def list_all_iff dest: parsed_not_absolute)
  then have "join_path p ?m = p @ path_parts ?m" by (simp add: join_path_def path_is_absolute_def)
  with files [OF m] have "stat ?fs (p @ path_parts ?m) \<noteq> None" by auto
  then have "canonical ?fs p" using path_resolve_canonical assms(2) p by blast
  from verify_every_file_ok [OF assms(1) this assms(3) every] obtain es where
    es: "lookup ?fs p = Some (Dir es)" "volume_holds (Dir es) ?m listed" by blast
  from verify_revision_ok [OF rev] obtain manifest doc items where
    r: "stat ?fs (join_path p ?m) = Some (File manifest)" "loads manifest = Inr (PDict doc)"
      "map_of doc ''repository'' = Some (PStr (expected_repository args))"
      "map_of doc ''immutable_revision'' = Some (PStr (expected_revision args))"
      "map_of doc ''files'' = Some (PList items)" "listed = map item_record items" "distinct (map fst listed)"
    by (auto simp: fs_read_eq_Inr)
  have "(?m, sha256_hex manifest) \<in> set (expected_file args)" using files [OF m] m r(1) by auto
  moreover have "w_probe w \<noteq> ProbeOpened" using probe by (auto simp: verify_no_write_def)
  moreover have "\<forall>(nm, h) \<in> set (expected_file args). \<exists>c. stat ?fs (join_path p nm) = Some (File c) \<and> sha256_hex c = h"
    using files by blast
  ultimately show ?thesis
    unfolding model_verified_def using p es r mount by blast
qed

section \<open>The retry loop\<close>

lemma wait_loop_verified:
  assumes "wait_loop attempt clock deadline i = Some outcome"
  shows "outcome = Verified \<longrightarrow> (\<exists>j. attempt j = Inr ())"
proof (rule wait_loop.raw_induct [OF _ assms, where P = "\<lambda>a c d i out. out = Verified \<longrightarrow> (\<exists>j. a j = Inr ())"])
  fix loop :: "(nat \<Rightarrow> unit res) \<Rightarrow> (nat \<Rightarrow> rat) \<Rightarrow> rat \<Rightarrow> nat \<Rightarrow> wait_outcome option"
    and a :: "nat \<Rightarrow> unit res" and c d i out
  assume ih: "\<And>a c d i out. loop a c d i = Some out \<Longrightarrow> out = Verified \<longrightarrow> (\<exists>j. a j = Inr ())"
    and step: "(case a i of Inl e \<Rightarrow>
        if catches [MountUnavailable] e
        then if d \<le> c i then Some (Rejected (''model-mount: timeout: '' @ msg e)) else loop a c d (Suc i)
        else if catches [ModelMountError, OSError, UnicodeError] e
          then Some (Rejected (''model-mount: rejected: '' @ msg e)) else Some (Crashed e)
      | Inr _ \<Rightarrow> Some Verified) = Some out"
  show "out = Verified \<longrightarrow> (\<exists>j. a j = Inr ())"
    using step ih [of a c d "Suc i" out] by (auto split: sum.splits if_splits)
qed

lemma wait_loop_returns:
  assumes "deadline \<le> clock (i + k)"
  shows "\<exists>outcome. wait_loop attempt clock deadline i = Some outcome"
  using assms
proof (induction k arbitrary: i)
  case 0
  then show ?case by (subst wait_loop.simps) (auto split: sum.splits)
next
  case (Suc k)
  then have "\<exists>outcome. wait_loop attempt clock deadline (Suc i) = Some outcome" by simp
  then show ?case by (subst wait_loop.simps) (auto split: sum.splits)
qed

lemma main_mount_started:
  assumes "main_mount euid args worlds clock start exporter child_code = Some (Inr (status, procs))" "procs \<noteq> []"
  shows "euid \<noteq> 0 \<and> (\<exists>i. verify_once args (worlds i) = Inr ())"
proof -
  have "euid \<noteq> 0 \<and> wait_loop (\<lambda>i. verify_once args (worlds i)) clock (start + of_int (timeout_seconds args)) 0 = Some Verified"
    using assms by (auto simp: main_mount_def split: if_splits option.splits wait_outcome.splits)
  then show ?thesis using wait_loop_verified by blast
qed

text \<open>
  C1: one passed attempt of the model check shows that the mounted volume is exactly the pinned
  model: it has no symbolic link or special file, its files are the manifest's files and the manifest, every
  listed file has the listed size and SHA-256, the manifest itself has the pinned SHA-256 and names the
  expected repository and revision, every expected file has its pinned digest, the mount comes
  from a c8s dm-verity device unless the volume is a plain cache, and the write probe was refused.
\<close>

theorem verify_once_sound:
  assumes "wf_tree (w_fs w)" "\<not> is_Link (w_fs w)" "completes_all (w_completed w)" "args_parsed args"
    and "verify_once args w = Inr ()"
  shows "model_verified args w"
  using assms by (rule verify_once_ok)

text \<open>
  C2: the wrapper starts no process, neither the server nor the metrics exporter, unless it runs as a
  non-root user and some attempt saw a verified model volume.
\<close>

theorem no_process_before_verification:
  assumes "\<forall>i. wf_tree (w_fs (worlds i)) \<and> \<not> is_Link (w_fs (worlds i)) \<and> completes_all (w_completed (worlds i))"
    and "args_parsed args"
    and "main_mount euid args worlds clock start exporter child_code = Some (Inr (status, procs))" "procs \<noteq> []"
  shows "euid \<noteq> 0 \<and> (\<exists>i. model_verified args (worlds i))"
  using main_mount_started [OF assms(3,4)] verify_once_ok assms(1,2) by blast


section \<open>A concrete volume\<close>

definition example_weights :: string where
  "example_weights = ''weights''"

definition example_revision :: string where
  "example_revision = replicate 40 (CHR ''c'')"

definition example_manifest_doc :: pyv where
  "example_manifest_doc = PDict
     [(''schema'', PStr ''confidential-benchmark/local-model-byte-manifest/v1''),
      (''classification'', PStr ''verified_local_snapshot_bytes''),
      (''repository'', PStr ''org/model''), (''immutable_revision'', PStr example_revision),
      (''immutable_ref'', PStr (''org/model@'' @ example_revision)),
      (''canonical_local_manifest_sha256'', PStr (sha256_hex ''local'')),
      (''source_remote_inventory_sha256'', PStr (sha256_hex ''remote'')),
      (''files'', PList [PDict [(''path'', PStr ''model.safetensors''),
         (''content_sha256'', PStr (sha256_hex example_weights)), (''size'', PInt 7)]])]"

definition example_manifest :: string where
  "example_manifest = dumps json_default example_manifest_doc"

definition example_fs :: node where
  "example_fs = Dir [(''m'', Dir [(''manifest.json'', File example_manifest),
     (''model.safetensors'', File example_weights)])]"

definition example_mountinfo :: string where
  "example_mountinfo = ''36 25 0:32 / /m ro - erofs /dev/mapper/c8s-verity-model ro''"

definition example_world :: mount_world where
  "example_world = \<lparr>w_fs = example_fs, w_mountinfo = Inr example_mountinfo, w_probe = ProbeErrno 30,
     w_completed = rev\<rparr>"

definition example_args :: mount_args where
  "example_args = \<lparr>arg_path = [''m''], timeout_seconds = 60, poll_seconds = 1,
     expected_revision = example_revision, expected_repository = ''org/model'',
     revision_metadata = ''manifest.json'',
     expected_file = [(''manifest.json'', sha256_hex example_manifest), (''model.safetensors'', sha256_hex example_weights)],
     plain_cache = False, gpu_metrics_port = None, private_server_output = True,
     command = [''--'', ''server'']\<rparr>"

lemma example_fs_lookup:
  "lookup example_fs [] = Some example_fs"
  "lookup example_fs [''m''] = Some (Dir [(''manifest.json'', File example_manifest), (''model.safetensors'', File example_weights)])"
  "lookup example_fs [''m'', ''manifest.json''] = Some (File example_manifest)"
  "lookup example_fs [''m'', ''model.safetensors''] = Some (File example_weights)"
  "lookup example_fs [''m'', ''model.safetensors.index.json''] = None"
  by (simp_all add: example_fs_def)

lemma example_paths:
  "join_path [''m''] ''manifest.json'' = [''m'', ''manifest.json'']"
  "join_path [''m''] ''model.safetensors'' = [''m'', ''model.safetensors'']"
  by (simp_all add: join_path_def path_is_absolute_def path_parts_def startswith_def)

lemma example_stat:
  "path_resolve example_fs [''m''] = [''m'']"
  "stat example_fs [''m''] = Some (Dir [(''manifest.json'', File example_manifest), (''model.safetensors'', File example_weights)])"
  "stat example_fs [''m'', ''manifest.json''] = Some (File example_manifest)"
  "stat example_fs [''m'', ''model.safetensors''] = Some (File example_weights)"
  by (simp_all add: path_resolve_def stat_def example_fs_lookup)

lemma example_hex: "hex_digest (sha256_hex s)"
  using sha256_hex_shape by (simp add: hex_digest_def)

lemma example_ascii: "is_ascii (sha256_hex s)" "is_ascii example_revision"
  using sha256_hex_shape by (simp_all add: is_ascii_hex) (simp add: is_ascii_def example_revision_def list_all_iff)

lemma example_manifest_read: "bnd (decode_utf8 example_manifest) loads = Inr example_manifest_doc"
  unfolding example_manifest_def
  by (subst read_dumps)
    (simp_all add: example_manifest_doc_def dict_ok_def example_ascii json_default_def opts_ok_def
      is_jws_def str_of_nat.simps)

lemma example_mount:
  "mount_record [''m''] (Inr example_mountinfo) = Inr (Some ([''ro''], ''erofs'', ''/dev/mapper/c8s-verity-model'', [''ro'']))"
  by (simp add: mount_record_def example_mountinfo_def decode_utf8_ascii splitlines_def splitlines_keepends_def is_line_break_def
      mount_line_def str_partition_def split_ws_def is_space_def startswith_def decode_mount_path_def backslash_def path_str_def)

lemma example_verify_revision:
  "verify_revision example_fs [''m''] ''manifest.json'' ''org/model'' example_revision
     (dupdate [] (expected_file example_args)) = Inr [(''model.safetensors'', sha256_hex example_weights, 7)]"
proof -
  have hdr: "check_manifest_header example_manifest_doc ''org/model'' example_revision = Inr ()"
    by (simp add: check_manifest_header_def example_manifest_doc_def same_keys_def dkeys_def manifest_keys_def
        digest_value_def example_hex)
  have files: "jidx example_manifest_doc ''files'' = Inr (PList [PDict [(''path'', PStr ''model.safetensors''),
      (''content_sha256'', PStr (sha256_hex example_weights)), (''size'', PInt 7)]])"
    by (simp add: example_manifest_doc_def)
  have item: "inventory_item [] (PDict [(''path'', PStr ''model.safetensors''),
      (''content_sha256'', PStr (sha256_hex example_weights)), (''size'', PInt 7)]) =
      Inr [(''model.safetensors'', sha256_hex example_weights, 7)]"
    by (simp add: inventory_item_def same_keys_def dkeys_def manifest_file_keys_def startswith_def path_parts_def
        digest_value_def example_hex)
  have read: "bnd (bnd (fs_read example_fs [''m'', ''manifest.json'']) decode_utf8) loads = Inr example_manifest_doc"
    using example_manifest_read by (simp add: fs_read_def example_stat)
  show ?thesis
    unfolding verify_revision_def example_paths read
    by (simp add: hdr files item example_args_def dupdate_def check_expected_def example_paths fs_size_def example_stat
        dkeys_def) (simp add: example_weights_def)
qed

lemma example_verify_every_file:
  "verify_every_file example_fs rev [''m''] ''manifest.json'' [(''model.safetensors'', sha256_hex example_weights, 7)] = Inr ()"
proof -
  have "list_model_files example_fs [''m''] = Inr [''manifest.json'', ''model.safetensors'']"
    by (simp add: list_model_files_def example_stat walk_dir_check_def)
  then show ?thesis
    by (simp add: verify_every_file_def dkeys_def check_size_def check_hash_def sha256_file_def fs_read_def fs_size_def
        example_paths example_stat) (simp add: example_weights_def)
qed

lemma example_verify_once: "verify_once example_args example_world = Inr ()"
proof -
  have idx: "verify_index example_fs [''m''] = Inr ()"
    by (simp add: verify_index_def fs_lexists_def fs_is_symlink_def lstat_def fs_is_file_def fs_size_def example_stat
        example_fs_lookup) (simp add: example_weights_def)
  have "revision_metadata example_args \<in> set (dkeys (dupdate [] (expected_file example_args)))"
    by (simp add: example_args_def dupdate_def dkeys_def)
  then show ?thesis
    using example_verify_revision example_verify_every_file idx example_mount
    by (simp add: verify_once_def example_world_def example_stat verify_no_write_def check_required_def fs_is_file_def
        sha256_file_def fs_read_def)
      (simp add: example_args_def example_stat example_paths contains_def startswith_def sha256_file_def fs_read_def)
qed

lemma example_conditions:
  "wf_tree (w_fs example_world)" "\<not> is_Link (w_fs example_world)" "completes_all (w_completed example_world)"
  "args_parsed example_args"
  by (simp_all add: example_world_def example_fs_def entry_name_def completes_all_def args_parsed_def example_args_def
      parse_expected_file_def str_partition_def example_hex startswith_def path_parts_def)

theorem verify_once_sound_witness:
  "verify_once example_args example_world = Inr () \<and> model_verified example_args example_world"
  using verify_once_sound [OF example_conditions example_verify_once] example_verify_once by blast

lemma example_main:
  "main_mount 1000 example_args (\<lambda>_. example_world) (\<lambda>_. 0) 0 True 0 = Some (Inr (0, [[''server'']]))"
  by (simp add: main_mount_def wait_loop.simps example_verify_once) (simp add: example_args_def)

theorem no_process_before_verification_witness:
  "main_mount 1000 example_args (\<lambda>_. example_world) (\<lambda>_. 0) 0 True 0 = Some (Inr (0, [[''server'']])) \<and>
   (\<exists>i :: nat. model_verified example_args example_world)"
  using no_process_before_verification [OF _ example_conditions(4) example_main] example_conditions(1-3) example_main
  by simp


end
