(* ===== verification/Log_Sink.thy ===== *)
theory Log_Sink
  imports Py_Json Py_Regex
begin

text \<open>
  \<open>images/sglang-router/private_log_sink.py\<close>: the writer to the container's standard output and the
  bounded sender of reviewed records to the log collector.  The sender is a state machine: callers
  submit records, its thread takes batches from the queue and posts each one at most twice.  What the
  collector answers is an argument of the posting step.
\<close>

section \<open>Standard output\<close>

definition line_feed :: string where
  "line_feed = [CHR 0x0A]"

text \<open>\<open>os_write\<close> gives the number of bytes the pipe took, or the error of \<open>os.write\<close>.\<close>

definition stdout_write :: "(string \<Rightarrow> nat res) \<Rightarrow> pydict \<Rightarrow> bool res" where
  "stdout_write os_write record =
     (let payload = dumps json_compact (PDict record) @ line_feed in
      if length payload > 4096 then Inr False
      else try_except (bnd (os_write payload) (\<lambda>n. Inr (n = length payload))) [OSError]
             (\<lambda>_. Inr False))"

section \<open>The collector endpoint\<close>

text \<open>
  \<open>urllib.parse.urlsplit\<close>.  Leading control characters and blanks go, tabs and line breaks go
  everywhere.  A bracketed host never passes the checks of \<open>LogSink\<close>: it is an IPv6 or an IPvFuture
  address or \<open>urlsplit\<close> itself raises \<open>ValueError\<close>, so brackets raise here.  The NFKC check of a
  non-ASCII host can only raise \<open>ValueError\<close> where the pattern of the collector's name refuses the
  host or where the host has the Kelvin sign, which it lets pass.
\<close>

record split_url =
  u_scheme :: string
  u_netloc :: string
  u_path :: string
  u_query :: string
  u_fragment :: string

definition ascii_lower :: "char \<Rightarrow> char" where
  "ascii_lower c = (if is_upper c then char_of (code c + 32) else c)"

text \<open>\<open>str.lower\<close> where the result can be ASCII: the Kelvin sign is the only other capital.\<close>

definition kelvin_sign :: string where
  "kelvin_sign = [CHR 0xE2, CHR 0x84, CHR 0xAA]"

definition str_lower :: "string \<Rightarrow> string" where
  "str_lower s = str_replace kelvin_sign ''k'' (map ascii_lower s)"

definition is_scheme_char :: "char \<Rightarrow> bool" where
  "is_scheme_char c = (is_lower c \<or> is_upper c \<or> is_digit c \<or> c \<in> set ''+-.'')"

definition clean_url :: "string \<Rightarrow> string" where
  "clean_url s =
     filter (\<lambda>c. code c \<noteq> 9 \<and> code c \<noteq> 10 \<and> code c \<noteq> 13) (dropWhile (\<lambda>c. code c \<le> 32) s)"

definition split_scheme :: "string \<Rightarrow> string \<times> string" where
  "split_scheme s =
     (let (scheme, colon, rest) = str_partition '':'' s in
      if colon \<noteq> [] \<and> scheme \<noteq> [] \<and> (is_lower (hd scheme) \<or> is_upper (hd scheme)) \<and>
         list_all is_scheme_char scheme
      then (map ascii_lower scheme, rest) else ([], s))"

definition is_netloc_char :: "char \<Rightarrow> bool" where
  "is_netloc_char c = (c \<notin> set ''/?#'')"

definition split_netloc :: "string \<Rightarrow> string \<times> string" where
  "split_netloc s =
     (if startswith s ''//''
      then (takeWhile is_netloc_char (drop 2 s), dropWhile is_netloc_char (drop 2 s)) else ([], s))"

definition url_error :: exn where
  "url_error = Exn ValueError ''invalid internal log endpoint''"

definition urlsplit :: "string \<Rightarrow> split_url res" where
  "urlsplit url =
     (let (scheme, rest) = split_scheme (clean_url url);
          (netloc, rest) = split_netloc rest;
          (rest, _, fragment) = str_partition ''#'' rest;
          (path, _, query) = str_partition ''?'' rest
      in if contains ''['' netloc \<or> contains '']'' netloc then Inl url_error
         else Inr \<lparr>u_scheme = scheme, u_netloc = netloc, u_path = path, u_query = query,
                   u_fragment = fragment\<rparr>)"

definition url_userinfo :: "split_url \<Rightarrow> string \<times> string" where
  "url_userinfo u =
     (let (info, _, _) = str_rpartition ''@'' (u_netloc u);
          (username, _, password) = str_partition '':'' info in (username, password))"

definition url_hostinfo :: "split_url \<Rightarrow> string \<times> string" where
  "url_hostinfo u =
     (let (_, _, hostinfo) = str_rpartition ''@'' (u_netloc u);
          (host, _, port) = str_partition '':'' hostinfo in (host, port))"

definition url_hostname :: "split_url \<Rightarrow> string" where
  "url_hostname u =
     (let (host, percent, zone) = str_partition ''%'' (fst (url_hostinfo u))
      in str_lower host @ percent @ zone)"

definition url_port :: "split_url \<Rightarrow> nat option res" where
  "url_port u =
     (let port = snd (url_hostinfo u) in
      if port = [] then Inr None
      else if \<not> list_all is_digit port \<or> nat_of_digits port > 65535 then Inl url_error
      else Inr (Some (nat_of_digits port)))"

definition is_label_char :: "char \<Rightarrow> bool" where
  "is_label_char c = (is_lower c \<or> is_digit c \<or> c = CHR ''-'')"

definition rx_collector :: rx where
  "rx_collector = rx_seqs [rx_lit ''telemetry-collector.'', rx_plus (RChr is_label_char),
                           rx_lit ''.svc.cluster.local'']"

definition rx_service :: rx where
  "rx_service = RAlt (rx_lit ''sglang-router'')
                  (RSeq (rx_lit ''inference-pd-'') (rx_range 1 24 (RChr is_label_char)))"

definition check_endpoint :: "string \<Rightarrow> unit res" where
  "check_endpoint endpoint =
     bnd (urlsplit endpoint) (\<lambda>parsed.
     let internal = url_hostname parsed = ''127.0.0.1'' \<or> fullmatch rx_collector (url_hostname parsed) in
     raise_ifM
       (orsM [Inr (u_scheme parsed \<noteq> ''http''), Inr (\<not> internal),
              Inr (fst (url_userinfo parsed) \<noteq> []), Inr (snd (url_userinfo parsed) \<noteq> []),
              Inr (u_query parsed \<noteq> []), Inr (u_fragment parsed \<noteq> []),
              Inr (u_path parsed \<noteq> ''/v1/logs''),
              bnd (url_port parsed) (\<lambda>p. Inr (p = None))])
       url_error)"

section \<open>The sender\<close>

text \<open>What one attempt to post a batch met: an exception of \<open>open\<close>, or a status and a body.\<close>

datatype reply = OpenRaised | Reply int "string res"

datatype sink_phase =
    Waiting
  | Collecting "(int \<times> string) list"
  | Posting "(int \<times> string) list" nat bool   \<comment> \<open>the batch, the attempts left, \<open>delivered\<close>\<close>
  | Exited

record sink =
  sk_endpoint :: string
  sk_service :: string
  sk_capacity :: nat
  sk_queue :: "(int \<times> string) list"
  sk_stop :: bool
  sk_sent :: nat
  sk_dropped :: nat
  sk_failures :: nat
  sk_unfinished :: nat
  sk_phase :: sink_phase
  sk_wire :: "string list"                        \<comment> \<open>the bodies of the requests, in order\<close>

definition new_sink :: "string \<Rightarrow> string \<Rightarrow> nat \<Rightarrow> sink res" where
  "new_sink endpoint service capacity =
     bnd (check_endpoint endpoint) (\<lambda>_.
     bnd (raise_if (\<not> fullmatch rx_service service)
            (Exn ValueError ''invalid diagnostic service name'')) (\<lambda>_.
     Inr \<lparr>sk_endpoint = endpoint, sk_service = service, sk_capacity = capacity, sk_queue = [],
          sk_stop = False, sk_sent = 0, sk_dropped = 0, sk_failures = 0, sk_unfinished = 0,
          sk_phase = Waiting, sk_wire = []\<rparr>))"

definition from_environment :: "(string \<Rightarrow> string option) \<Rightarrow> sink option res" where
  "from_environment environ =
     (case environ ''OTEL_EXPORTER_OTLP_LOGS_ENDPOINT'' of
        None \<Rightarrow> Inr None
      | Some endpoint \<Rightarrow>
          if endpoint = [] then Inr None
          else bnd (new_sink endpoint
                      (case environ ''OTEL_SERVICE_NAME'' of None \<Rightarrow> ''sglang-router'' | Some s \<Rightarrow> s)
                      1024) (\<lambda>s. Inr (Some s)))"

definition submit :: "int \<Rightarrow> pydict \<Rightarrow> sink \<Rightarrow> sink" where
  "submit now record s =
     (let body = dumps json_compact (PDict record) in
      if length body > 4096 then s\<lparr>sk_dropped := sk_dropped s + 1\<rparr>
      else if 0 < sk_capacity s \<and> sk_capacity s \<le> length (sk_queue s)
      then s\<lparr>sk_dropped := sk_dropped s + 1\<rparr>
      else s\<lparr>sk_queue := sk_queue s @ [(now, body)], sk_unfinished := sk_unfinished s + 1\<rparr>)"

definition log_record :: "int \<times> string \<Rightarrow> pyv" where
  "log_record = (\<lambda>(stamp, body).
     PDict [(''timeUnixNano'', PStr (str_of_int stamp)), (''severityNumber'', PInt 17),
            (''severityText'', PStr ''ERROR''), (''body'', PDict [(''stringValue'', PStr body)])])"

definition payload :: "string \<Rightarrow> (int \<times> string) list \<Rightarrow> pyv" where
  "payload service batch =
     PDict [(''resourceLogs'', PList [PDict [
       (''resource'', PDict [(''attributes'', PList [
          PDict [(''key'', PStr ''service.name''), (''value'', PDict [(''stringValue'', PStr service)])]])]),
       (''scopeLogs'', PList [PDict [
          (''scope'', PDict [(''name'', PStr ''ci.private.diagnostics'')]),
          (''logRecords'', PList (map log_record batch))]])]])]"

text \<open>Whether the answer rejects no record; the lookups may raise.\<close>

definition none_rejected :: "pyv \<Rightarrow> bool res" where
  "none_rejected result =
     bnd (jgetd result ''partialSuccess'' (PDict [])) (\<lambda>partial.
     bnd (jgetd partial ''rejectedLogRecords'' (PStr ''0'')) (\<lambda>rejected.
       Inr (rejected = PInt 0 \<or> rejected = PStr ''0'')))"

text \<open>
  One attempt: the new value of \<open>delivered\<close> and whether the attempt raised.  An exception after the
  status line leaves \<open>delivered\<close> as the status set it.
\<close>

definition attempt :: "bool \<Rightarrow> reply \<Rightarrow> bool \<times> bool" where
  "attempt delivered r =
     (case r of
        OpenRaised \<Rightarrow> (delivered, True)
      | Reply status read \<Rightarrow>
          (let d = (status = 200) in
           case read of
             Inl _ \<Rightarrow> (d, True)
           | Inr raw \<Rightarrow>
               if length raw > 4096 then (False, False)
               else if raw = [] then (d, False)
               else (case bnd (loads_bytes raw) none_rejected of
                       Inl _ \<Rightarrow> (d, True)
                     | Inr ok \<Rightarrow> (d \<and> ok, False))))"

datatype sink_act =
    Submit int pydict
  | Stop
  | Get
  | GetMore
  | Post
  | Answer reply
  | Finish
  | Exit

text \<open>The steps of the callers (\<open>Submit\<close>, \<open>Stop\<close>) and of the sender's thread.\<close>

definition post_next :: "sink \<Rightarrow> (int \<times> string) list \<Rightarrow> nat \<Rightarrow> bool \<Rightarrow> sink" where
  "post_next s batch left delivered =
     (if left = 0 then s\<lparr>sk_phase := Posting batch 0 delivered\<rparr>
      else s\<lparr>sk_phase := Posting batch left delivered,
             sk_wire := sk_wire s @ [dumps json_compact (payload (sk_service s) batch)]\<rparr>)"

fun sink_step :: "sink_act \<Rightarrow> sink \<Rightarrow> sink option" where
  "sink_step (Submit now record) s = Some (submit now record s)"
| "sink_step Stop s = Some (s\<lparr>sk_stop := True\<rparr>)"
| "sink_step Get s =
     (case (sk_phase s, sk_queue s) of
        (Waiting, x # q) \<Rightarrow> Some (s\<lparr>sk_queue := q, sk_phase := Collecting [x]\<rparr>)
      | _ \<Rightarrow> None)"
| "sink_step GetMore s =
     (case (sk_phase s, sk_queue s) of
        (Collecting batch, x # q) \<Rightarrow>
          if length batch < 32
          then Some (s\<lparr>sk_queue := q, sk_phase := Collecting (batch @ [x])\<rparr>) else None
      | _ \<Rightarrow> None)"
| "sink_step Post s =
     (case sk_phase s of
        Collecting batch \<Rightarrow>
          if length batch < 32 \<and> sk_queue s \<noteq> [] then None else Some (post_next s batch 2 False)
      | _ \<Rightarrow> None)"
| "sink_step (Answer r) s =
     (case sk_phase s of
        Posting batch (Suc left) delivered \<Rightarrow>
          (case attempt delivered r of
             (d, raised) \<Rightarrow>
               if d \<and> \<not> raised then Some (post_next s batch 0 d)
               else Some (post_next (s\<lparr>sk_failures := sk_failures s + 1\<rparr>) batch left d))
      | _ \<Rightarrow> None)"
| "sink_step Finish s =
     (case sk_phase s of
        Posting batch 0 delivered \<Rightarrow>
          Some (s\<lparr>sk_sent := sk_sent s + (if delivered then length batch else 0),
                  sk_dropped := sk_dropped s + (if delivered then 0 else length batch),
                  sk_unfinished := sk_unfinished s - length batch, sk_phase := Waiting\<rparr>)
      | _ \<Rightarrow> None)"
| "sink_step Exit s =
     (if sk_phase s = Waiting \<and> sk_stop s \<and> sk_queue s = []
      then Some (s\<lparr>sk_phase := Exited\<rparr>) else None)"

inductive sink_run :: "sink \<Rightarrow> sink_act list \<Rightarrow> sink \<Rightarrow> bool" where
  sink_run_nil: "sink_run s [] s"
| sink_run_step: "sink_run s acts s' \<Longrightarrow> sink_step a s' = Some s'' \<Longrightarrow> sink_run s (acts @ [a]) s''"

text \<open>What \<open>close\<close> returns after its join, whether or not the thread has exited.\<close>

definition close_report :: "sink \<Rightarrow> pydict" where
  "close_report s =
     [(''exported'', PInt (int (sk_sent s))), (''dropped'', PInt (int (sk_dropped s))),
      (''pending'', PInt (int (sk_unfinished s))), (''failures'', PInt (int (sk_failures s)))]"

section \<open>Records are conserved\<close>

definition in_flight :: "sink \<Rightarrow> (int \<times> string) list" where
  "in_flight s =
     (case sk_phase s of Collecting b \<Rightarrow> b | Posting b _ _ \<Rightarrow> b | _ \<Rightarrow> [])"

fun is_submit :: "sink_act \<Rightarrow> bool" where
  "is_submit (Submit _ _) = True" | "is_submit _ = False"

definition submitted :: "sink_act list \<Rightarrow> nat" where
  "submitted acts = length (filter is_submit acts)"

text \<open>The invariant of the sender after \<open>n\<close> submissions.\<close>

definition sink_inv :: "nat \<Rightarrow> sink \<Rightarrow> bool" where
  "sink_inv n s \<longleftrightarrow>
     n = sk_sent s + sk_dropped s + sk_unfinished s \<and>
     sk_unfinished s = length (in_flight s) + length (sk_queue s) \<and>
     length (in_flight s) \<le> 32 \<and>
     (0 < sk_capacity s \<longrightarrow> length (sk_queue s) \<le> sk_capacity s)"

lemma new_sink_eq_Inr:
  "new_sink e v c = Inr s \<Longrightarrow>
     check_endpoint e = Inr () \<and> fullmatch rx_service v \<and> sk_capacity s = c \<and> sk_queue s = [] \<and>
     sk_sent s = 0 \<and> sk_dropped s = 0 \<and> sk_unfinished s = 0 \<and> sk_phase s = Waiting \<and>
     sk_wire s = [] \<and> sk_service s = v \<and> sk_endpoint s = e \<and> sk_failures s = 0"
  by (auto simp: new_sink_def res_simps elim!: bndE)

lemma post_next_fields [simp]:
  "sk_sent (post_next s b l d) = sk_sent s" "sk_dropped (post_next s b l d) = sk_dropped s"
  "sk_unfinished (post_next s b l d) = sk_unfinished s" "sk_queue (post_next s b l d) = sk_queue s"
  "sk_capacity (post_next s b l d) = sk_capacity s" "sk_service (post_next s b l d) = sk_service s"
  "sk_phase (post_next s b l d) = Posting b l d" "sk_failures (post_next s b l d) = sk_failures s"
  "sk_stop (post_next s b l d) = sk_stop s"
  by (simp_all add: post_next_def)

lemma submit_inv: "sink_inv n s \<Longrightarrow> sink_inv (Suc n) (submit t r s)"
  by (auto simp: sink_inv_def submit_def in_flight_def Let_def)

text \<open>What one step of the sender's thread does to the counters.\<close>

lemma sink_step_inv:
  assumes "sink_inv n s" "sink_step a s = Some s'"
  shows "sink_inv (n + (if is_submit a then 1 else 0)) s'"
proof (cases a)
  case (Submit t r)
  then show ?thesis using assms submit_inv [of n s t r] by simp
qed (use assms in \<open>auto simp: sink_inv_def in_flight_def
        split: sink_phase.splits list.splits nat.splits if_splits prod.splits\<close>)

lemma sink_run_inv:
  "sink_run s acts s' \<Longrightarrow> sink_inv 0 s \<Longrightarrow> sink_inv (submitted acts) s'"
proof (induction rule: sink_run.induct)
  case (sink_run_nil s)
  then show ?case by (simp add: submitted_def)
next
  case (sink_run_step s acts s' a s'')
  then have "sink_inv (submitted acts + (if is_submit a then 1 else 0)) s''"
    using sink_step_inv by blast
  then show ?case by (simp add: submitted_def split: if_splits)
qed

lemma new_sink_inv: "new_sink e v c = Inr s \<Longrightarrow> sink_inv 0 s"
  using new_sink_eq_Inr [of e v c s] by (simp add: sink_inv_def in_flight_def)

text \<open>
  An answer with status 200 whose body cannot be parsed leaves \<open>delivered\<close> set, although the attempt
  counts as a failure.
\<close>

lemma malformed_answer_delivered:
  "raw \<noteq> [] \<Longrightarrow> length raw \<le> 4096 \<Longrightarrow> loads_bytes raw = Inl e \<Longrightarrow>
     attempt d (Reply 200 (Inr raw)) = (True, True)"
  by (simp add: attempt_def)

section \<open>What goes to the collector\<close>

text \<open>A batch item comes from a submission: its body is the serialised record.\<close>

definition from_submission :: "sink_act list \<Rightarrow> int \<times> string \<Rightarrow> bool" where
  "from_submission acts x =
     (\<exists>record. Submit (fst x) record \<in> set acts \<and> snd x = dumps json_compact (PDict record) \<and>
        length (snd x) \<le> 4096)"

definition reviewed_wire :: "string \<Rightarrow> sink_act list \<Rightarrow> string \<Rightarrow> bool" where
  "reviewed_wire v acts w =
     (\<exists>batch. w = dumps json_compact (payload v batch) \<and> batch \<noteq> [] \<and> length batch \<le> 32 \<and>
        list_all (from_submission acts) batch)"

definition wire_inv :: "string \<Rightarrow> sink_act list \<Rightarrow> sink \<Rightarrow> bool" where
  "wire_inv v acts s \<longleftrightarrow>
     sk_service s = v \<and> list_all (from_submission acts) (sk_queue s) \<and>
     list_all (from_submission acts) (in_flight s) \<and>
     length (in_flight s) \<le> 32 \<and>
     (case sk_phase s of Collecting b \<Rightarrow> b \<noteq> [] | Posting b _ _ \<Rightarrow> b \<noteq> [] | _ \<Rightarrow> True) \<and>
     list_all (reviewed_wire v acts) (sk_wire s)"

lemma from_submission_more: "from_submission acts x \<Longrightarrow> from_submission (acts @ [a]) x"
  by (auto simp: from_submission_def)

lemma reviewed_wire_more: "reviewed_wire v acts w \<Longrightarrow> reviewed_wire v (acts @ [a]) w"
  unfolding reviewed_wire_def list_all_iff using from_submission_more by blast

lemma wire_inv_more: "wire_inv v acts s \<Longrightarrow> wire_inv v (acts @ [a]) s"
  unfolding wire_inv_def list_all_iff using from_submission_more reviewed_wire_more by blast

lemma post_next_wire:
  assumes "wire_inv v acts s" "in_flight s = b" "b \<noteq> []"
  shows "wire_inv v acts (post_next s b l d)"
  using assms by (auto simp: wire_inv_def post_next_def in_flight_def reviewed_wire_def)

lemma submit_wire: "wire_inv v acts s \<Longrightarrow> wire_inv v (acts @ [Submit t r]) (submit t r s)"
  using wire_inv_more [of v acts s "Submit t r"]
  by (auto simp: wire_inv_def submit_def in_flight_def Let_def from_submission_def)

lemma sink_step_wire:
  assumes "wire_inv v acts s" "sink_step a s = Some s'"
  shows "wire_inv v (acts @ [a]) s'"
proof (cases "is_submit a")
  case True
  then show ?thesis using assms submit_wire by (cases a) auto
next
  case False
  let ?w = "wire_inv v (acts @ [a])"
  have w: "?w s" using assms(1) wire_inv_more by blast
  have failed: "?w (s\<lparr>sk_failures := sk_failures s + 1\<rparr>)"
    using w by (simp add: wire_inv_def in_flight_def)
  show ?thesis
  proof (cases a)
    case Post
    then obtain b where b: "sk_phase s = Collecting b" "s' = post_next s b 2 False"
      using assms(2) by (auto split: sink_phase.splits if_splits)
    with w have "in_flight s = b" "b \<noteq> []" by (auto simp: wire_inv_def in_flight_def)
    then show ?thesis using post_next_wire [OF w] b(2) by simp
  next
    case (Answer r)
    then obtain b l d where b: "sk_phase s = Posting b (Suc l) d"
      using assms(2) by (auto split: sink_phase.splits nat.splits)
    obtain d' raised where d': "attempt d r = (d', raised)" by (cases "attempt d r")
    from b w have fl: "in_flight s = b" "b \<noteq> []" by (auto simp: wire_inv_def in_flight_def)
    have "in_flight (s\<lparr>sk_failures := sk_failures s + 1\<rparr>) = b" using fl by (simp add: in_flight_def)
    then have "?w (post_next (s\<lparr>sk_failures := sk_failures s + 1\<rparr>) b l d')"
      using post_next_wire [OF failed] fl by blast
    moreover have "?w (post_next s b 0 d')" using post_next_wire [OF w] fl by blast
    ultimately show ?thesis using assms(2) Answer b d' by (auto split: if_splits)
  qed (use False w assms(2) in \<open>auto simp: wire_inv_def in_flight_def
        split: sink_phase.splits list.splits nat.splits if_splits\<close>)
qed

lemma sink_run_wire:
  "sink_run s acts s' \<Longrightarrow> wire_inv v [] s \<Longrightarrow> wire_inv v acts s'"
  by (induction rule: sink_run.induct) (auto intro: sink_step_wire)

lemma new_sink_wire: "new_sink e v c = Inr s \<Longrightarrow> wire_inv v [] s"
  using new_sink_eq_Inr [of e v c s] by (simp add: wire_inv_def in_flight_def)

section \<open>The shape of an accepted endpoint\<close>

lemma str_partition_shape:
  assumes "str_partition p s = (a, sep, b)"
  shows "s = a @ sep @ b \<and> (sep = p \<or> sep = [] \<and> b = [])"
proof (cases "str_find p s")
  case None
  then show ?thesis using assms by (simp add: str_partition_def)
next
  case (Some i)
  then obtain u v where "s = u @ p @ v" "length u = i" using str_find_Some by blast
  then show ?thesis using assms Some by (auto simp: str_partition_def)
qed

lemma str_rpartition_shape_any:
  assumes "str_rpartition p s = (a, sep, b)"
  shows "s = a @ sep @ b \<and> (sep = p \<or> sep = [] \<and> a = [])"
proof (cases "str_find (rev p) (rev s)")
  case None
  then show ?thesis using assms by (simp add: str_rpartition_def)
next
  case (Some i)
  have sep: "sep = p" using assms Some by (simp add: str_rpartition_def)
  show ?thesis
  proof (cases "p = []")
    case True
    then have "i = 0" using Some by (cases "rev s") (auto simp: startswith_def split: if_splits)
    then show ?thesis using assms Some True by (auto simp: str_rpartition_def)
  next
    case False
    then show ?thesis using str_rpartition_shape [OF assms] sep by simp
  qed
qed

text \<open>The host names the checks accept.\<close>

definition internal_host :: "string \<Rightarrow> bool" where
  "internal_host h = (h = ''127.0.0.1'' \<or> fullmatch rx_collector h)"

lemma fullmatch_collector:
  "fullmatch rx_collector h \<longleftrightarrow>
     (\<exists>ns. h = ''telemetry-collector.'' @ ns @ ''.svc.cluster.local'' \<and> ns \<noteq> [] \<and>
        list_all is_label_char ns)"
  by (auto simp: rx_collector_def fullmatch_Seq fullmatch_plus_class)

lemma percent_no_label: "\<not> is_label_char (CHR ''%'')"
  by (simp add: is_label_char_def is_lower_def is_digit_def)

lemma internal_host_no_percent: "internal_host h \<Longrightarrow> CHR ''%'' \<notin> set h"
  using percent_no_label by (auto simp: internal_host_def fullmatch_collector list_all_iff)

lemma split_scheme_shape:
  "split_scheme s = (sc, r) \<Longrightarrow> sc \<noteq> [] \<Longrightarrow> \<exists>p. s = p @ '':'' @ r \<and> map ascii_lower p = sc"
  by (auto simp: split_scheme_def split: prod.splits if_splits dest!: str_partition_shape)

lemma split_netloc_shape:
  "split_netloc s = (n, r) \<Longrightarrow> n \<noteq> [] \<Longrightarrow> s = ''//'' @ n @ r"
  by (auto simp: split_netloc_def startswith_iff split: if_splits)

lemma urlsplit_shape:
  assumes "urlsplit url = Inr u" "u_scheme u \<noteq> []" "u_netloc u \<noteq> []"
    "u_query u = []" "u_fragment u = []"
  shows "\<exists>scheme mark. clean_url url = scheme @ ''://'' @ u_netloc u @ u_path u @ mark \<and>
           map ascii_lower scheme = u_scheme u \<and> set mark \<subseteq> set ''?#''"
proof -
  obtain sc r where sc: "split_scheme (clean_url url) = (sc, r)" by fastforce
  obtain n r2 where n: "split_netloc r = (n, r2)" by fastforce
  obtain r3 h f where f: "str_partition ''#'' r2 = (r3, h, f)" by (cases "str_partition ''#'' r2")
  obtain p q y where p: "str_partition ''?'' r3 = (p, q, y)" by (cases "str_partition ''?'' r3")
  have u: "u = \<lparr>u_scheme = sc, u_netloc = n, u_path = p, u_query = y, u_fragment = f\<rparr>"
    using assms(1) sc n f p by (simp add: urlsplit_def split: if_splits)
  have "r2 = r3 @ h" "set h \<subseteq> {CHR ''#''}"
    using str_partition_shape [OF f] assms(5) u by auto
  moreover have "r3 = p @ q" "set q \<subseteq> {CHR ''?''}"
    using str_partition_shape [OF p] assms(4) u by auto
  moreover have "r = ''//'' @ n @ r2" using split_netloc_shape [OF n] assms(3) u by simp
  moreover obtain scheme where "clean_url url = scheme @ '':'' @ r" "map ascii_lower scheme = sc"
    using split_scheme_shape [OF sc] assms(2) u by auto
  ultimately show ?thesis using u by (intro exI [of _ scheme] exI [of _ "q @ h"]) auto
qed

lemma url_hostname_internal:
  assumes "internal_host (url_hostname u)"
  shows "url_hostname u = str_lower (fst (url_hostinfo u))"
proof -
  obtain a p b where p: "str_partition ''%'' (fst (url_hostinfo u)) = (a, p, b)"
    by (cases "str_partition ''%'' (fst (url_hostinfo u))")
  then have h: "url_hostname u = str_lower a @ p @ b" by (simp add: url_hostname_def)
  have "p \<noteq> ''%''" using internal_host_no_percent [OF assms] h by auto
  then show ?thesis using str_partition_shape [OF p] h by auto
qed

lemma url_netloc_shape:
  assumes "url_userinfo u = ([], [])" "url_hostinfo u = (host, port)" "port \<noteq> []"
  shows "\<exists>user. u_netloc u = user @ host @ '':'' @ port \<and> user \<in> {[], ''@'', '':@''}"
proof -
  obtain info sep hp where r: "str_rpartition ''@'' (u_netloc u) = (info, sep, hp)"
    by (cases "str_rpartition ''@'' (u_netloc u)")
  obtain un c pw where i: "str_partition '':'' info = (un, c, pw)" by (cases "str_partition '':'' info")
  obtain h c2 p where hp: "str_partition '':'' hp = (h, c2, p)" by (cases "str_partition '':'' hp")
  have "un = []" "pw = []" using assms(1) r i by (auto simp: url_userinfo_def)
  then have "info = [] \<or> info = '':''" using str_partition_shape [OF i] by auto
  moreover have "h = host" "p = port" using assms(2) r hp by (auto simp: url_hostinfo_def)
  then have "hp = host @ '':'' @ port" using str_partition_shape [OF hp] assms(3) by auto
  moreover have "u_netloc u = info @ sep @ hp" "sep = ''@'' \<or> sep = [] \<and> info = []"
    using str_rpartition_shape_any [OF r] by auto
  ultimately show ?thesis by auto
qed

lemma check_endpoint_shape:
  assumes "check_endpoint e = Inr ()"
  shows "\<exists>scheme user host port mark.
    clean_url e = scheme @ ''://'' @ user @ host @ '':'' @ port @ ''/v1/logs'' @ mark \<and>
    map ascii_lower scheme = ''http'' \<and> user \<in> {[], ''@'', '':@''} \<and>
    internal_host (str_lower host) \<and> port \<noteq> [] \<and> list_all is_digit port \<and>
    nat_of_digits port \<le> 65535 \<and> set mark \<subseteq> set ''?#''"
proof -
  obtain u where u: "urlsplit e = Inr u" and
    c: "u_scheme u = ''http''" "internal_host (url_hostname u)" "url_userinfo u = ([], [])"
      "u_query u = []" "u_fragment u = []" "u_path u = ''/v1/logs''" "\<exists>n. url_port u = Inr (Some n)"
    using assms
    by (auto simp: check_endpoint_def res_simps orsM_eq_False internal_host_def Let_def prod_eq_iff
        elim!: bndE)
  obtain host port where hp: "url_hostinfo u = (host, port)" by fastforce
  have port: "port \<noteq> []" "list_all is_digit port" "nat_of_digits port \<le> 65535"
    using c(7) hp by (auto simp: url_port_def Let_def split: if_splits)
  obtain user where user: "u_netloc u = user @ host @ '':'' @ port" "user \<in> {[], ''@'', '':@''}"
    using url_netloc_shape [OF c(3) hp port(1)] by blast
  then have "u_netloc u \<noteq> []" "u_scheme u \<noteq> []" using c(1) by auto
  then obtain scheme mark where
    "clean_url e = scheme @ ''://'' @ u_netloc u @ u_path u @ mark"
    "map ascii_lower scheme = u_scheme u" "set mark \<subseteq> set ''?#''"
    using urlsplit_shape [OF u _ _ c(4,5)] by blast
  moreover have "internal_host (str_lower host)"
    using url_hostname_internal [OF c(2)] c(2) hp by simp
  ultimately show ?thesis using user port c
    by (intro exI [of _ scheme] exI [of _ user] exI [of _ host] exI [of _ port] exI [of _ mark]) simp
qed

section \<open>The callers' side of the contract\<close>

text \<open>Both writers state the revision of their source, or that it is unknown.\<close>

definition source_revision :: "(string \<Rightarrow> string option) \<Rightarrow> string" where
  "source_revision environ =
     (let r = (case environ ''CI_DIAGNOSTIC_SOURCE_REVISION'' of None \<Rightarrow> [] | Some r \<Rightarrow> r)
      in if fullmatch rx_commit r then r else ''unknown'')"

definition good_revision :: "string \<Rightarrow> bool" where
  "good_revision r = (fullmatch rx_commit r \<or> r = ''unknown'')"

lemma source_revision_good: "good_revision (source_revision environ)"
  by (simp add: source_revision_def good_revision_def Let_def)

text \<open>
  The sender filters nothing: its callers promise that every record they hand over has only reviewed
  fields with safe values.  Under that promise nothing else reaches the collector.
\<close>

locale reviewed_source =
  fixes reviewed :: "pydict \<Rightarrow> bool"
    and fields :: "string list"
    and safe :: "pyv \<Rightarrow> bool"
  assumes reviewed_item: "reviewed record \<Longrightarrow> (k, v) \<in> set record \<Longrightarrow> k \<in> set fields \<and> safe v"
begin

lemma wire_items:
  assumes "new_sink endpoint service capacity = Inr s" "sink_run s acts s'" "w \<in> set (sk_wire s')"
    and "\<And>t record. Submit t record \<in> set acts \<Longrightarrow> reviewed record"
  shows "\<exists>batch. w = dumps json_compact (payload service batch) \<and>
    (\<forall>x \<in> set batch. \<exists>record. snd x = dumps json_compact (PDict record) \<and>
       (\<forall>(k, v) \<in> set record. k \<in> set fields \<and> safe v))"
proof -
  have "wire_inv service acts s'"
    using sink_run_wire [OF assms(2)] new_sink_wire [OF assms(1)] by simp
  then have "reviewed_wire service acts w"
    using assms(3) by (auto simp: wire_inv_def list_all_iff)
  then obtain batch where b: "w = dumps json_compact (payload service batch)"
    "\<forall>x \<in> set batch. from_submission acts x"
    by (auto simp: reviewed_wire_def list_all_iff)
  have "\<forall>x \<in> set batch. \<exists>record. snd x = dumps json_compact (PDict record) \<and> reviewed record"
    using b(2) assms(4) unfolding from_submission_def by blast
  then show ?thesis using b(1) reviewed_item by fast
qed

end

section \<open>Properties\<close>

text \<open>
  A sender that exists posts only to an in-cluster address.  After the removal that \<open>urlsplit\<close>
  does, the endpoint is \<open>http://\<close>, a host that is the loopback address or the telemetry collector of
  a namespace, an explicit port, the path \<open>/v1/logs\<close>, and nothing else but empty user, query and
  fragment marks.
\<close>

theorem new_sink_internal:
  assumes "new_sink endpoint service capacity = Inr s"
  shows "\<exists>scheme user host port mark.
    clean_url (sk_endpoint s) =
      scheme @ ''://'' @ user @ host @ '':'' @ port @ ''/v1/logs'' @ mark \<and>
    map ascii_lower scheme = ''http'' \<and> user \<in> {[], ''@'', '':@''} \<and>
    (str_lower host = ''127.0.0.1'' \<or>
     (\<exists>ns. str_lower host = ''telemetry-collector.'' @ ns @ ''.svc.cluster.local'' \<and>
        ns \<noteq> [] \<and> list_all is_label_char ns)) \<and>
    port \<noteq> [] \<and> list_all is_digit port \<and> nat_of_digits port \<le> 65535 \<and> set mark \<subseteq> set ''?#''"
  using check_endpoint_shape [of endpoint] new_sink_eq_Inr [OF assms]
  unfolding internal_host_def fullmatch_collector by simp

definition example_endpoint :: string where
  "example_endpoint = ''http://127.0.0.1:4318/v1/logs''"

definition example_sink :: sink where
  "example_sink =
     \<lparr>sk_endpoint = example_endpoint, sk_service = ''sglang-router'', sk_capacity = 1,
      sk_queue = [], sk_stop = False, sk_sent = 0, sk_dropped = 0, sk_failures = 0,
      sk_unfinished = 0, sk_phase = Waiting, sk_wire = []\<rparr>"

lemmas url_eval = check_endpoint_def urlsplit_def clean_url_def split_scheme_def split_netloc_def
  str_partition_def str_rpartition_def startswith_def is_scheme_char_def is_netloc_char_def
  ascii_lower_def url_hostname_def url_hostinfo_def url_userinfo_def url_port_def contains_def
  str_lower_def kelvin_sign_def nat_of_digits_def is_lower_def is_upper_def is_digit_def

lemma example_check: "check_endpoint example_endpoint = Inr ()"
  by (simp add: example_endpoint_def url_eval)

lemma example_service: "fullmatch rx_service ''sglang-router''"
  by (simp add: rx_service_def fullmatch_Alt)

lemma example_sink_new: "new_sink example_endpoint ''sglang-router'' 1 = Inr example_sink"
  by (simp add: new_sink_def example_sink_def example_check example_service)

lemma new_sink_internal_witness:
  "\<exists>scheme user host port mark.
    clean_url (sk_endpoint example_sink) =
      scheme @ ''://'' @ user @ host @ '':'' @ port @ ''/v1/logs'' @ mark \<and>
    map ascii_lower scheme = ''http'' \<and> user \<in> {[], ''@'', '':@''} \<and>
    (str_lower host = ''127.0.0.1'' \<or>
     (\<exists>ns. str_lower host = ''telemetry-collector.'' @ ns @ ''.svc.cluster.local'' \<and>
        ns \<noteq> [] \<and> list_all is_label_char ns)) \<and>
    port \<noteq> [] \<and> list_all is_digit port \<and> nat_of_digits port \<le> 65535 \<and> set mark \<subseteq> set ''?#''"
  using new_sink_internal [OF example_sink_new] .


definition example_acts :: "sink_act list" where
  "example_acts = [Submit 1 [], Submit 2 [], Get, Post,
     Answer (Reply 200 (Inr [])), Finish]"

fun sink_steps :: "sink \<Rightarrow> sink_act list \<Rightarrow> sink option" where
  "sink_steps s [] = Some s"
| "sink_steps s (a # acts) = (case sink_step a s of None \<Rightarrow> None | Some s' \<Rightarrow> sink_steps s' acts)"

lemma sink_steps_run: "sink_run s0 done s \<Longrightarrow> sink_steps s acts = Some s' \<Longrightarrow> sink_run s0 (done @ acts) s'"
proof (induction acts arbitrary: s "done")
  case (Cons a acts)
  then obtain t where t: "sink_step a s = Some t" "sink_steps t acts = Some s'"
    by (auto split: option.splits)
  then have "sink_run s0 (done @ [a]) t" using Cons.prems(1) sink_run_step by blast
  then show ?case using Cons.IH t(2) by fastforce
qed simp

lemma example_sink_steps:
  "\<exists>s'. sink_steps example_sink example_acts = Some s' \<and> sk_wire s' \<noteq> []"
  by (simp add: example_sink_def example_acts_def submit_def dumps_def json_compact_def
      json_default_def post_next_def attempt_def numeral_2_eq_2)


text \<open>
  C15: the collector receives only what was submitted.  Every request body is one batch of 1 to 32
  records for the sender's service, and every record's body is the serialised form, of at most 4096
  bytes, of a record a caller submitted.
\<close>

theorem sink_posts_submissions:
  assumes "new_sink endpoint service capacity = Inr s" "sink_run s acts s'" "w \<in> set (sk_wire s')"
  shows "\<exists>batch. w = dumps json_compact (payload service batch) \<and> batch \<noteq> [] \<and> length batch \<le> 32 \<and>
    (\<forall>x \<in> set batch. \<exists>record. Submit (fst x) record \<in> set acts \<and>
        snd x = dumps json_compact (PDict record) \<and> length (snd x) \<le> 4096)"
proof -
  have "wire_inv service acts s'"
    using sink_run_wire [OF assms(2)] new_sink_wire [OF assms(1)] by simp
  then have "reviewed_wire service acts w"
    using assms(3) by (auto simp: wire_inv_def list_all_iff)
  then show ?thesis by (auto simp: reviewed_wire_def list_all_iff from_submission_def)
qed

lemma sink_posts_submissions_witness:
  "\<exists>s' w. sink_run example_sink example_acts s' \<and> w \<in> set (sk_wire s') \<and>
    (\<exists>batch. w = dumps json_compact (payload ''sglang-router'' batch) \<and> batch \<noteq> [] \<and>
    length batch \<le> 32 \<and>
    (\<forall>x \<in> set batch. \<exists>record. Submit (fst x) record \<in> set example_acts \<and>
        snd x = dumps json_compact (PDict record) \<and> length (snd x) \<le> 4096))"
proof -
  obtain s' where "sink_steps example_sink example_acts = Some s'" "sk_wire s' \<noteq> []"
    using example_sink_steps by blast
  then obtain w where s: "sink_steps example_sink example_acts = Some s'" "w \<in> set (sk_wire s')"
    using list.set_sel(1) by blast
  then have run: "sink_run example_sink example_acts s'"
    using sink_steps_run [OF sink_run_nil] by fastforce
  then show ?thesis using sink_posts_submissions [OF example_sink_new run s(2)] s(2) by blast
qed

end
