(* ===== verification/Private_Router.thy ===== *)
theory Private_Router
  imports Log_Sink
begin

text \<open>
  \<open>images/sglang-router/private_router.py\<close>: the wrapper that runs the prefill/decode router and lets
  only a fixed set of error fields reach the container's output and the log collector.  The child's
  output and exit code, the arguments, the environment and the clock are arguments of the definitions.
\<close>

definition router_EVENTS :: "string list" where
  "router_EVENTS =
     [''worker_response_read_failed'', ''worker_proxy_failed'', ''pair_selection_failed'',
      ''request_serialization_failed'', ''worker_error_body_invalid_json'',
      ''worker_request_prepare_failed'', ''paired_decode_cancelled'', ''worker_http_error'',
      ''worker_request_failed'', ''response_serialization_failed'']"

definition BLOCKED_FLAGS :: "string list" where
  "BLOCKED_FLAGS = [''--log-dir'', ''--enable-trace'', ''--otlp-traces-endpoint'']"

section \<open>The filter\<close>

definition with_status :: "pydict \<Rightarrow> pydict \<Rightarrow> pydict option" where
  "with_status record result =
     (case map_of record ''status'' of
        None \<Rightarrow> Some result
      | Some (PInt status) \<Rightarrow>
          if 100 \<le> status \<and> status \<le> 599 then Some (dset ''status'' (PInt status) result) else None
      | Some _ \<Rightarrow> None)"

definition router_reviewed_event :: "pyv \<Rightarrow> pydict option" where
  "router_reviewed_event v =
     (case v of
        PDict record \<Rightarrow>
          (case (map_of record ''ci_event'', case map_of record ''role'' of None \<Rightarrow> PStr ''router'' | Some r \<Rightarrow> r) of
             (Some (PStr event), PStr role) \<Rightarrow>
               if event \<notin> set router_EVENTS then None
               else if role \<notin> {''prefill'', ''decode'', ''router''} then None
               else with_status record [(''event'', PStr event), (''role'', PStr role)]
           | _ \<Rightarrow> None)
      | _ \<Rightarrow> None)"

section \<open>Emitting a record\<close>

definition own_events :: "string list" where
  "own_events = [''router_config_rejected'', ''router_exit'', ''router_failed'', ''diagnostic_delivery_failed'']"

definition own_fields :: "string list" where
  "own_fields = [''role'', ''code'', ''exported'', ''dropped'', ''pending'', ''failures'']"

text \<open>The record that \<open>emit(event, **fields)\<close> writes, or the \<open>ValueError\<close> it raises.\<close>

definition invalid_fields :: "'a res" where
  "invalid_fields = Inl (Exn ValueError ''invalid diagnostic fields'')"

definition emit_value :: "string \<Rightarrow> pydict \<Rightarrow> pydict res" where
  "emit_value event kwargs =
     (if event \<in> set own_events
      then (if map_of kwargs ''role'' \<noteq> Some (PStr ''router'') \<or> \<not> sub_keys (dkeys kwargs) own_fields
            then invalid_fields
            else if list_ex (\<lambda>(k, v). k \<noteq> ''role'' \<and> \<not> bounded_int v) kwargs
            then invalid_fields
            else Inr (dupdate [(''event'', PStr event)] kwargs))
      else (case router_reviewed_event (PDict (dupdate [(''ci_event'', PStr event)] kwargs)) of
              None \<Rightarrow> invalid_fields
            | Some value \<Rightarrow> Inr value))"

definition router_emit :: "string \<Rightarrow> string \<Rightarrow> pyv \<Rightarrow> pydict \<Rightarrow> pydict res" where
  "router_emit stamp revision event kwargs =
     (case event of
        PStr e \<Rightarrow>
          bnd (emit_value e kwargs) (\<lambda>value.
            Inr (dupdate [(''timestamp'', PStr stamp), (''source_revision'', PStr revision)] value))
      | _ \<Rightarrow> Inl (Exn ValueError ''invalid diagnostic event''))"

text \<open>\<open>emit(**value)\<close>: the entry \<open>event\<close> becomes the first argument.\<close>

definition emit_kwargs :: "string \<Rightarrow> string \<Rightarrow> pydict \<Rightarrow> pydict res" where
  "emit_kwargs stamp revision value =
     (case map_of value ''event'' of
        None \<Rightarrow> type_error
      | Some event \<Rightarrow> router_emit stamp revision event (ddel ''event'' value))"

section \<open>Reading the child's output\<close>

text \<open>\<open>readline(n)\<close>: up to a line break, the line break included, at most \<open>n\<close> bytes.\<close>

fun readline :: "nat \<Rightarrow> string \<Rightarrow> string \<times> string" where
  "readline 0 s = ([], s)"
| "readline (Suc n) [] = ([], [])"
| "readline (Suc n) (c # s) =
     (if c = CHR 0x0A then ([c], s) else (case readline n s of (l, r) \<Rightarrow> (c # l, r)))"

lemma readline_append: "readline n s = (l, r) \<Longrightarrow> s = l @ r"
  by (induction n s arbitrary: l r rule: readline.induct) (auto split: if_splits prod.splits)

lemma readline_shorter: "readline (Suc n) (c # s) = (l, r) \<Longrightarrow> length r < Suc (length s)"
  using readline_append [of "Suc n" "c # s" l r]
  by (auto split: if_splits prod.splits dest!: readline_append)

text \<open>The inner loop: the rest of a line that is too long.\<close>

function skip_line :: "string \<Rightarrow> string \<Rightarrow> string" where
  "skip_line line rest =
     (if line \<noteq> [] \<and> \<not> endswith line line_feed
      then (case readline 8193 rest of (l, r) \<Rightarrow> skip_line l r) else rest)"
  by auto
termination
  by (relation "measure (\<lambda>(line, rest). 2 * length rest + (if line = [] then 0 else 1))")
    (auto split: prod.splits dest!: readline_append)

declare skip_line.simps [simp del]

definition line_event :: "string \<Rightarrow> pydict option res" where
  "line_event line =
     try_except (bnd (loads_bytes line) (\<lambda>v. Inr (router_reviewed_event v)))
       [ValueError, UnicodeError] (\<lambda>_. Inr None)"

lemma skip_line_shorter: "length (skip_line line rest) \<le> length rest"
proof (induction line rest rule: skip_line.induct)
  case (1 line rest)
  show ?case
  proof (cases "line \<noteq> [] \<and> \<not> endswith line line_feed")
    case True
    obtain l r where lr: "readline 8193 rest = (l, r)" by fastforce
    then have "length (skip_line l r) \<le> length r" using 1 [OF True lr [symmetric]] by simp
    moreover have "length r \<le> length rest" using readline_append [OF lr] by simp
    ultimately show ?thesis using True lr by (subst skip_line.simps) simp
  next
    case False
    then show ?thesis by (subst skip_line.simps) auto
  qed
qed

lemma readline_rest_shorter:
  assumes "readline 8193 out = (line, rest)" "line \<noteq> []"
  shows "length rest < length out" "length (skip_line line rest) < length out"
  using readline_append [OF assms(1)] assms(2) skip_line_shorter [of line rest] by (auto simp: neq_Nil_conv)

text \<open>
  The read loop: the records the child's output gives, in order, and the exception that ended the
  loop, if one did.  \<open>k\<close> numbers the records so far, for their time stamps.
\<close>

function relay :: "(nat \<Rightarrow> string) \<Rightarrow> string \<Rightarrow> nat \<Rightarrow> string \<Rightarrow> pydict list \<times> exn option" where
  "relay stamp revision k out =
     (case readline 8193 out of (line, rest) \<Rightarrow>
        if line = [] then ([], None)
        else if length line > 8192 then relay stamp revision k (skip_line line rest)
        else (case line_event line of
                Inl e \<Rightarrow> ([], Some e)
              | Inr None \<Rightarrow> relay stamp revision k rest
              | Inr (Some v) \<Rightarrow>
                  (case emit_kwargs (stamp k) revision v of
                     Inl e \<Rightarrow> ([], Some e)
                   | Inr record \<Rightarrow>
                       (case relay stamp revision (Suc k) rest of (records, e) \<Rightarrow> (record # records, e)))))"
  by auto

termination
  by (relation "measure (\<lambda>(_, _, _, out). length out)")
    (auto dest!: sym [of "(_, _)"] simp: readline_rest_shorter)

declare relay.simps [simp del]

section \<open>The wrapper\<close>

record router_in =
  ri_argv :: "string list"                     \<comment> \<open>\<open>sys.argv[1:]\<close>\<close>
  ri_environ :: "(string \<times> string) list"
  ri_executable :: string
  ri_stamp :: "nat \<Rightarrow> string"              \<comment> \<open>the time stamp of each record\<close>
  ri_output :: string                          \<comment> \<open>what the child writes until it closes its output\<close>
  ri_exit :: int                               \<comment> \<open>\<open>child.wait()\<close>\<close>
  ri_signals :: "int list"                     \<comment> \<open>the signals the wrapper receives meanwhile\<close>
  ri_sender :: sink                            \<comment> \<open>the sender when \<open>close\<close> reads its counters\<close>

record router_out =
  ro_stdout :: "pydict list"
  ro_sunk :: "pydict list"                     \<comment> \<open>the records submitted to the sender\<close>
  ro_child :: "(string list \<times> (string \<times> string) list) option"
  ro_group :: "int list"                       \<comment> \<open>the signals sent to the child's group\<close>
  ro_code :: int

definition blocked_flag :: "string \<Rightarrow> bool" where
  "blocked_flag argument =
     (startswith (flag_of argument) ''--'' \<and>
      list_ex (\<lambda>blocked. startswith blocked (flag_of argument)) BLOCKED_FLAGS)"

definition own_record :: "router_in \<Rightarrow> nat \<Rightarrow> string \<Rightarrow> pydict \<Rightarrow> pydict res" where
  "own_record w k event kwargs =
     router_emit (ri_stamp w k) (source_revision (map_of (ri_environ w))) (PStr event)
       ((''role'', PStr ''router'') # kwargs)"

text \<open>The last \<open>except\<close>: one more record and exit code 1.\<close>

definition router_failed :: "router_in \<Rightarrow> router_out \<Rightarrow> router_out" where
  "router_failed w out =
     (case own_record w (length (ro_stdout out)) ''router_failed'' [] of
        Inl _ \<Rightarrow> out\<lparr>ro_code := 1\<rparr>
      | Inr r \<Rightarrow> out\<lparr>ro_stdout := ro_stdout out @ [r], ro_code := 1\<rparr>)"

definition child_environ :: "(string \<times> string) list \<Rightarrow> (string \<times> string) list" where
  "child_environ environ =
     ddel ''PYTHONFAULTHANDLER'' (ddel ''RUST_BACKTRACE''
       (dset ''RUST_LOG'' ''smg::routers::http::pd_router=warn'' environ))"

definition child_command :: "router_in \<Rightarrow> string list" where
  "child_command w =
     [ri_executable w, ''-m'', ''sglang_router.launch_router''] @ ri_argv w @
     [''--json-log'', ''--log-level'', ''warn'']"

text \<open>The body of the \<open>try\<close>: the records and the exit code, or the exception.\<close>

definition router_body :: "router_in \<Rightarrow> pydict list \<times> exn option" where
  "router_body w =
     (case relay (ri_stamp w) (source_revision (map_of (ri_environ w))) 0 (ri_output w) of
        (records, Some e) \<Rightarrow> (records, Some e)
      | (records, None) \<Rightarrow>
          if ri_exit w \<noteq> 0
          then (case own_record w (length records) ''router_exit'' [(''code'', PInt (ri_exit w))] of
                  Inl e \<Rightarrow> (records, Some e)
                | Inr r \<Rightarrow> (records @ [r], None))
          else (records, None))"

text \<open>The delivery report of the \<open>finally\<close> clause.\<close>

definition delivery_report :: "router_in \<Rightarrow> bool \<Rightarrow> nat \<Rightarrow> pydict option res" where
  "delivery_report w has_sink k =
     (let s = ri_sender w in
      if has_sink \<and> (sk_dropped s \<noteq> 0 \<or> sk_unfinished s \<noteq> 0 \<or> sk_failures s \<noteq> 0)
      then bnd (own_record w k ''diagnostic_delivery_failed'' (close_report s)) (\<lambda>r. Inr (Some r))
      else Inr None)"

definition router_main :: "router_in \<Rightarrow> router_out" where
  "router_main w =
     (let nothing = \<lparr>ro_stdout = [], ro_sunk = [], ro_child = None, ro_group = [], ro_code = 0\<rparr> in
      case from_environment (map_of (ri_environ w)) of
        Inl _ \<Rightarrow> router_failed w nothing
      | Inr sender \<Rightarrow>
          (let has_sink = (sender \<noteq> None) in
           if list_ex blocked_flag (ri_argv w)
           then (case own_record w 0 ''router_config_rejected'' [] of
                   Inl _ \<Rightarrow> router_failed w nothing
                 | Inr r \<Rightarrow> nothing\<lparr>ro_stdout := [r], ro_sunk := if has_sink then [r] else [], ro_code := 2\<rparr>)
           else
             (let (records, raised) = router_body w;
                  out = \<lparr>ro_stdout = records, ro_sunk = if has_sink then records else [],
                       ro_child = Some (child_command w, child_environ (ri_environ w)),
                       ro_group = ri_signals w @ [9],
                       ro_code = if ri_exit w \<ge> 0 then ri_exit w else 128 - ri_exit w\<rparr>
              in case delivery_report w has_sink (length records) of
                   Inl _ \<Rightarrow> router_failed w out
                 | Inr report \<Rightarrow>
                     (let out' = out\<lparr>ro_stdout := records @ (case report of None \<Rightarrow> [] | Some r \<Rightarrow> [r])\<rparr>
                      in if raised \<noteq> None then router_failed w out' else out'))))"

section \<open>Only reviewed items\<close>

definition router_fields :: "string list" where
  "router_fields = [''timestamp'', ''source_revision'', ''event'', ''role'', ''status'', ''code'',
     ''exported'', ''dropped'', ''pending'', ''failures'']"

text \<open>The strings a record may hold: time stamps, the revision, event names and roles.\<close>

definition router_word :: "(nat \<Rightarrow> string) \<Rightarrow> string \<Rightarrow> bool" where
  "router_word stamp s \<longleftrightarrow>
     (\<exists>k. s = stamp k) \<or> fullmatch rx_commit s \<or> s = ''unknown'' \<or>
     s \<in> set router_EVENTS \<or> s \<in> set own_events \<or> s \<in> {''prefill'', ''decode'', ''router''}"

definition router_safe :: "(nat \<Rightarrow> string) \<Rightarrow> pyv \<Rightarrow> bool" where
  "router_safe stamp v \<longleftrightarrow> (case v of PStr s \<Rightarrow> router_word stamp s | _ \<Rightarrow> bounded_int v)"

definition router_item :: "(nat \<Rightarrow> string) \<Rightarrow> string \<times> pyv \<Rightarrow> bool" where
  "router_item stamp = (\<lambda>(k, v). k \<in> set router_fields \<and> router_safe stamp v)"

lemma router_reviewed_shape:
  assumes "router_reviewed_event v = Some r"
  shows "\<exists>event role. event \<in> set router_EVENTS \<and> role \<in> {''prefill'', ''decode'', ''router''} \<and>
    (r = [(''event'', PStr event), (''role'', PStr role)] \<or>
     (\<exists>status. 100 \<le> status \<and> status \<le> 599 \<and>
        r = [(''event'', PStr event), (''role'', PStr role), (''status'', PInt status)]))"
  using assms
  by (auto simp: router_reviewed_event_def with_status_def split: pyv.splits option.splits if_splits)

lemma router_reviewed_items: "router_reviewed_event v = Some r \<Longrightarrow> list_all (router_item stamp) r"
  by (drule router_reviewed_shape)
    (auto simp: router_item_def router_fields_def router_safe_def router_word_def bounded_int_def)

lemma emit_value_items:
  assumes "emit_value event kwargs = Inr value" "dict_ok kwargs"
  shows "list_all (router_item stamp) value"
proof (cases "event \<in> set own_events")
  case True
  with assms have c: "map_of kwargs ''role'' = Some (PStr ''router'')"
    "set (dkeys kwargs) \<subseteq> set own_fields" "\<forall>(k, v) \<in> set kwargs. k = ''role'' \<or> bounded_int v"
    and val: "value = dupdate [(''event'', PStr event)] kwargs"
    by (auto simp: emit_value_def invalid_fields_def sub_keys_iff list_ex_iff split: if_splits)
  have "router_item stamp (k, v)" if kv: "(k, v) \<in> set kwargs" for k v
  proof (cases "k = ''role''")
    case True
    then have "v = PStr ''router''" using c(1) kv assms(2) by (auto simp: dict_ok_def dkeys_def)
    then show ?thesis using True
      by (simp add: router_item_def router_fields_def router_safe_def router_word_def)
  next
    case False
    then have v: "bounded_int v" and k: "k \<in> set own_fields" using c kv by (force simp: dkeys_def)+
    have "router_safe stamp v" using v by (auto simp: router_safe_def bounded_int_def split: pyv.splits)
    then show ?thesis using k by (auto simp: router_item_def router_fields_def own_fields_def)
  qed
  then have "list_all (router_item stamp) kwargs" by (auto simp: list_all_iff)
  moreover have "router_item stamp (''event'', PStr event)"
    using True by (simp add: router_item_def router_fields_def router_safe_def router_word_def)
  ultimately show ?thesis unfolding val by (intro list_all_dupdate) simp_all
next
  case False
  then show ?thesis using assms router_reviewed_items
    by (auto simp: emit_value_def invalid_fields_def split: option.splits)
qed

lemma router_emit_eq_Inr:
  "router_emit stamp revision event kwargs = Inr record \<Longrightarrow>
    \<exists>e w. event = PStr e \<and> emit_value e kwargs = Inr w \<and>
      record = dupdate [(''timestamp'', PStr stamp), (''source_revision'', PStr revision)] w"
  by (cases event) (auto simp: router_emit_def elim!: bndE)

text \<open>The records \<open>emit\<close> hands to the output and to the sender.\<close>

definition router_emitted :: "(nat \<Rightarrow> string) \<Rightarrow> pydict \<Rightarrow> bool" where
  "router_emitted stamp record \<longleftrightarrow>
     (\<exists>k revision event kwargs. good_revision revision \<and> dict_ok kwargs \<and>
        router_emit (stamp k) revision event kwargs = Inr record)"

lemma router_emitted_items:
  assumes "router_emitted stamp record" shows "list_all (router_item stamp) record"
proof -
  obtain k revision event kwargs w where
    rev: "good_revision revision" and e: "emit_value event kwargs = Inr w" "dict_ok kwargs" and
    r: "record = dupdate [(''timestamp'', PStr (stamp k)), (''source_revision'', PStr revision)] w"
    using assms unfolding router_emitted_def by (metis router_emit_eq_Inr)
  have "list_all (router_item stamp)
      [(''timestamp'', PStr (stamp k)), (''source_revision'', PStr revision)]"
    using rev by (auto simp: router_item_def router_fields_def router_safe_def router_word_def
        good_revision_def)
  then show ?thesis unfolding r using emit_value_items [OF e] by (rule list_all_dupdate)
qed

interpretation router: reviewed_source "router_emitted stamp" router_fields "router_safe stamp"
  for stamp
  by unfold_locales (use router_emitted_items in \<open>fastforce simp: list_all_iff router_item_def\<close>)

section \<open>The read loop is a filter on lines\<close>

text \<open>The lines of the child's output, with their line breaks.\<close>

definition first_line :: "string \<Rightarrow> string" where
  "first_line s = takeWhile (\<lambda>c. c \<noteq> CHR 0x0A) s @ take 1 (dropWhile (\<lambda>c. c \<noteq> CHR 0x0A) s)"

definition other_lines :: "string \<Rightarrow> string" where
  "other_lines s = drop 1 (dropWhile (\<lambda>c. c \<noteq> CHR 0x0A) s)"

lemma other_lines_shorter: "length (other_lines (c # s)) < Suc (length s)"
  using length_dropWhile_le [of "\<lambda>c. c \<noteq> CHR 0x0A" "s"] by (auto simp: other_lines_def)

function output_lines :: "string \<Rightarrow> string list" where
  "output_lines [] = []"
| "output_lines (c # s) = first_line (c # s) # output_lines (other_lines (c # s))"
  by pat_completeness auto
termination
  by (relation "measure length") (auto simp: other_lines_shorter)

text \<open>What a line of at most 8192 bytes gives.\<close>

definition line_value :: "string \<Rightarrow> pydict option" where
  "line_value line =
     (if length line > 8192 then None
      else (case loads_bytes line of Inl _ \<Rightarrow> None | Inr v \<Rightarrow> router_reviewed_event v))"

definition stamped :: "(nat \<Rightarrow> string) \<Rightarrow> string \<Rightarrow> nat \<times> pydict \<Rightarrow> pydict" where
  "stamped stamp revision = (\<lambda>(k, value).
     [(''timestamp'', PStr (stamp k)), (''source_revision'', PStr revision)] @ value)"

lemma line_event_value: "length line \<le> 8192 \<Longrightarrow> line_event line = Inr (line_value line)"
  using loads_bytes_raises [of line]
  by (cases "loads_bytes line") (auto simp: line_event_def line_value_def try_except_def
      intro: value_error_caught)

lemma emit_kwargs_reviewed:
  assumes "router_reviewed_event v = Some r"
  shows "emit_kwargs stamp revision r =
    Inr ([(''timestamp'', PStr stamp), (''source_revision'', PStr revision)] @ r)"
proof -
  obtain event role where e: "event \<in> set router_EVENTS" and r: "role \<in> {''prefill'', ''decode'', ''router''}"
    and "r = [(''event'', PStr event), (''role'', PStr role)] \<or>
     (\<exists>status. 100 \<le> status \<and> status \<le> 599 \<and>
        r = [(''event'', PStr event), (''role'', PStr role), (''status'', PInt status)])"
    using router_reviewed_shape [OF assms] by blast
  moreover have "event \<notin> set own_events" using e by (auto simp: router_EVENTS_def own_events_def)
  ultimately show ?thesis
    by (auto simp: emit_kwargs_def router_emit_def emit_value_def router_reviewed_event_def
        with_status_def ddel_def dupdate_def)
qed

lemma lines_simps [simp]:
  "first_line [] = []" "other_lines [] = []"
  "first_line (c # s) = (if c = CHR 0x0A then [c] else c # first_line s)"
  "other_lines (c # s) = (if c = CHR 0x0A then s else other_lines s)"
  by (simp_all add: first_line_def other_lines_def)

lemma readline_line:
  "readline n s = (l, r) \<Longrightarrow> length (first_line s) \<le> n \<Longrightarrow> l = first_line s \<and> r = other_lines s"
proof (induction n s arbitrary: l r rule: readline.induct)
  case (1 s)
  then show ?case by (cases s) (auto split: if_splits)
qed (auto split: if_splits prod.splits)

lemma endswith_Cons: "endswith (c # s) [x] \<longleftrightarrow> (if s = [] then c = x else endswith s [x])"
  by (auto simp: endswith_iff Cons_eq_append_conv)

lemma readline_long:
  "readline n s = (l, r) \<Longrightarrow> n < length (first_line s) \<Longrightarrow>
     length l = n \<and> \<not> endswith l line_feed \<and> other_lines r = other_lines s \<and> r \<noteq> []"
proof (induction n s arbitrary: l r rule: readline.induct)
  case (1 s)
  then show ?case by (auto simp: endswith_def line_feed_def)
next
  case (3 n c s)
  then show ?case
    by (auto simp: line_feed_def endswith_Cons split: if_splits prod.splits)
qed simp

lemma last_line: "\<not> endswith (first_line s) line_feed \<Longrightarrow> other_lines s = []"
  by (induction s) (auto simp: endswith_Cons line_feed_def endswith_iff [of "[]"] split: if_splits)

lemma skip_line_lines:
  "(line \<noteq> [] \<and> \<not> endswith line line_feed \<longrightarrow> skip_line line rest = other_lines rest) \<and>
   (\<not> (line \<noteq> [] \<and> \<not> endswith line line_feed) \<longrightarrow> skip_line line rest = rest)"
proof (induction line rest rule: skip_line.induct)
  case (1 line rest)
  obtain l r where lr: "readline 8193 rest = (l, r)" by fastforce
  note ih = 1 [OF _ lr [symmetric]]
  consider "length (first_line rest) \<le> 8193" | "8193 < length (first_line rest)" by linarith
  then show ?case
  proof cases
    case 1
    then have l: "l = first_line rest" "r = other_lines rest" using readline_line [OF lr] by auto
    show ?thesis
    proof (cases "l \<noteq> [] \<and> \<not> endswith l line_feed")
      case True
      then have "other_lines rest = []" unfolding l using last_line by blast
      then show ?thesis using ih lr True l by (subst (1 2) skip_line.simps) auto
    next
      case False
      then show ?thesis using ih lr l by (subst (1 2) skip_line.simps) auto
    qed
  next
    case 2
    then show ?thesis using ih lr readline_long [OF lr 2] by (subst (1 2) skip_line.simps) auto
  qed
qed

lemma output_lines_eq: "s \<noteq> [] \<Longrightarrow> output_lines s = first_line s # output_lines (other_lines s)"
  by (cases s) auto

lemma skip_first_line: "s \<noteq> [] \<Longrightarrow> skip_line (first_line s) (other_lines s) = other_lines s"
  using skip_line_lines [of "first_line s" "other_lines s"] last_line [of s]
  by (cases "endswith (first_line s) line_feed") auto

lemma skip_long:
  assumes "readline 8193 s = (l, r)" "8192 < length (first_line s)"
  shows "skip_line l r = other_lines s \<and> 8192 < length l"
proof (cases "length (first_line s) \<le> 8193")
  case True
  then show ?thesis using readline_line [OF assms(1)] skip_first_line [of s] assms(2)
    by (cases s) auto
next
  case False
  then show ?thesis using readline_long [OF assms(1)] skip_line_lines [of l r] by auto
qed

lemma relay_filter:
  "relay stamp revision k out =
     (map (stamped stamp revision) (enumerate k (List.map_filter line_value (output_lines out))), None)"
proof (induction stamp revision k out rule: relay.induct)
  case (1 stamp revision k out)
  obtain line rest where lr: "readline 8193 out = (line, rest)" by fastforce
  show ?case
  proof (cases "out = []")
    case True
    then show ?thesis by (subst relay.simps) (simp add: numeral_eq_Suc map_filter_simps)
  next
    case out: False
    note lines = output_lines_eq [OF out]
    have first: "first_line out \<noteq> []" using out by (cases out) auto
    show ?thesis
    proof (cases "length (first_line out) \<le> 8192")
      case True
      then have l: "line = first_line out" "rest = other_lines out" using readline_line [OF lr] by auto
      have ev: "line_event line = Inr (line_value line)" using line_event_value l True by simp
      show ?thesis
      proof (cases "line_value line")
        case None
        then show ?thesis using 1(2) [OF lr [symmetric]] lr l first True ev lines
          by (subst relay.simps) (simp add: map_filter_simps)
      next
        case (Some v)
        then obtain u where "router_reviewed_event u = Some v"
          by (auto simp: line_value_def split: if_splits sum.splits)
        note e = emit_kwargs_reviewed [OF this, of "stamp k" revision]
        show ?thesis using 1(3) [OF lr [symmetric]] lr l first True ev lines Some e
          by (subst relay.simps) (simp add: map_filter_simps stamped_def)
      qed
    next
      case False
      have rest: "skip_line line rest = other_lines out" "8192 < length line" "line \<noteq> []"
        using skip_long [OF lr] False by auto
      moreover have "line_value (first_line out) = None" using False by (simp add: line_value_def)
      ultimately show ?thesis using 1(1) [OF lr [symmetric]] lr lines
        by (subst relay.simps) (simp add: map_filter_simps)
    qed
  qed
qed

section \<open>Every record is an emitted one\<close>

lemma dict_ok_own [simp]:
  "dict_ok [(''role'', r)]" "dict_ok [(''role'', r), (''code'', c)]"
  "dict_ok ((''role'', r) # close_report s)"
  by (simp_all add: dict_ok_def dkeys_def close_report_def)

lemma own_record_emitted:
  "own_record w k event kwargs = Inr r \<Longrightarrow> dict_ok ((''role'', PStr ''router'') # kwargs) \<Longrightarrow>
     router_emitted (ri_stamp w) r"
  using source_revision_good unfolding own_record_def router_emitted_def by blast

lemma emit_kwargs_emitted:
  assumes "router_reviewed_event v = Some r" "good_revision revision"
  shows "router_emitted stamp (stamped stamp revision (k, r))"
proof -
  have "dict_ok (ddel ''event'' r)"
    using router_reviewed_shape [OF assms(1)] by (auto simp: dict_ok_def dkeys_def ddel_def)
  moreover obtain event where "router_emit (stamp k) revision event (ddel ''event'' r) =
      Inr (stamped stamp revision (k, r))"
    using emit_kwargs_reviewed [OF assms(1), of "stamp k" revision]
    by (auto simp: emit_kwargs_def stamped_def split: option.splits)
  ultimately show ?thesis using assms(2) unfolding router_emitted_def by blast
qed

lemma set_map_filter: "set (List.map_filter f xs) = {y. \<exists>x \<in> set xs. f x = Some y}"
  by (induction xs) (auto simp: map_filter_simps split: option.splits)

lemma line_value_Some: "line_value l = Some v \<Longrightarrow> \<exists>u. router_reviewed_event u = Some v"
  by (auto simp: line_value_def split: if_splits sum.splits)

lemma relay_emitted:
  assumes "r \<in> set (fst (relay stamp revision k out))" "good_revision revision"
  shows "router_emitted stamp r"
proof -
  obtain i v where r: "r = stamped stamp revision (i, v)"
    and "v \<in> set (List.map_filter line_value (output_lines out))"
    using assms(1) by (auto simp: relay_filter in_set_enumerate_eq)
  then obtain u where "router_reviewed_event u = Some v"
    using line_value_Some by (auto simp: set_map_filter)
  then show ?thesis unfolding r using emit_kwargs_emitted assms(2) by blast
qed

lemma router_body_emitted:
  "r \<in> set (fst (router_body w)) \<Longrightarrow> router_emitted (ri_stamp w) r"
  using relay_emitted [OF _ source_revision_good, of r "ri_stamp w" "map_of (ri_environ w)" 0 "ri_output w"]
  by (auto simp: router_body_def relay_filter intro: own_record_emitted split: if_splits sum.splits)

lemma router_failed_emitted:
  "(\<And>r. r \<in> set (ro_stdout out) \<Longrightarrow> router_emitted (ri_stamp w) r) \<Longrightarrow>
   r \<in> set (ro_stdout (router_failed w out)) \<Longrightarrow> router_emitted (ri_stamp w) r"
  by (auto simp: router_failed_def intro: own_record_emitted split: sum.splits)

lemma router_failed_frame [simp]:
  "ro_sunk (router_failed w out) = ro_sunk out" "ro_child (router_failed w out) = ro_child out"
  "ro_group (router_failed w out) = ro_group out" "ro_code (router_failed w out) = 1"
  by (auto simp: router_failed_def split: sum.splits)

lemma delivery_report_emitted:
  "delivery_report w b k = Inr (Some r) \<Longrightarrow> router_emitted (ri_stamp w) r"
  by (auto simp: delivery_report_def Let_def intro: own_record_emitted elim!: bndE split: if_splits)

lemma router_main_emitted:
  assumes "r \<in> set (ro_stdout (router_main w)) \<union> set (ro_sunk (router_main w))"
  shows "router_emitted (ri_stamp w) r"
proof -
  obtain records raised where b: "router_body w = (records, raised)" by fastforce
  have body: "router_emitted (ri_stamp w) x" if "x \<in> set records" for x
    using router_body_emitted [of x w] b that by simp
  show ?thesis
    using assms b
    by (auto simp: router_main_def Let_def
        intro: body own_record_emitted delivery_report_emitted
        elim!: router_failed_emitted [rotated]
        split: sum.splits option.splits if_splits)
qed

section \<open>Properties\<close>

text \<open>
  C10: whatever the router child prints, every record the wrapper writes to its output or submits to
  the collector has only the ten reviewed fields, and every value is a time stamp, the source
  revision, a fixed event name or role, or an integer of less than 64 bits.
\<close>

theorem router_output_private:
  "\<forall>record \<in> set (ro_stdout (router_main w) @ ro_sunk (router_main w)).
     list_all (\<lambda>(k, v). k \<in> set router_fields \<and> router_safe (ri_stamp w) v) record"
proof
  fix r assume "r \<in> set (ro_stdout (router_main w) @ ro_sunk (router_main w))"
  then have "router_emitted (ri_stamp w) r" using router_main_emitted by simp
  from router_emitted_items [OF this]
  show "list_all (\<lambda>(k, v). k \<in> set router_fields \<and> router_safe (ri_stamp w) v) r"
    unfolding router_item_def .
qed

definition example_router :: router_in where
  "example_router =
     \<lparr>ri_argv = [''--port'', ''30000''], ri_environ = [], ri_executable = ''python3'',
      ri_stamp = (\<lambda>k. ''t''), ri_output = [], ri_exit = 1, ri_signals = [15],
      ri_sender = example_sink\<rparr>"

lemma blocked_flag_example: "\<not> list_ex blocked_flag (ri_argv example_router)"
  by (simp add: example_router_def blocked_flag_def flag_of_def startswith_def BLOCKED_FLAGS_def)

lemma source_revision_example: "source_revision Map.empty = ''unknown''"
  by (simp add: source_revision_def fullmatch_commit)

lemma example_router_out:
  "\<exists>r. ro_stdout (router_main example_router) = [r] \<and> ro_sunk (router_main example_router) = []"
  using blocked_flag_example
  by (simp add: router_main_def from_environment_def example_router_def router_body_def relay_filter
      map_filter_simps own_record_def router_emit_def emit_value_def own_events_def own_fields_def
      sub_keys_def dkeys_def bounded_int_def delivery_report_def)

lemma router_output_private_witness:
  "\<exists>record \<in> set (ro_stdout (router_main example_router)).
     list_all (\<lambda>(k, v). k \<in> set router_fields \<and> router_safe (ri_stamp example_router) v) record"
  using router_output_private [of example_router] example_router_out by auto

text \<open>
  C11: the read loop, which reads at most 8193 bytes at a time and skips the rest of a line that is
  too long, is the filter it stands for: it ends without an exception, and its records are those of
  the lines of at most 8192 bytes that hold a reviewed event, in order, each with the next time stamp.
\<close>

theorem relay_is_line_filter:
  "relay stamp revision k out =
     (map (\<lambda>(i, value). [(''timestamp'', PStr (stamp i)), (''source_revision'', PStr revision)] @ value)
        (enumerate k
           (List.map_filter
              (\<lambda>line. if length line > 8192 then None
                      else (case loads_bytes line of Inl _ \<Rightarrow> None | Inr v \<Rightarrow> router_reviewed_event v))
              (output_lines out))), None)"
  using relay_filter [of stamp revision k out] unfolding stamped_def line_value_def [abs_def] .

text \<open>
  C12: from the router to the collector.  If every record submitted to the sender is one of the
  wrapper's, every body on the wire is the serialised form of a record with reviewed fields and safe
  values only.
\<close>

theorem router_wire_private:
  assumes "new_sink endpoint service capacity = Inr s" "sink_run s acts s'" "body \<in> set (sk_wire s')"
    and "\<forall>t record. Submit t record \<in> set acts \<longrightarrow> record \<in> set (ro_sunk (router_main w))"
  shows "\<exists>batch. body = dumps json_compact (payload service batch) \<and>
    (\<forall>x \<in> set batch. \<exists>record. snd x = dumps json_compact (PDict record) \<and>
       (\<forall>(k, v) \<in> set record. k \<in> set router_fields \<and> router_safe (ri_stamp w) v))"
  by (rule router.wire_items [OF assms(1-3)]) (use assms(4) router_main_emitted in blast)

definition example_router2 :: router_in where
  "example_router2 = example_router\<lparr>ri_environ :=
     [(''OTEL_EXPORTER_OTLP_LOGS_ENDPOINT'', example_endpoint)]\<rparr>"

definition example_record :: pydict where
  "example_record = [(''timestamp'', PStr ''t''), (''source_revision'', PStr ''unknown''),
     (''event'', PStr ''router_exit''), (''role'', PStr ''router''), (''code'', PInt 1)]"

lemma example_endpoint_nonempty: "example_endpoint \<noteq> []"
  by (simp add: example_endpoint_def)

lemma example_router2_sunk: "ro_sunk (router_main example_router2) = [example_record]"
  using blocked_flag_example example_endpoint_nonempty
  by (simp add: router_main_def from_environment_def new_sink_def example_check example_service
      example_router2_def example_router_def example_record_def router_body_def relay_filter
      map_filter_simps own_record_def router_emit_def emit_value_def own_events_def own_fields_def
      sub_keys_def dkeys_def bounded_int_def delivery_report_def source_revision_def fullmatch_commit
      dupdate_def example_sink_def)

lemma example_record_short: "length (dumps json_compact (PDict example_record)) \<le> 4096"
  by code_simp

lemma example_router_steps:
  "\<exists>s'. sink_steps example_sink [Submit 1 example_record, Get, Post] = Some s' \<and> sk_wire s' \<noteq> []"
  using example_record_short by (simp add: example_sink_def submit_def post_next_def)

lemma router_wire_private_witness:
  "\<exists>s' body. sink_run example_sink [Submit 1 example_record, Get, Post] s' \<and>
    body \<in> set (sk_wire s') \<and>
    (\<exists>batch. body = dumps json_compact (payload ''sglang-router'' batch) \<and>
    (\<forall>x \<in> set batch. \<exists>record. snd x = dumps json_compact (PDict record) \<and>
       (\<forall>(k, v) \<in> set record. k \<in> set router_fields \<and> router_safe (ri_stamp example_router2) v)))"
proof -
  obtain s' where s': "sink_steps example_sink [Submit 1 example_record, Get, Post] = Some s'"
    "sk_wire s' \<noteq> []"
    using example_router_steps by blast
  then obtain body where body: "body \<in> set (sk_wire s')" using list.set_sel(1) by blast
  have run: "sink_run example_sink [Submit 1 example_record, Get, Post] s'"
    using sink_steps_run [OF sink_run_nil s'(1)] by simp
  show ?thesis
    using router_wire_private [OF example_sink_new run body, of example_router2]
      example_router2_sunk run body by auto
qed



end
