(* ===== verification/Pair_Events.thy ===== *)
theory Pair_Events
  imports Log_Sink
begin

text \<open>
  The stateless half of \<open>images/sglang/pair_supervisor.py\<close>: the filter of diagnostic records, the
  validation of the pair's configuration, and the verdict on one rank from the record its scheduler
  writes.  What \<open>stat\<close>, \<open>read_text\<close> and \<open>kill\<close> answer are arguments.  A clock reading is a rational
  number; the rounding of its arithmetic is not modelled.
\<close>

section \<open>Reviewed events\<close>

definition ROLES :: "string list" where
  "ROLES = [''prefill'', ''decode'']"

definition EVENTS :: "string list" where
  "EVENTS =
     [''rank_failed'', ''watchdog_timeout'', ''communicator_abort_timeout'',
      ''child_exit'', ''progress_stale'', ''startup_timeout'', ''shutdown_timeout'',
      ''supervisor_failed'', ''cuda_error'', ''nccl_error'', ''diagnostic_failed'',
      ''kv_transfer_failed'',
      ''status_request_failed'', ''rank_progress_failed'',
      ''stack_frame'', ''stack_dump_complete'', ''stack_dump_unavailable'',
      ''communicator_abort_started'', ''communicator_abort_finished'',
      ''communicator_abort_failed'', ''fatal_exit_deadline'',
      ''nccl_collective'', ''nccl_snapshot'', ''nccl_snapshot_unavailable'',
      ''scheduler_snapshot'', ''scheduler_snapshot_unavailable'',
      ''gpu_event_query_failed'',
      ''diagnostic_delivery_failed'']"

definition NUMBER_FIELDS :: "string list" where
  "NUMBER_FIELDS =
     [''rank'', ''code'', ''count'', ''bytes'', ''queue_depth'', ''sequence'', ''duration_ms'',
      ''age_ms'', ''gpu_pending_ms'', ''thread'', ''frame'', ''line'', ''rejected'',
      ''created_ns'', ''started_ns'', ''completed_ns'', ''timeout_ms'',
      ''stage_code'', ''batch_size'', ''input_tokens'', ''output_tokens'',
      ''step_age_ms'', ''last_step_ms'', ''exported'', ''dropped'', ''pending'', ''failures'', ''group_id'']"

definition COLLECTIVES :: "string list" where
  "COLLECTIVES = [''all_reduce'', ''broadcast'', ''reduce'', ''all_gather'', ''reduce_scatter'',
     ''all_to_all'', ''send'', ''recv'', ''barrier'']"

definition STATES :: "string list" where
  "STATES = [''scheduled'', ''started'', ''completed'']"

definition event_fields :: "string list" where
  "event_fields = [''event'', ''role'', ''location'', ''op'', ''state''] @ NUMBER_FIELDS"

text \<open>\<open>type(d.get(k)) is str and d[k] in words\<close>.\<close>

definition word_in :: "pydict \<Rightarrow> string \<Rightarrow> string list \<Rightarrow> bool" where
  "word_in d k words = (case map_of d k of Some (PStr s) \<Rightarrow> s \<in> set words | _ \<Rightarrow> False)"

definition location_ok :: "string list \<Rightarrow> pydict \<Rightarrow> bool" where
  "location_ok locations d =
     (if ''location'' \<in> set (dkeys d)
      then map_of d ''event'' = Some (PStr ''stack_frame'') \<and> word_in d ''location'' locations
      else map_of d ''event'' \<noteq> Some (PStr ''stack_frame''))"

definition collective_ok :: "pydict \<Rightarrow> bool" where
  "collective_ok d =
     (if ''op'' \<in> set (dkeys d) \<or> ''state'' \<in> set (dkeys d) \<or>
         map_of d ''event'' = Some (PStr ''nccl_collective'')
      then map_of d ''event'' = Some (PStr ''nccl_collective'') \<and> word_in d ''op'' COLLECTIVES \<and>
           word_in d ''state'' STATES \<and> sub_keys [''rank'', ''sequence'', ''count''] (dkeys d)
      else True)"

definition numbers_ok :: "pydict \<Rightarrow> bool" where
  "numbers_ok d = list_all (\<lambda>(k, v). k \<in> set NUMBER_FIELDS \<longrightarrow> bounded_int v) d"

definition line_ok :: "pydict \<Rightarrow> bool" where
  "line_ok d = (case map_of d ''line'' of Some (PInt n) \<Rightarrow> 1 \<le> n \<and> n \<le> 1000000 | _ \<Rightarrow> True)"

definition reviewed_event :: "string list \<Rightarrow> pyv \<Rightarrow> pydict option" where
  "reviewed_event locations v =
     (case v of
        PDict d \<Rightarrow>
          if sub_keys [''event'', ''role''] (dkeys d) \<and> sub_keys (dkeys d) event_fields \<and>
             word_in d ''event'' EVENTS \<and> word_in d ''role'' (ROLES @ [''pair'']) \<and>
             location_ok locations d \<and> collective_ok d \<and> numbers_ok d \<and> line_ok d
          then Some d else None
      | _ \<Rightarrow> None)"

text \<open>The record of \<open>emit(event, role, **fields)\<close>, or the \<open>ValueError\<close> it raises.\<close>

definition emit_event :: "string list \<Rightarrow> string \<Rightarrow> string \<Rightarrow> pydict \<Rightarrow> pydict res" where
  "emit_event locations event role kwargs =
     (case reviewed_event locations (PDict (dupdate [(''event'', PStr event), (''role'', PStr role)] kwargs)) of
        None \<Rightarrow> Inl (Exn ValueError ''invalid diagnostic record'')
      | Some d \<Rightarrow> Inr d)"

definition emit_record :: "int \<Rightarrow> string \<Rightarrow> string \<Rightarrow> pydict \<Rightarrow> pydict" where
  "emit_record now run_id revision d =
     dupdate [(''timestamp_ns'', PInt now), (''run_id'', PStr run_id), (''source_revision'', PStr revision)] d"

section \<open>Configuration\<close>

text \<open>\<open>set(v)\<close> of the keys or elements of a value, compared with a set of names.\<close>

definition key_set :: "pyv \<Rightarrow> pyv list res" where
  "key_set v = bnd (jiter v) py_set"

definition names_are :: "pyv list \<Rightarrow> string list \<Rightarrow> bool" where
  "names_are ks names =
     (list_all (\<lambda>k. k \<in> set (map PStr names)) ks \<and> list_all (\<lambda>n. PStr n \<in> set ks) names)"

definition config_error :: "string \<Rightarrow> exn" where
  "config_error m = Exn ValueError m"

text \<open>\<open>not v or any(type(x) is not str for x in v)\<close>.\<close>

definition not_strings :: "pyv \<Rightarrow> bool res" where
  "not_strings v =
     (if \<not> truthy v then Inr True else bnd (jiter v) (\<lambda>xs. Inr (list_ex (\<lambda>x. \<not> is_str x) xs)))"

definition unsafe_flags :: "string list" where
  "unsafe_flags = [''--log-requests'', ''--log-requests-target'', ''--enable-trace'',
     ''--crash-dump-folder'', ''--debug-tensor-dump-output-folder'']"

definition unsafe_flag :: "string \<Rightarrow> bool" where
  "unsafe_flag argument =
     (startswith (flag_of argument) ''--'' \<and>
      list_ex (\<lambda>blocked. startswith blocked (flag_of argument)) unsafe_flags)"

definition pair_control :: "string \<Rightarrow> bool" where
  "pair_control k = (startswith k ''SGLANG_PAIR_'' \<or> k \<in> {''CUDA_VISIBLE_DEVICES'', ''SGLANG_HOST_IP''})"

definition artifact_parts :: "string list" where
  "artifact_parts = [''DUMP'', ''TRACE'', ''PROFILER'', ''LOG_REQUEST'', ''DEBUG_INFO'', ''REPRO'',
     ''SAVE_ARGS'', ''LOGGING_CONFIG'']"

definition artifact_key :: "string \<Rightarrow> bool" where
  "artifact_key k =
     (list_ex (\<lambda>part. contains part k) artifact_parts \<or>
      k \<in> {''NCCL_DEBUG_FILE'', ''TORCH_COMPILE_DEBUG'', ''TORCH_LOGS'', ''TORCH_LOGS_OUT'',
           ''PYTHONFAULTHANDLER''})"

definition int_between :: "int \<Rightarrow> int \<Rightarrow> pyv \<Rightarrow> bool" where
  "int_between lo hi v = (case v of PInt i \<Rightarrow> lo \<le> i \<and> i \<le> hi | _ \<Rightarrow> False)"

text \<open>\<open>v in ports\<close> for a set of values.\<close>

definition port_seen :: "pyv list \<Rightarrow> pyv \<Rightarrow> bool res" where
  "port_seen ports v = (if hashable v then Inr (list_ex (py_eq v) ports) else type_error)"

definition check_env :: "pyv \<Rightarrow> unit res" where
  "check_env env =
     (case env of
        PDict d \<Rightarrow>
          bnd (raise_if (list_ex (\<lambda>(_, v). \<not> is_str v) d) (config_error ''invalid worker environment'')) (\<lambda>_.
          bnd (raise_if (list_ex pair_control (dkeys d)) (config_error ''worker overrides pair controls'')) (\<lambda>_.
            raise_if (list_ex artifact_key (dkeys d))
              (config_error ''unreviewed diagnostic artifacts are disabled'')))
      | _ \<Rightarrow> Inl (config_error ''invalid worker environment''))"

definition worker_fields :: "string list" where
  "worker_fields = [''role'', ''gpus'', ''ranks'', ''port'', ''command'', ''env'']"

text \<open>The body of the loop over the workers; the set of ports grows.\<close>

definition check_worker :: "pyv list \<Rightarrow> pyv \<Rightarrow> pyv list res" where
  "check_worker ports w =
     bnd (key_set w) (\<lambda>keys.
     bnd (raise_if (\<not> names_are keys worker_fields) (config_error ''invalid worker configuration'')) (\<lambda>_.
     bnd (jidx w ''gpus'') (\<lambda>gpus. bnd (jidx w ''ranks'') (\<lambda>ranks.
     bnd (raise_if (\<not> int_between 1 8 gpus \<or> \<not> py_eq ranks gpus)
            (config_error ''unsupported worker ranks'')) (\<lambda>_.
     bnd (jidx w ''port'') (\<lambda>port.
     bnd (port_seen ports port) (\<lambda>seen.
     bnd (raise_if (seen \<or> \<not> int_between 1024 65534 port) (config_error ''invalid worker port'')) (\<lambda>_.
     bnd (jidx w ''command'') (\<lambda>command.
     bnd (raise_ifM (not_strings command) (config_error ''invalid worker command'')) (\<lambda>_.
     bnd (jiter command) (\<lambda>arguments.
     bnd (mapM str_method arguments) (\<lambda>arguments.
     bnd (raise_if (list_ex unsafe_flag arguments)
            (config_error ''unreviewed diagnostic output is disabled'')) (\<lambda>_.
     bnd (bnd (jidx w ''env'') check_env) (\<lambda>_.
       Inr (ports @ [port])))))))))))))))"

definition config_fields :: "string list" where
  "config_fields = [''workers'', ''modelGate'', ''statusPort'', ''progressTimeoutSeconds'',
     ''startupTimeoutSeconds'', ''shutdownTimeoutSeconds'']"

definition check_timeout :: "pyv \<Rightarrow> string \<Rightarrow> unit res" where
  "check_timeout config key =
     bnd (jidx config key) (\<lambda>v. raise_if (\<not> int_between 1 86400 v) (config_error ''invalid timeout''))"

definition validate_config :: "pyv \<Rightarrow> unit res" where
  "validate_config config =
     bnd (key_set config) (\<lambda>keys.
     bnd (raise_if (\<not> names_are keys config_fields) (config_error ''invalid pair configuration'')) (\<lambda>_.
     bnd (raise_ifM (bnd (jidx config ''modelGate'') not_strings)
            (config_error ''model verification command is required'')) (\<lambda>_.
     bnd (jidx config ''workers'') (\<lambda>workers.
     bnd (jlen workers) (\<lambda>n.
     bnd (if n \<noteq> 2 then Inr False
          else bnd (jiter workers) (\<lambda>ws. bnd (mapM (\<lambda>w. jidx w ''role'') ws) (\<lambda>roles.
               bnd (py_set roles) (\<lambda>roles. Inr (names_are roles ROLES))))) (\<lambda>ok.
     bnd (raise_if (\<not> ok) (config_error ''one worker of each role is required'')) (\<lambda>_.
     bnd (jidx config ''statusPort'') (\<lambda>status_port.
     bnd (if hashable status_port then Inr () else type_error) (\<lambda>_.
     bnd (jiter workers) (\<lambda>ws.
     bnd (foldM check_worker [status_port] ws) (\<lambda>_.
     bnd (raise_if (\<not> int_between 1024 65534 status_port) (config_error ''invalid status port'')) (\<lambda>_.
       for_each (check_timeout config)
         [''progressTimeoutSeconds'', ''startupTimeoutSeconds'', ''shutdownTimeoutSeconds'']))))))))))))"

section \<open>The verdict on a rank\<close>

definition rank_fields :: "string list" where
  "rank_fields = [''pid'', ''state'', ''updated'', ''completed'', ''pending_since'']"

text \<open>
  \<open>type(v) not in {int, float} or not math.isfinite(v) or v < 0 or v > now + 1\<close>.  \<open>isfinite\<close> raises
  \<open>OverflowError\<close> on an integer beyond the floats.
\<close>

definition bad_number :: "rat \<Rightarrow> pyv \<Rightarrow> bool res" where
  "bad_number now v =
     (case v of
        PInt i \<Rightarrow>
          (case float_of (of_int i) of
             Flt _ \<Rightarrow> Inr (i < 0 \<or> of_int i > now + 1)
           | _ \<Rightarrow> Inl (Exn OverflowError []))
      | PFloat (Flt q) \<Rightarrow> Inr (q < 0 \<or> q > now + 1)
      | _ \<Rightarrow> Inr True)"

fun number :: "pyv \<Rightarrow> rat" where
  "number (PInt i) = of_int i"
| "number (PFloat (Flt q)) = q"
| "number _ = 0"

text \<open>\<open>os.kill(pid, 0)\<close>: the process identifier is a C \<open>int\<close>.\<close>

definition os_kill0 :: "(int \<Rightarrow> unit res) \<Rightarrow> int \<Rightarrow> unit res" where
  "os_kill0 alive pid = (if pid \<ge> 2 ^ 31 then Inl (Exn OverflowError []) else alive pid)"

text \<open>The answers to \<open>stat().st_size\<close>, \<open>read_text()\<close> and the signal 0, in the order they are asked.\<close>

record rank_view =
  v_size :: "nat res"
  v_text :: "string res"
  v_alive :: "int \<Rightarrow> unit res"

definition rank_verdict :: "rat \<Rightarrow> rat \<Rightarrow> pyv \<Rightarrow> string \<Rightarrow> string res" where
  "rank_verdict now timeout record state =
     (if state = ''failed'' then Inr ''failed''
      else if state = ''starting'' then Inr ''starting''
      else bnd (jidx record ''updated'') (\<lambda>updated.
        if now - number updated > timeout then Inr ''failed''
        else bnd (jidx record ''pending_since'') (\<lambda>pending.
          if state = ''busy'' \<and> (\<not> truthy pending \<or> now - number pending > timeout)
          then Inr ''failed'' else Inr ''ready'')))"

text \<open>The checks once the process identifier is known.\<close>

definition rank_live :: "rank_view \<Rightarrow> rat \<Rightarrow> rat \<Rightarrow> pyv \<Rightarrow> int \<Rightarrow> (string \<times> int option) res" where
  "rank_live v now timeout record pid =
     bnd (os_kill0 (v_alive v) pid) (\<lambda>_.
     bnd (anyM (\<lambda>key. bnd (jidx record key) (bad_number now))
            [''updated'', ''completed'', ''pending_since'']) (\<lambda>bad.
     if bad then Inr (''failed'', Some pid)
     else bnd (jidx record ''state'') (\<lambda>state.
       bnd (in_strs state [''starting'', ''idle'', ''busy'', ''failed'']) (\<lambda>ok.
       if \<not> ok then Inr (''failed'', Some pid)
       else bnd (str_method state) (\<lambda>st.
         bnd (rank_verdict now timeout record st) (\<lambda>verdict. Inr (verdict, Some pid)))))))"

definition rank_known :: "rank_view \<Rightarrow> rat \<Rightarrow> rat \<Rightarrow> int option \<Rightarrow> pyv \<Rightarrow> pyv \<Rightarrow> (string \<times> int option) res" where
  "rank_known v now timeout known_pid record p =
     (case p of
        PInt pid \<Rightarrow>
          if pid \<le> 0 \<or> (known_pid \<noteq> None \<and> known_pid \<noteq> Some pid) then Inr (''failed'', known_pid)
          else rank_live v now timeout record pid
      | _ \<Rightarrow> Inr (''failed'', known_pid))"

definition rank_body :: "rank_view \<Rightarrow> rat \<Rightarrow> rat \<Rightarrow> int option \<Rightarrow> (string \<times> int option) res" where
  "rank_body v now timeout known_pid =
     bnd (v_size v) (\<lambda>size.
     if size > 1024 then Inr (''failed'', known_pid)
     else bnd (bnd (v_text v) loads) (\<lambda>record.
     bnd (key_set record) (\<lambda>keys.
     if \<not> names_are keys rank_fields then Inr (''failed'', known_pid)
     else bnd (jidx record ''pid'') (rank_known v now timeout known_pid record))))"

definition rank_status :: "rank_view \<Rightarrow> rat \<Rightarrow> rat \<Rightarrow> int option \<Rightarrow> (string \<times> int option) res" where
  "rank_status v now timeout known_pid =
     (case rank_body v now timeout known_pid of
        Inr r \<Rightarrow> Inr r
      | Inl e \<Rightarrow>
          if catches [FileNotFoundError, ProcessLookupError] e
          then Inr (if known_pid = None then ''starting'' else ''failed'', known_pid)
          else if catches [OSError, ValueError, TypeError, KeyError] e then Inr (''failed'', known_pid)
          else Inl e)"

text \<open>\<open>min(2**63 - 1, max(0, int(x * 1000)))\<close>.\<close>

definition to_ms :: "rat \<Rightarrow> int" where
  "to_ms x = min (2 ^ 63 - 1) (max 0 (if x < 0 then \<lceil>x * 1000\<rceil> else \<lfloor>x * 1000\<rfloor>))"

definition failure_code :: "rat \<Rightarrow> rat \<Rightarrow> pyv \<Rightarrow> pyv \<Rightarrow> pyv \<Rightarrow> int" where
  "failure_code now timeout state updated pending =
     (if state = PStr ''failed'' then 5
      else if now - number updated > timeout then 2
      else if state = PStr ''busy'' \<and> truthy pending \<and> now - number pending > timeout then 3
      else 6)"

definition details_of :: "rank_view \<Rightarrow> rat \<Rightarrow> rat \<Rightarrow> pyv \<Rightarrow> pyv \<Rightarrow> pyv \<Rightarrow> pyv \<Rightarrow> pydict res" where
  "details_of v now timeout updated pending p state =
     (let more = (''age_ms'', PInt (to_ms (now - number updated))) #
            (if truthy pending then [(''gpu_pending_ms'', PInt (to_ms (now - number pending)))] else []) in
      case p of
        PInt pid \<Rightarrow>
          if pid \<le> 0 then Inr [(''code'', PInt 1)]
          else (case os_kill0 (v_alive v) pid of
                  Inl e \<Rightarrow> if catches [ProcessLookupError] e then Inr ((''code'', PInt 4) # more) else Inl e
                | Inr _ \<Rightarrow> Inr ((''code'', PInt (failure_code now timeout state updated pending)) # more))
      | _ \<Rightarrow> Inr [(''code'', PInt 1)])"

definition details_body :: "rank_view \<Rightarrow> rat \<Rightarrow> rat \<Rightarrow> pydict res" where
  "details_body v now timeout =
     bnd (v_size v) (\<lambda>size.
     if size > 1024 then Inr [(''code'', PInt 1)]
     else bnd (bnd (v_text v) loads) (\<lambda>record.
     bnd (key_set record) (\<lambda>keys.
     if \<not> names_are keys rank_fields then Inr [(''code'', PInt 1)]
     else bnd (anyM (\<lambda>key. bnd (jidx record key) (bad_number now)) [''updated'', ''pending_since'']) (\<lambda>bad.
     if bad then Inr [(''code'', PInt 1)]
     else bnd (jidx record ''updated'') (\<lambda>updated. bnd (jidx record ''pending_since'') (\<lambda>pending.
       bnd (jidx record ''pid'') (\<lambda>p. bnd (jidx record ''state'') (\<lambda>state.
         details_of v now timeout updated pending p state))))))))"

definition rank_failure_details :: "rank_view \<Rightarrow> rat \<Rightarrow> rat \<Rightarrow> pydict res" where
  "rank_failure_details v now timeout =
     try_except (details_body v now timeout) [OSError, ValueError, TypeError, KeyError]
       (\<lambda>_. Inr [(''code'', PInt 1)])"

section \<open>Only reviewed items\<close>

definition pair_fields :: "string list" where
  "pair_fields = [''timestamp_ns'', ''run_id'', ''source_revision''] @ event_fields"

text \<open>The strings a record may hold, for the code locations and the run identifier of this process.\<close>

definition pair_word :: "string list \<Rightarrow> string \<Rightarrow> string \<Rightarrow> bool" where
  "pair_word locations run_id s \<longleftrightarrow>
     s = run_id \<or> good_revision s \<or> s \<in> set EVENTS \<or> s \<in> set ROLES \<or> s = ''pair'' \<or>
     s \<in> set locations \<or> s \<in> set COLLECTIVES \<or> s \<in> set STATES"

definition pair_safe :: "string list \<Rightarrow> string \<Rightarrow> pyv \<Rightarrow> bool" where
  "pair_safe locations run_id v \<longleftrightarrow>
     (case v of PStr s \<Rightarrow> pair_word locations run_id s | _ \<Rightarrow> bounded_int v)"

definition pair_item :: "string list \<Rightarrow> string \<Rightarrow> string \<times> pyv \<Rightarrow> bool" where
  "pair_item locations run_id = (\<lambda>(k, v). k \<in> set pair_fields \<and> pair_safe locations run_id v)"

lemma reviewed_event_dict: "reviewed_event locations v = Some d \<Longrightarrow> v = PDict d"
  by (auto simp: reviewed_event_def split: pyv.splits if_splits)

lemma word_in_item:
  "dict_ok d \<Longrightarrow> (k, v) \<in> set d \<Longrightarrow> word_in d k words \<Longrightarrow> \<exists>s \<in> set words. v = PStr s"
  by (auto simp: word_in_def dict_ok_def dkeys_def split: option.splits pyv.splits)

lemma bounded_int_safe: "bounded_int v \<Longrightarrow> pair_safe locations run_id v"
  by (auto simp: pair_safe_def bounded_int_def split: pyv.splits)

lemma reviewed_event_items:
  assumes "reviewed_event locations v = Some d" "dict_ok d"
  shows "list_all (pair_item locations run_id) d"
proof -
  have c: "set (dkeys d) \<subseteq> set event_fields" "word_in d ''event'' EVENTS"
    "word_in d ''role'' (ROLES @ [''pair''])" "location_ok locations d" "collective_ok d" "numbers_ok d"
    using assms(1) by (auto simp: reviewed_event_def sub_keys_iff split: pyv.splits if_splits)
  have "pair_item locations run_id (k, x)" if kx: "(k, x) \<in> set d" for k x
  proof -
    have key: "k \<in> set (dkeys d)" using kx by (force simp: dkeys_def)
    then have k: "k \<in> set event_fields" using c(1) by blast
    note word = word_in_item [OF assms(2) kx]
    have words: "\<exists>s. x = PStr s \<and> pair_word locations run_id s"
      if "k \<notin> set NUMBER_FIELDS"
    proof -
      from that k consider "k = ''event''" | "k = ''role''" | "k = ''location''" | "k = ''op''" | "k = ''state''"
        by (auto simp: event_fields_def)
      then show ?thesis
      proof cases
        case 1
        then show ?thesis using word c(2) by (auto simp: pair_word_def)
      next
        case 2
        then show ?thesis using word [of "ROLES @ [''pair'']"] c(3) by (auto simp: pair_word_def)
      next
        case 3
        then show ?thesis using word c(4) key by (auto simp: pair_word_def location_ok_def)
      next
        case 4
        then show ?thesis using word c(5) key by (auto simp: pair_word_def collective_ok_def)
      next
        case 5
        then show ?thesis using word c(5) key by (auto simp: pair_word_def collective_ok_def)
      qed
    qed
    have "pair_safe locations run_id x"
    proof (cases "k \<in> set NUMBER_FIELDS")
      case True
      then have "bounded_int x" using c(6) kx by (auto simp: numbers_ok_def list_all_iff)
      then show ?thesis by (rule bounded_int_safe)
    next
      case False
      then show ?thesis using words by (auto simp: pair_safe_def)
    qed
    then show ?thesis using k by (simp add: pair_item_def pair_fields_def)
  qed
  then show ?thesis by (auto simp: list_all_iff)
qed

text \<open>The records the supervisor hands to its output and to the sender.\<close>

definition pair_emitted :: "string list \<Rightarrow> string \<Rightarrow> pydict \<Rightarrow> bool" where
  "pair_emitted locations run_id record \<longleftrightarrow>
     (\<exists>now revision d. bounded_int (PInt now) \<and> good_revision revision \<and> dict_ok d \<and>
        reviewed_event locations (PDict d) = Some d \<and> record = emit_record now run_id revision d)"

lemma pair_emitted_items:
  assumes "pair_emitted locations run_id record"
  shows "list_all (pair_item locations run_id) record"
proof -
  obtain now revision d where d: "bounded_int (PInt now)" "good_revision revision" "dict_ok d"
    "reviewed_event locations (PDict d) = Some d" and r: "record = emit_record now run_id revision d"
    using assms unfolding pair_emitted_def by blast
  have "list_all (pair_item locations run_id)
    [(''timestamp_ns'', PInt now), (''run_id'', PStr run_id), (''source_revision'', PStr revision)]"
    using d(1,2) by (simp add: pair_item_def pair_fields_def pair_safe_def pair_word_def)
  then show ?thesis unfolding r emit_record_def
    using reviewed_event_items [OF d(4,3)] by (rule list_all_dupdate)
qed

interpretation pair: reviewed_source "pair_emitted locations run_id" pair_fields
  "pair_safe locations run_id" for locations run_id
  by unfold_locales (use pair_emitted_items in \<open>fastforce simp: list_all_iff pair_item_def\<close>)

section \<open>Ready ranks\<close>

lemma number_bounds:
  "bad_number now v = Inr False \<Longrightarrow> 0 \<le> number v \<and> number v \<le> now + 1"
  by (auto simp: bad_number_def not_le split: pyv.splits pyfloat.splits)

text \<open>What a record that earns the verdict \<open>ready\<close> says.\<close>

definition healthy_record :: "rat \<Rightarrow> rat \<Rightarrow> pyv \<Rightarrow> bool" where
  "healthy_record now timeout record \<longleftrightarrow>
     (\<exists>updated pending state.
        jidx record ''updated'' = Inr updated \<and> jidx record ''pending_since'' = Inr pending \<and>
        jidx record ''state'' = Inr (PStr state) \<and>
        0 \<le> number updated \<and> number updated \<le> now + 1 \<and> now - number updated \<le> timeout \<and>
        (state = ''idle'' \<or>
         state = ''busy'' \<and> truthy pending \<and> 0 \<le> number pending \<and> now - number pending \<le> timeout))"

lemma rank_verdict_ready:
  "rank_verdict now timeout record st = Inr ''ready'' \<Longrightarrow>
    \<exists>updated pending. jidx record ''updated'' = Inr updated \<and> jidx record ''pending_since'' = Inr pending \<and>
      now - number updated \<le> timeout \<and> st \<notin> {''failed'', ''starting''} \<and>
      (st = ''busy'' \<longrightarrow> truthy pending \<and> now - number pending \<le> timeout)"
  by (auto simp: rank_verdict_def elim!: bndE split: if_splits)

lemma os_kill0_eq_Inr: "os_kill0 alive p = Inr u \<Longrightarrow> alive p = Inr () \<and> p < 2 ^ 31"
  by (auto simp: os_kill0_def split: if_splits)

lemma rank_live_cases:
  assumes "rank_live v now timeout r p = Inr (verdict, pid)"
  shows "pid = Some p \<and> (verdict = ''failed'' \<or>
    os_kill0 (v_alive v) p = Inr () \<and>
    (\<forall>key \<in> {''updated'', ''completed'', ''pending_since''}. bnd (jidx r key) (bad_number now) = Inr False) \<and>
    (\<exists>st. jidx r ''state'' = Inr (PStr st) \<and> st \<in> {''starting'', ''idle'', ''busy'', ''failed''} \<and>
       rank_verdict now timeout r st = Inr verdict))"
  using assms unfolding rank_live_def
  by (auto simp: anyM_eq_False str_method_eq_Inr elim!: bndE split: if_splits)

lemma rank_body_known:
  assumes "rank_body v now timeout known = Inr (verdict, pid)"
  shows "verdict = ''failed'' \<and> pid = known \<or>
    (\<exists>p r. 0 < p \<and> (known = None \<or> known = Some p) \<and> bnd (v_text v) loads = Inr r \<and>
       jidx r ''pid'' = Inr (PInt p) \<and> rank_live v now timeout r p = Inr (verdict, pid))"
proof -
  have "verdict = ''failed'' \<and> pid = known \<or>
    (\<exists>r p. bnd (v_text v) loads = Inr r \<and> jidx r ''pid'' = Inr p \<and>
       rank_known v now timeout known r p = Inr (verdict, pid))"
    using assms unfolding rank_body_def by (elim bndE) (auto elim!: bndE split: if_splits)
  moreover have "verdict = ''failed'' \<and> pid = known \<or>
    (\<exists>i. p = PInt i \<and> 0 < i \<and> (known = None \<or> known = Some i) \<and>
      rank_live v now timeout r i = Inr (verdict, pid))"
    if "rank_known v now timeout known r p = Inr (verdict, pid)" for r p
    using that by (cases p) (auto simp: rank_known_def split: if_splits)
  ultimately show ?thesis by blast
qed

text \<open>Once a rank's process identifier is known, no verdict changes it.\<close>

lemma rank_status_pinned:
  assumes "rank_status v now timeout (Some p) = Inr (verdict, pid)" shows "pid = Some p"
  using assms rank_body_known [of v now timeout "Some p" verdict pid] rank_live_cases
  unfolding rank_status_def by (auto split: sum.splits if_splits)

lemma rank_status_ready:
  assumes "rank_status v now timeout known = Inr (''ready'', pid)"
  shows "\<exists>p r. pid = Some p \<and> 0 < p \<and> (known = None \<or> known = Some p) \<and>
    bnd (v_text v) loads = Inr r \<and> jidx r ''pid'' = Inr (PInt p) \<and> v_alive v p = Inr () \<and>
    healthy_record now timeout r"
proof -
  have "rank_body v now timeout known = Inr (''ready'', pid)"
    using assms by (auto simp: rank_status_def split: sum.splits if_splits)
  from rank_body_known [OF this] obtain p r where r: "0 < p" "known = None \<or> known = Some p"
    "bnd (v_text v) loads = Inr r" "jidx r ''pid'' = Inr (PInt p)"
    "rank_live v now timeout r p = Inr (''ready'', pid)" by auto
  from rank_live_cases [OF r(5)] obtain st where live: "pid = Some p" "os_kill0 (v_alive v) p = Inr ()"
    "bnd (jidx r ''updated'') (bad_number now) = Inr False"
    "bnd (jidx r ''pending_since'') (bad_number now) = Inr False"
    "jidx r ''state'' = Inr (PStr st)" "st \<in> {''starting'', ''idle'', ''busy'', ''failed''}"
    "rank_verdict now timeout r st = Inr ''ready''" by auto
  from rank_verdict_ready [OF live(7)] obtain u q where uq: "jidx r ''updated'' = Inr u"
    "jidx r ''pending_since'' = Inr q" "now - number u \<le> timeout" "st \<notin> {''failed'', ''starting''}"
    "st = ''busy'' \<longrightarrow> truthy q \<and> now - number q \<le> timeout" by blast
  have "0 \<le> number u \<and> number u \<le> now + 1" "0 \<le> number q \<and> number q \<le> now + 1"
    using live(3,4) uq(1,2) number_bounds by simp_all
  moreover have "st = ''idle'' \<or> st = ''busy''" using live(6) uq(4) by blast
  ultimately have "healthy_record now timeout r"
    unfolding healthy_record_def using live(5) uq(1,2,3,5) by blast
  then show ?thesis using r live(1) os_kill0_eq_Inr [OF live(2)] by blast
qed

section \<open>Failure details can always be written\<close>

lemma to_ms_bounded: "bounded_int (PInt (to_ms x))"
  by (auto simp: bounded_int_def to_ms_def min_def max_def)

definition details_ok :: "pydict \<Rightarrow> bool" where
  "details_ok d \<longleftrightarrow> dict_ok d \<and> set (dkeys d) \<subseteq> {''code'', ''age_ms'', ''gpu_pending_ms''} \<and>
     list_all (\<lambda>(k, v). bounded_int v) d"

lemma code_bounded:
  "bounded_int (PInt (failure_code now timeout st u q))" "bounded_int (PInt 4)" "bounded_int (PInt 1)"
  by (auto simp: failure_code_def bounded_int_def)

lemma details_of_ok: "details_of v now timeout u q p st = Inr d \<Longrightarrow> details_ok d"
  by (cases p) (auto simp: details_of_def details_ok_def dict_ok_def dkeys_def to_ms_bounded
      code_bounded Let_def split: if_splits sum.splits)

lemma rank_failure_details_ok: "rank_failure_details v now timeout = Inr d \<Longrightarrow> details_ok d"
proof -
  have one: "details_ok [(''code'', PInt 1)]"
    by (simp add: details_ok_def dict_ok_def dkeys_def code_bounded)
  have body: "details_body v now timeout = Inr d \<Longrightarrow> details_ok d"
    unfolding details_body_def 
    by (elim bndE, auto simp: one elim!: bndE split: if_splits, rule details_of_ok, assumption)
  show "rank_failure_details v now timeout = Inr d \<Longrightarrow> details_ok d"
    using body one by (auto simp: rank_failure_details_def try_except_def split: sum.splits if_splits)
qed

section \<open>An accepted configuration\<close>

definition safe_env :: "pydict \<Rightarrow> bool" where
  "safe_env env \<longleftrightarrow>
     (\<forall>(k, v) \<in> set env. is_str v \<and> \<not> pair_control k \<and> \<not> artifact_key k)"

text \<open>A worker of an accepted configuration: its GPUs and its port.\<close>

definition good_worker :: "pyv \<Rightarrow> int \<Rightarrow> int \<Rightarrow> bool" where
  "good_worker w gpus port \<longleftrightarrow>
     jidx w ''gpus'' = Inr (PInt gpus) \<and> 1 \<le> gpus \<and> gpus \<le> 8 \<and>
     (\<exists>ranks. jidx w ''ranks'' = Inr ranks \<and> py_eq ranks (PInt gpus)) \<and>
     jidx w ''port'' = Inr (PInt port) \<and> 1024 \<le> port \<and> port \<le> 65534 \<and>
     (\<exists>env. jidx w ''env'' = Inr (PDict env) \<and> safe_env env) \<and>
     (\<exists>command args. jidx w ''command'' = Inr command \<and> jiter command = Inr (map PStr args) \<and>
        args \<noteq> [] \<and> \<not> list_ex unsafe_flag args)"

lemma int_between_iff: "int_between lo hi v \<longleftrightarrow> (\<exists>i. v = PInt i \<and> lo \<le> i \<and> i \<le> hi)"
  by (auto simp: int_between_def split: pyv.splits)

lemma check_env_safe: "check_env env = Inr () \<Longrightarrow> \<exists>d. env = PDict d \<and> safe_env d"
  by (cases env) (fastforce simp: check_env_def safe_env_def list_ex_iff dkeys_def res_simps elim!: bndE)+

lemma mapM_str_method: "mapM str_method xs = Inr ss \<Longrightarrow> xs = map PStr ss"
  by (induction xs arbitrary: ss) (auto simp: res_simps elim!: bndE)

lemma jiter_truthy: "truthy v \<Longrightarrow> jiter v = Inr xs \<Longrightarrow> xs \<noteq> []"
  by (cases v) auto

lemma check_worker_good:
  assumes "check_worker ports w = Inr ports'"
  shows "\<exists>gpus port. good_worker w gpus port \<and> ports' = ports @ [PInt port] \<and> PInt port \<notin> set ports"
proof -
  obtain gpus ranks port command args where
    g: "jidx w ''gpus'' = Inr gpus" "jidx w ''ranks'' = Inr ranks" "int_between 1 8 gpus" "py_eq ranks gpus"
    and p: "jidx w ''port'' = Inr port" "port_seen ports port = Inr False" "int_between 1024 65534 port"
    and c: "jidx w ''command'' = Inr command" "not_strings command = Inr False"
      "bnd (jiter command) (mapM str_method) = Inr args" "\<not> list_ex unsafe_flag args"
    and e: "bnd (jidx w ''env'') check_env = Inr ()"
    and p': "ports' = ports @ [port]"
    using assms unfolding check_worker_def
    by (elim bndE) (simp add: raise_if_eq_Inr raise_ifM_eq_Inr; blast)
  obtain xs where xs: "jiter command = Inr xs" "mapM str_method xs = Inr args"
    using c(3) by (auto elim: bndE)
  have "truthy command" using c(2) by (auto simp: not_strings_def split: if_splits)
  then have "args \<noteq> []" using jiter_truthy [OF _ xs(1)] mapM_str_method [OF xs(2)] by auto
  moreover have "jiter command = Inr (map PStr args)" using xs mapM_str_method by simp
  moreover obtain i where i: "port = PInt i" "1024 \<le> i" "i \<le> 65534" using p(3) by (auto simp: int_between_iff)
  moreover obtain g' where "gpus = PInt g'" "1 \<le> g'" "g' \<le> 8" using g(3) by (auto simp: int_between_iff)
  moreover have "PInt i \<notin> set ports"
    using p(2) i(1) by (auto simp: port_seen_def list_ex_iff split: if_splits)
  moreover obtain d where "jidx w ''env'' = Inr (PDict d)" "safe_env d"
    using e check_env_safe by (auto elim!: bndE)
  ultimately have "good_worker w g' i" using g p c by (auto simp: good_worker_def)
  then show ?thesis using p' i(1) \<open>PInt i \<notin> set ports\<close> by blast
qed

lemma names_are_iff: "names_are ks names \<longleftrightarrow> set ks = PStr ` set names"
  by (auto simp: names_are_def list_all_iff)

lemma set_dedup_strs: "set (dedup (map PStr ss)) = PStr ` set ss"
  by (induction ss) auto

lemma validate_config_parts:
  assumes "validate_config config = Inr ()"
  obtains w1 w2 a b ports status where
    "jidx config ''workers'' = Inr (PList [w1, w2])"
    "jidx w1 ''role'' = Inr a" "jidx w2 ''role'' = Inr b" "{a, b} = {PStr ''prefill'', PStr ''decode''}"
    "jidx config ''statusPort'' = Inr status" "int_between 1024 65534 status"
    "foldM check_worker [status] [w1, w2] = Inr ports"
    "\<forall>key \<in> {''progressTimeoutSeconds'', ''startupTimeoutSeconds'', ''shutdownTimeoutSeconds''}.
       check_timeout config key = Inr ()"
    "bnd (jidx config ''modelGate'') not_strings = Inr False"
proof -
  obtain workers n ok ws status ports where
    w: "jidx config ''workers'' = Inr workers" "jlen workers = Inr n"
    and ok: "(if n \<noteq> 2 then Inr False
          else bnd (jiter workers) (\<lambda>ws. bnd (mapM (\<lambda>w. jidx w ''role'') ws) (\<lambda>roles.
               bnd (py_set roles) (\<lambda>roles. Inr (names_are roles ROLES))))) = Inr True"
    and s: "jidx config ''statusPort'' = Inr status" "jiter workers = Inr ws"
      "foldM check_worker [status] ws = Inr ports" "int_between 1024 65534 status"
      "for_each (check_timeout config)
         [''progressTimeoutSeconds'', ''startupTimeoutSeconds'', ''shutdownTimeoutSeconds''] = Inr ()"
      "bnd (jidx config ''modelGate'') not_strings = Inr False"
    using assms unfolding validate_config_def
    by (elim bndE) (simp add: raise_if_eq_Inr raise_ifM_eq_Inr; blast)
  obtain roles ks where roles: "mapM (\<lambda>w. jidx w ''role'') ws = Inr roles" "py_set roles = Inr ks"
    "names_are ks ROLES" and n: "n = 2"
    using ok s(2) by (auto elim!: bndE split: if_splits)
  have "\<exists>w1 w2. workers = PList [w1, w2]"
  proof (cases workers)
    case (PList xs)
    then show ?thesis using w(2) n by (auto simp: length_Suc_conv numeral_2_eq_2)
  next
    case (PDict d)
    then show ?thesis using w(2) n s(2) roles(1) by (cases d) (auto elim!: bndE)
  next
    case (PStr t)
    then show ?thesis using w(2) n s(2) roles(1) by (cases t) (auto elim!: bndE)
  qed (use w(2) in auto)
  then obtain w1 w2 where ws: "workers = PList [w1, w2]" "ws = [w1, w2]" using s(2) by auto
  then obtain a b where ab: "jidx w1 ''role'' = Inr a" "jidx w2 ''role'' = Inr b" "roles = [a, b]"
    using roles(1) by (auto elim!: bndE)
  have "dedup [a, b] = ks" using roles(2) unfolding ab(3) py_set_def by (auto split: if_splits)
  then have d: "set (dedup [a, b]) = {PStr ''prefill'', PStr ''decode''}"
    using roles(3) unfolding names_are_iff ROLES_def by auto
  then have "a \<in> {PStr ''prefill'', PStr ''decode''}" by auto
  then obtain x where x: "a = PStr x" by blast
  have "{a, b} = {PStr ''prefill'', PStr ''decode''}"
  proof (cases "b = a")
    case True
    then have "{a} = {PStr ''prefill'', PStr ''decode''}" using d x by simp
    then show ?thesis by auto
  next
    case False
    then show ?thesis using d x by simp
  qed
  moreover have "\<forall>key \<in> {''progressTimeoutSeconds'', ''startupTimeoutSeconds'', ''shutdownTimeoutSeconds''}.
      check_timeout config key = Inr ()"
    using s(5) unfolding for_each_eq_Inr by simp
  ultimately show thesis
    by (intro that [OF w(1) [unfolded ws(1)] ab(1,2) _ s(1) s(4) s(3) [unfolded ws(2)] _ s(6)])
qed

section \<open>Properties\<close>

text \<open>
  A rank is reported ready only on the evidence of its own scheduler.  The record it wrote names a
  live process, the one known from before if there was one; its heartbeat is within the budget; and it
  is idle, or busy with GPU work that has been pending within the budget.
\<close>

theorem rank_ready_sound:
  assumes "rank_status v now timeout known = Inr (''ready'', pid)"
  shows "\<exists>p r. pid = Some p \<and> 0 < p \<and> (known = None \<or> known = Some p) \<and>
    bnd (v_text v) loads = Inr r \<and> jidx r ''pid'' = Inr (PInt p) \<and> v_alive v p = Inr () \<and>
    healthy_record now timeout r"
  using assms by (rule rank_status_ready)

definition example_rank :: pyv where
  "example_rank = PDict [(''pid'', PInt 7), (''state'', PStr ''busy''), (''updated'', PInt 99),
     (''completed'', PInt 90), (''pending_since'', PInt 95)]"

definition example_view :: rank_view where
  "example_view = \<lparr>v_size = Inr 90, v_text = Inr (dumps json_default example_rank), v_alive = (\<lambda>_. Inr ())\<rparr>"

lemma example_rank_loads: "loads (dumps json_default example_rank) = Inr example_rank"
  by (subst loads_dumps)
    (simp_all add: example_rank_def dict_ok_def dkeys_def json_default_def [THEN arg_cong [of _ _ sort_keys]]
      json_default_def [THEN arg_cong [of _ _ ensure_ascii]] str_of_nat.simps)

lemma rank_ready_sound_witness:
  "rank_status example_view 100 30 (Some 7) = Inr (''ready'', Some 7) \<and>
   (\<exists>r. bnd (v_text example_view) loads = Inr r \<and> healthy_record 100 30 r)"
proof -
  have body: "rank_live example_view 100 30 example_rank 7 = Inr (''ready'', Some 7)"
    by (simp add: rank_live_def example_view_def example_rank_def os_kill0_def bad_number_def
        float_of_def in_strs_def rank_verdict_def)
  have keys: "key_set example_rank = Inr (map PStr rank_fields)"
    by (simp add: key_set_def example_rank_def py_set_def rank_fields_def)
  have "rank_status example_view 100 30 (Some 7) = Inr (''ready'', Some 7)"
    using body keys
    by (simp add: rank_status_def rank_body_def example_view_def example_rank_loads names_are_iff
        rank_known_def) (simp add: example_rank_def rank_known_def)
  then show ?thesis using rank_ready_sound by blast
qed

lemma dupdate_fresh: "dict_ok (d @ e) \<Longrightarrow> dupdate d e = d @ e"
proof (induction e arbitrary: d)
  case (Cons x e)
  obtain k v where x: "x = (k, v)" by fastforce
  have "k \<notin> fst ` set d" using Cons.prems x by (auto simp: dict_ok_def dkeys_def)
  then have "dset k v d = d @ [x]" by (simp add: dset_fresh x)
  moreover have "dict_ok ((d @ [x]) @ e)" using Cons.prems by simp
  ultimately show ?case using Cons.IH [of "d @ [x]"] x by (simp add: dupdate_def)
qed (simp add: dupdate_def)



text \<open>
  C24: an accepted configuration has exactly one prefill and one decode worker, between one and eight
  GPUs each, three different ports in range, timeouts between a second and a day, and no flag or
  environment variable of a worker that turns on unreviewed output or overrides the pair's controls.
\<close>

theorem validate_config_sound:
  assumes "validate_config config = Inr ()"
  shows "\<exists>w1 w2 r1 r2 g1 g2 p1 p2 status.
    jidx config ''workers'' = Inr (PList [w1, w2]) \<and> {r1, r2} = {''prefill'', ''decode''} \<and>
    jidx w1 ''role'' = Inr (PStr r1) \<and> jidx w2 ''role'' = Inr (PStr r2) \<and>
    good_worker w1 g1 p1 \<and> good_worker w2 g2 p2 \<and>
    jidx config ''statusPort'' = Inr (PInt status) \<and> 1024 \<le> status \<and> status \<le> 65534 \<and>
    distinct [status, p1, p2] \<and>
    (\<forall>key \<in> {''progressTimeoutSeconds'', ''startupTimeoutSeconds'', ''shutdownTimeoutSeconds''}.
       \<exists>t. jidx config key = Inr (PInt t) \<and> 1 \<le> t \<and> t \<le> 86400)"
proof -
  from assms obtain w1 w2 a b ports status where
    w: "jidx config ''workers'' = Inr (PList [w1, w2])"
    "jidx w1 ''role'' = Inr a" "jidx w2 ''role'' = Inr b" "{a, b} = {PStr ''prefill'', PStr ''decode''}"
    and s: "jidx config ''statusPort'' = Inr status" "int_between 1024 65534 status"
    and f: "foldM check_worker [status] [w1, w2] = Inr ports"
    and t: "\<forall>key \<in> {''progressTimeoutSeconds'', ''startupTimeoutSeconds'', ''shutdownTimeoutSeconds''}.
       check_timeout config key = Inr ()"
    by (rule validate_config_parts)
  obtain i where i: "status = PInt i" "1024 \<le> i" "i \<le> 65534" using s(2) by (auto simp: int_between_iff)
  obtain ports1 where f1: "check_worker [status] w1 = Inr ports1" "check_worker ports1 w2 = Inr ports"
    using f by (auto elim!: bndE)
  obtain g1 p1 where g1: "good_worker w1 g1 p1" "ports1 = [status, PInt p1]" "PInt p1 \<noteq> status"
    using check_worker_good [OF f1(1)] by auto
  obtain g2 p2 where g2: "good_worker w2 g2 p2" "PInt p2 \<notin> {status, PInt p1}"
    using check_worker_good [OF f1(2)] g1(2) by auto
  obtain r1 r2 where r: "a = PStr r1" "b = PStr r2" "{r1, r2} = {''prefill'', ''decode''}"
    using w(4) by (auto simp: doubleton_eq_iff)
  have tm: "\<forall>key \<in> {''progressTimeoutSeconds'', ''startupTimeoutSeconds'', ''shutdownTimeoutSeconds''}.
       \<exists>t. jidx config key = Inr (PInt t) \<and> 1 \<le> t \<and> t \<le> 86400"
  proof
    fix key assume "key \<in> {''progressTimeoutSeconds'', ''startupTimeoutSeconds'', ''shutdownTimeoutSeconds''}"
    then have "check_timeout config key = Inr ()" using t by blast
    then show "\<exists>t. jidx config key = Inr (PInt t) \<and> 1 \<le> t \<and> t \<le> 86400"
      by (auto simp: check_timeout_def raise_if_eq_Inr int_between_iff elim!: bndE)
  qed
  have d: "distinct [i, p1, p2]" using g1(3) g2(2) i(1) by auto
  have roles: "jidx w1 ''role'' = Inr (PStr r1)" "jidx w2 ''role'' = Inr (PStr r2)"
    and port: "jidx config ''statusPort'' = Inr (PInt i)"
    using w(2,3) r(1,2) s(1) i(1) by simp_all
  show ?thesis
    by (intro exI conjI) (rule w(1) r(3) roles g1(1) g2(1) port i d tm)+
qed

definition example_worker :: "string \<Rightarrow> int \<Rightarrow> pyv" where
  "example_worker role port = PDict [(''role'', PStr role), (''gpus'', PInt 4), (''ranks'', PInt 4),
     (''port'', PInt port), (''command'', PList [PStr ''python3'', PStr ''--tp'', PStr ''4'']),
     (''env'', PDict [(''HF_HOME'', PStr ''/models'')])]"

definition example_config :: pyv where
  "example_config = PDict [
     (''workers'', PList [example_worker ''prefill'' 30000, example_worker ''decode'' 30001]),
     (''modelGate'', PList [PStr ''gate'']), (''statusPort'', PInt 8080),
     (''progressTimeoutSeconds'', PInt 60), (''startupTimeoutSeconds'', PInt 3600),
     (''shutdownTimeoutSeconds'', PInt 30)]"

lemma example_env_ok: "check_env (PDict [(''HF_HOME'', PStr ''/models'')]) = Inr ()"
  by (simp add: check_env_def dkeys_def pair_control_def startswith_def artifact_key_def artifact_parts_def
      contains_def)

lemma example_flags_ok: "\<not> list_ex unsafe_flag [''python3'', ''--tp'', ''4'']"
  by (simp add: unsafe_flag_def flag_of_def startswith_def unsafe_flags_def)

lemma example_worker_ok:
  assumes "PInt port \<notin> set ports" "1024 \<le> port" "port \<le> 65534" "\<forall>p \<in> set ports. \<exists>i. p = PInt i"
  shows "check_worker ports (example_worker role port) = Inr (ports @ [PInt port])"
proof -
  have "\<not> list_ex (py_eq (PInt port)) ports" using assms(1,4) by (auto simp: list_ex_iff)
  then show ?thesis using assms(2,3) example_env_ok example_flags_ok
    by (simp add: check_worker_def example_worker_def key_set_def py_set_def names_are_iff worker_fields_def
        int_between_def port_seen_def not_strings_def)
qed

lemma example_config_ok: "validate_config example_config = Inr ()"
proof -
  have "foldM check_worker [PInt 8080] [example_worker ''prefill'' 30000, example_worker ''decode'' 30001] =
      Inr [PInt 8080, PInt 30000, PInt 30001]"
    using example_worker_ok [of 30000 "[PInt 8080]" "''prefill''"]
      example_worker_ok [of 30001 "[PInt 8080, PInt 30000]" "''decode''"] by simp
  moreover have "jidx (example_worker r p) ''role'' = Inr (PStr r)" for r p
    by (simp add: example_worker_def)
  ultimately show ?thesis
    by (simp add: validate_config_def example_config_def key_set_def py_set_def names_are_iff
        config_fields_def not_strings_def ROLES_def int_between_def check_timeout_def)
qed

lemma validate_config_sound_witness:
  "\<exists>w1 w2 g1 g2 p1 p2. jidx example_config ''workers'' = Inr (PList [w1, w2]) \<and>
    good_worker w1 g1 p1 \<and> good_worker w2 g2 p2 \<and> p1 \<noteq> p2"
  using validate_config_sound [OF example_config_ok] by fastforce

text \<open>
  An identifier beyond a C \<open>int\<close> makes \<open>os.kill\<close> raise \<open>OverflowError\<close>, which the verdict does not
  catch: the exception leaves \<open>rank_status\<close>.
\<close>

lemma rank_status_overflow:
  assumes "v_size v = Inr n" "n \<le> 1024" "bnd (v_text v) loads = Inr r" "key_set r = Inr ks"
    "names_are ks rank_fields" "jidx r ''pid'' = Inr (PInt p)" "2 ^ 31 \<le> p"
  shows "rank_status v now timeout None = Inl (Exn OverflowError [])"
  using assms by (simp add: rank_status_def rank_body_def rank_known_def rank_live_def os_kill0_def
      catches_def)

end
