(* ===== verification/Pair_Supervisor.thy ===== *)
theory Pair_Supervisor
  imports Pair_Events Sha256
begin

text \<open>
  The stateful half of \<open>images/sglang/pair_supervisor.py\<close>: the supervisor of one prefill/decode pair.
  Everything it reads from the system is a function of a counter that every reading advances, so the
  system may change between any two readings.  An operation takes the supervisor's state and returns
  a value or an exception with the new state; a loop that may not return gives an option.
\<close>

section \<open>State\<close>

record worker =
  w_role :: string
  w_gpus :: int
  w_ranks :: pyv
  w_port :: int
  w_command :: pyv
  w_env :: "(string \<times> string) list"

record pair_config =
  c_workers :: "worker list"
  c_gate :: "string list"
  c_progress :: int
  c_startup :: int
  c_shutdown :: int

text \<open>What the supervisor reads: each field by the number of the reading.\<close>

record world =
  e_clock :: "nat \<Rightarrow> rat"                              \<comment> \<open>\<open>time.monotonic\<close>\<close>
  e_poll :: "nat \<Rightarrow> string \<Rightarrow> int option"         \<comment> \<open>\<open>poll\<close> of a child\<close>
  e_size :: "nat \<Rightarrow> string \<Rightarrow> nat res"            \<comment> \<open>the size of a file of the run directory\<close>
  e_text :: "nat \<Rightarrow> string \<Rightarrow> string res"
  e_alive :: "nat \<Rightarrow> int \<Rightarrow> unit res"             \<comment> \<open>signal 0\<close>
  e_http :: "nat \<Rightarrow> int \<Rightarrow> string \<Rightarrow> int option" \<comment> \<open>the status of a GET, if it answers\<close>
  e_signal :: "nat \<Rightarrow> bool"                            \<comment> \<open>a stop signal has arrived\<close>
  e_ready :: "nat \<Rightarrow> nat option"                      \<comment> \<open>the size of the gate's marker\<close>
  e_spawn :: "nat \<Rightarrow> int res"                         \<comment> \<open>\<open>Popen\<close>\<close>
  e_killpg :: "nat \<Rightarrow> int \<Rightarrow> int \<Rightarrow> unit res"
  e_reaped :: "nat \<Rightarrow> string \<Rightarrow> bool"            \<comment> \<open>\<open>wait\<close> with a timeout\<close>

record http_state =
  h_checked :: rat
  h_available :: bool
  h_failures :: nat
  h_ever_ready :: bool

record sup =
  s_tick :: nat
  s_children :: "(string \<times> int) list"
  s_rank_pids :: "((string \<times> nat) \<times> int) list"
  s_http :: "(string \<times> http_state) list"
  s_stop :: bool
  s_started :: rat
  s_snapshot :: "string \<times> rat"
  s_failed :: bool
  s_log :: "pydict list"                                    \<comment> \<open>the reviewed records written\<close>
  s_requests :: "((string \<times> nat) \<times> int) list list"      \<comment> \<open>the calls of \<open>diagnostics.request\<close>\<close>
  s_acks :: "(pyv option \<times> pyv option) list"              \<comment> \<open>the calls of \<open>diagnostics.acknowledge\<close>\<close>
  s_spawned :: "(pyv \<times> (string \<times> string) list) list"
  s_signals :: "(int \<times> int) list"                        \<comment> \<open>process group and signal\<close>
  s_locations :: "string list"                              \<comment> \<open>\<open>CODE_LOCATIONS\<close>\<close>

type_synonym 'a act = "sup \<Rightarrow> 'a res \<times> sup"

definition sret :: "'a \<Rightarrow> 'a act" where
  "sret x s = (Inr x, s)"

definition sbnd :: "'a act \<Rightarrow> ('a \<Rightarrow> 'b act) \<Rightarrow> 'b act" where
  "sbnd m f s = (case m s of (Inl e, s') \<Rightarrow> (Inl e, s') | (Inr x, s') \<Rightarrow> f x s')"

definition sres :: "'a res \<Rightarrow> 'a act" where
  "sres r s = (r, s)"

definition sput :: "(sup \<Rightarrow> sup) \<Rightarrow> unit act" where
  "sput f s = (Inr (), f s)"

definition sget :: "sup act" where
  "sget s = (Inr s, s)"

definition observe :: "(nat \<Rightarrow> 'a) \<Rightarrow> 'a act" where
  "observe f s = (Inr (f (s_tick s)), s\<lparr>s_tick := Suc (s_tick s)\<rparr>)"

fun smap :: "('a \<Rightarrow> 'b act) \<Rightarrow> 'a list \<Rightarrow> 'b list act" where
  "smap f [] = sret []"
| "smap f (x # xs) = sbnd (f x) (\<lambda>y. sbnd (smap f xs) (\<lambda>ys. sret (y # ys)))"

definition emit :: "string \<Rightarrow> string \<Rightarrow> pydict \<Rightarrow> unit act" where
  "emit event role kwargs s =
     (case emit_event (s_locations s) event role kwargs of
        Inl e \<Rightarrow> (Inl e, s)
      | Inr d \<Rightarrow> (Inr (), s\<lparr>s_log := s_log s @ [d]\<rparr>))"

text \<open>\<open>self.stop.wait(...)\<close> and \<open>self.stop.is_set()\<close>: a signal handler may have set it.\<close>

definition stop_set :: "world \<Rightarrow> bool act" where
  "stop_set w s =
     (let b = s_stop s \<or> e_signal w (s_tick s) in (Inr b, s\<lparr>s_stop := b, s_tick := Suc (s_tick s)\<rparr>))"

definition mark_failed :: "unit act" where
  "mark_failed = sput (\<lambda>s. s\<lparr>s_failed := True, s_stop := True\<rparr>)"

section \<open>Construction\<close>

definition as_int :: "pyv \<Rightarrow> int res" where
  "as_int v = (case v of PInt i \<Rightarrow> Inr i | _ \<Rightarrow> type_error)"

definition str_items :: "pyv \<Rightarrow> (string \<times> string) list res" where
  "str_items v = bnd (jitems v) (mapM (\<lambda>(k, x). bnd (str_method x) (\<lambda>t. Inr (k, t))))"

definition worker_of :: "pyv \<Rightarrow> worker res" where
  "worker_of w =
     bnd (bnd (jidx w ''role'') str_method) (\<lambda>role.
     bnd (bnd (jidx w ''gpus'') as_int) (\<lambda>gpus.
     bnd (jidx w ''ranks'') (\<lambda>ranks.
     bnd (bnd (jidx w ''port'') as_int) (\<lambda>port.
     bnd (jidx w ''command'') (\<lambda>command.
     bnd (bnd (jidx w ''env'') str_items) (\<lambda>env.
       Inr \<lparr>w_role = role, w_gpus = gpus, w_ranks = ranks, w_port = port, w_command = command,
            w_env = env\<rparr>))))))"

definition config_of :: "pyv \<Rightarrow> pair_config res" where
  "config_of config =
     bnd (bnd (jidx config ''workers'') jiter) (\<lambda>ws.
     bnd (mapM worker_of ws) (\<lambda>workers.
     bnd (bnd (bnd (jidx config ''modelGate'') jiter) (mapM str_method)) (\<lambda>gate.
     bnd (bnd (jidx config ''progressTimeoutSeconds'') as_int) (\<lambda>progress.
     bnd (bnd (jidx config ''startupTimeoutSeconds'') as_int) (\<lambda>startup.
     bnd (bnd (jidx config ''shutdownTimeoutSeconds'') as_int) (\<lambda>shutdown.
       Inr \<lparr>c_workers = workers, c_gate = gate, c_progress = progress, c_startup = startup,
            c_shutdown = shutdown\<rparr>))))))"

definition new_supervisor :: "pyv \<Rightarrow> string list \<Rightarrow> rat \<Rightarrow> (pair_config \<times> sup) res" where
  "new_supervisor config devices now =
     bnd (validate_config config) (\<lambda>_.
     bnd (config_of config) (\<lambda>cfg.
     bnd (raise_if (int (length devices) \<noteq> sum_list (map w_gpus (c_workers cfg)) \<or> \<not> distinct devices)
            (Exn ValueError ''the pair requires its exact assigned GPUs'')) (\<lambda>_.
       Inr (cfg, \<lparr>s_tick = 0, s_children = [], s_rank_pids = [], s_http = [], s_stop = False,
         s_started = now, s_snapshot = (''starting'', now), s_failed = False, s_log = [],
         s_requests = [], s_acks = [], s_spawned = [], s_signals = [], s_locations = []\<rparr>))))"

text \<open>The status endpoint's answer.\<close>

definition status_code :: "sup \<Rightarrow> rat \<Rightarrow> string \<Rightarrow> int" where
  "status_code s now path =
     (if path \<notin> {''/livez'', ''/readyz'', ''/startupz''} then 404
      else if now - snd (s_snapshot s) < 5 \<and> fst (s_snapshot s) = ''ready'' then 200 else 503)"

section \<open>Workers\<close>

text \<open>\<open>range(worker["ranks"])\<close>.\<close>

definition rank_range :: "pyv \<Rightarrow> nat list res" where
  "rank_range v =
     (case v of PInt i \<Rightarrow> Inr [0..<nat i] | PBool b \<Rightarrow> Inr (if b then [0] else []) | _ \<Rightarrow> type_error)"

definition rank_file :: "string \<Rightarrow> nat \<Rightarrow> string" where
  "rank_file role rank = role @ ''-'' @ str_of_nat rank @ ''.json''"

text \<open>The three readings of one look at a rank's record.\<close>

definition look :: "world \<Rightarrow> string \<Rightarrow> rank_view act" where
  "look w file s =
     (let t = s_tick s in
      (Inr \<lparr>v_size = e_size w t file, v_text = e_text w (t + 1) file, v_alive = e_alive w (t + 2)\<rparr>,
       s\<lparr>s_tick := t + 3\<rparr>))"

definition rank_report :: "world \<Rightarrow> string \<Rightarrow> rat \<Rightarrow> rat \<Rightarrow> nat \<Rightarrow> string \<Rightarrow> unit act" where
  "rank_report w role now budget rank state =
     (if state = ''failed''
      then sbnd (look w (rank_file role rank)) (\<lambda>v.
           sbnd (sres (rank_failure_details v now budget)) (\<lambda>details.
             emit ''rank_progress_failed'' role ((''rank'', PInt (int rank)) # details)))
      else sret ())"

definition pin_pid :: "string \<Rightarrow> nat \<Rightarrow> int option \<Rightarrow> sup \<Rightarrow> sup" where
  "pin_pid role rank pid s =
     (case pid of None \<Rightarrow> s | Some p \<Rightarrow> s\<lparr>s_rank_pids := dset (role, rank) p (s_rank_pids s)\<rparr>)"

definition rank_step :: "world \<Rightarrow> string \<Rightarrow> rat \<Rightarrow> rat \<Rightarrow> nat \<Rightarrow> string act" where
  "rank_step w role now budget rank =
     sbnd (look w (rank_file role rank)) (\<lambda>v.
     sbnd sget (\<lambda>s.
     sbnd (sres (rank_status v now budget (map_of (s_rank_pids s) (role, rank)))) (\<lambda>r.
     sbnd (sput (pin_pid role rank (snd r))) (\<lambda>_.
     sbnd (rank_report w role now budget rank (fst r)) (\<lambda>_.
       sret (fst r))))))"

definition no_http :: http_state where
  "no_http = \<lparr>h_checked = 0, h_available = False, h_failures = 0, h_ever_ready = False\<rparr>"

definition http_of :: "sup \<Rightarrow> string \<Rightarrow> http_state" where
  "http_of s role = (case map_of (s_http s) role of None \<Rightarrow> no_http | Some h \<Rightarrow> h)"

text \<open>The HTTP poll, at most every two seconds; \<open>/health\<close> until the worker has answered once.\<close>

definition http_poll :: "world \<Rightarrow> worker \<Rightarrow> rat \<Rightarrow> http_state \<Rightarrow> http_state act" where
  "http_poll w wk now h =
     (if now - h_checked h \<ge> 2
      then sbnd (observe (\<lambda>t. e_http w t (w_port wk) (if h_ever_ready h then ''/v1/models'' else ''/health''))) (\<lambda>answer.
           let available = (answer = Some 200);
               h' = \<lparr>h_checked = now, h_available = available,
                     h_failures = if available then 0 else h_failures h + 1,
                     h_ever_ready = h_ever_ready h \<or> available\<rparr>
           in sbnd (sput (\<lambda>s. s\<lparr>s_http := dset (w_role wk) h' (s_http s)\<rparr>)) (\<lambda>_. sret h'))
      else sret h)"

definition http_verdict :: "http_state \<Rightarrow> string" where
  "http_verdict h =
     (if h_available h then ''ready''
      else if h_ever_ready h \<and> h_failures h \<ge> 3 then ''failed'' else ''starting'')"

definition worker_verdict :: "world \<Rightarrow> worker \<Rightarrow> rat \<Rightarrow> http_state \<Rightarrow> string list \<Rightarrow> string act" where
  "worker_verdict w wk now h states =
     (if ''failed'' \<in> set states then sret ''failed''
      else if ''starting'' \<in> set states then sret ''starting''
      else sbnd (http_poll w wk now h) (\<lambda>h'. sret (http_verdict h')))"

definition worker_body :: "world \<Rightarrow> pair_config \<Rightarrow> worker \<Rightarrow> string act" where
  "worker_body w cfg wk =
     sbnd (observe (e_clock w)) (\<lambda>now.
     sbnd sget (\<lambda>s.
     let h = http_of s (w_role wk);
         budget = of_int (if h_ever_ready h then c_progress cfg else c_startup cfg) in
     sbnd (sres (rank_range (w_ranks wk))) (\<lambda>ranks.
     sbnd (smap (rank_step w (w_role wk) now budget) ranks)
       (worker_verdict w wk now h))))"

definition worker_state :: "world \<Rightarrow> pair_config \<Rightarrow> worker \<Rightarrow> string act" where
  "worker_state w cfg wk s =
     (case map_of (s_children s) (w_role wk) of
        None \<Rightarrow> sret ''starting'' s
      | Some _ \<Rightarrow>
          sbnd (observe (\<lambda>t. e_poll w t (w_role wk))) (\<lambda>code.
          case code of
            Some c \<Rightarrow> sbnd (emit ''child_exit'' (w_role wk) [(''code'', PInt c)]) (\<lambda>_. sret ''failed'')
          | None \<Rightarrow> worker_body w cfg wk) s)"

section \<open>Loops\<close>

text \<open>
  \<open>while not self.stop.wait(...)\<close>: the body returns a value to leave the loop, and nothing to go on;
  when the stop is set the loop ends with the default value.
\<close>

partial_function (option) until_stop ::
  "world \<Rightarrow> 'a option act \<Rightarrow> 'a \<Rightarrow> sup \<Rightarrow> ('a res \<times> sup) option" where
  "until_stop w body dflt s =
     (case stop_set w s of
        (Inl e, s1) \<Rightarrow> Some (Inl e, s1)
      | (Inr b, s1) \<Rightarrow>
          if b then Some (Inr dflt, s1)
          else (case body s1 of
                  (Inl e, s2) \<Rightarrow> Some (Inl e, s2)
                | (Inr (Some x), s2) \<Rightarrow> Some (Inr x, s2)
                | (Inr None, s2) \<Rightarrow> until_stop w body dflt s2))"

text \<open>The model gate: \<open>False\<close> when it exits or the startup budget ends.\<close>

definition model_exit :: "world \<Rightarrow> bool act" where
  "model_exit w =
     sbnd (observe (\<lambda>t. e_poll w t ''model'')) (\<lambda>code.
     case code of
       None \<Rightarrow> sret False
     | Some c \<Rightarrow> sbnd (emit ''child_exit'' ''pair'' [(''code'', PInt c)]) (\<lambda>_. sret True))"

definition startup_over :: "world \<Rightarrow> pair_config \<Rightarrow> bool act" where
  "startup_over w cfg =
     sbnd (observe (e_clock w)) (\<lambda>now.
     sbnd sget (\<lambda>s. sret (now - s_started s > of_int (c_startup cfg))))"

definition gate_poll :: "world \<Rightarrow> pair_config \<Rightarrow> bool option act" where
  "gate_poll w cfg =
     sbnd (model_exit w) (\<lambda>exited.
     if exited then sbnd mark_failed (\<lambda>_. sret (Some False))
     else sbnd (observe (e_ready w)) (\<lambda>size.
       if size \<noteq> None \<and> size \<noteq> Some 0 then sret (Some True)
       else sbnd (startup_over w cfg) (\<lambda>over.
         if over then sbnd (emit ''startup_timeout'' ''pair'' []) (\<lambda>_. sbnd mark_failed (\<lambda>_. sret (Some False)))
         else sret None)))"

text \<open>\<open>any(self.worker_state(p) == "failed" for p in ...)\<close>.\<close>

fun any_failed :: "world \<Rightarrow> pair_config \<Rightarrow> worker list \<Rightarrow> bool act" where
  "any_failed w cfg [] = sret False"
| "any_failed w cfg (p # ps) =
     sbnd (worker_state w cfg p) (\<lambda>st. if st = ''failed'' then sret True else any_failed w cfg ps)"

definition previous_workers :: "pair_config \<Rightarrow> worker \<Rightarrow> sup \<Rightarrow> worker list" where
  "previous_workers cfg wk s =
     filter (\<lambda>p. w_role p \<noteq> w_role wk \<and> w_role p \<in> set (dkeys (s_children s))) (c_workers cfg)"

definition launch_poll :: "world \<Rightarrow> pair_config \<Rightarrow> worker \<Rightarrow> unit option act" where
  "launch_poll w cfg wk =
     sbnd (model_exit w) (\<lambda>exited.
     if exited then sbnd mark_failed (\<lambda>_. sret (Some ()))
     else sbnd (sbnd sget (\<lambda>s. any_failed w cfg (previous_workers cfg wk s))) (\<lambda>bad.
       if bad then sbnd (emit ''rank_failed'' ''pair'' []) (\<lambda>_. sbnd mark_failed (\<lambda>_. sret (Some ())))
       else sbnd (worker_state w cfg wk) (\<lambda>state.
         if state = ''ready'' then sret (Some ())
         else if state = ''failed''
         then sbnd (emit ''rank_failed'' (w_role wk) []) (\<lambda>_. sbnd mark_failed (\<lambda>_. sret (Some ())))
         else sbnd (startup_over w cfg) (\<lambda>over.
           if over
           then sbnd (emit ''startup_timeout'' (w_role wk) []) (\<lambda>_. sbnd mark_failed (\<lambda>_. sret (Some ())))
           else sret None))))"

section \<open>Starting\<close>

definition INHERITED_ENV :: "string list" where
  "INHERITED_ENV = [''PATH'', ''LD_LIBRARY_PATH'', ''HOME'', ''LANG'', ''LC_ALL'', ''TZ'', ''VIRTUAL_ENV'',
     ''PYTHONDONTWRITEBYTECODE'', ''NVIDIA_VISIBLE_DEVICES'', ''NVIDIA_DRIVER_CAPABILITIES'',
     ''NVIDIA_REQUIRE_CUDA'']"

definition inherited :: "(string \<times> string) list \<Rightarrow> (string \<times> string) list" where
  "inherited environ = filter (\<lambda>(k, _). k \<in> set INHERITED_ENV) environ"

definition dump_prefixes :: "string list" where
  "dump_prefixes = [''CUDA_COREDUMP'', ''CUDA_ENABLE_COREDUMP'', ''CUDA_ENABLE_USER_TRIGGERED_COREDUMP'',
     ''TORCH_FR_DUMP'', ''TORCH_NCCL_DUMP'', ''NCCL_DEBUG_FILE'']"

definition pair_controls :: "string list \<Rightarrow> nat \<Rightarrow> worker \<Rightarrow> string \<Rightarrow> (string \<times> string) list" where
  "pair_controls devices offset wk run_dir =
     [(''CUDA_VISIBLE_DEVICES'', str_join '','' (take (nat (w_gpus wk)) (drop offset devices))),
      (''SGLANG_HOST_IP'', ''127.0.0.1''), (''SGLANG_PAIR_ROLE'', w_role wk),
      (''SGLANG_PAIR_RUN_DIR'', run_dir),
      (''TORCH_NCCL_TRACE_BUFFER_SIZE'', ''256''), (''TORCH_NCCL_DUMP_ON_TIMEOUT'', ''0''),
      (''TORCH_NCCL_TRACE_CPP_STACK'', ''0''), (''TORCH_NCCL_ENABLE_TIMING'', ''0'')]"

definition worker_environ ::
  "(string \<times> string) list \<Rightarrow> string list \<Rightarrow> nat \<Rightarrow> worker \<Rightarrow> string \<Rightarrow> (string \<times> string) list" where
  "worker_environ environ devices offset wk run_dir =
     dupdate
       (filter (\<lambda>(k, _). \<not> list_ex (startswith k) dump_prefixes)
          (dupdate (inherited environ) (w_env wk)))
       (pair_controls devices offset wk run_dir)"

text \<open>\<open>subprocess.Popen\<close> in a session of its own: the child's group is its process identifier.\<close>

definition spawn :: "world \<Rightarrow> string \<Rightarrow> pyv \<Rightarrow> (string \<times> string) list \<Rightarrow> unit act" where
  "spawn w key command env =
     sbnd (observe (e_spawn w)) (\<lambda>r.
     sbnd (sres r) (\<lambda>pid.
       sput (\<lambda>s. s\<lparr>s_children := dset key pid (s_children s), s_spawned := s_spawned s @ [(command, env)]\<rparr>)))"

record launch =
  l_environ :: "(string \<times> string) list"
  l_devices :: "string list"
  l_run_dir :: string                                       \<comment> \<open>the directory of this generation\<close>
  l_setup :: "string list res"                              \<comment> \<open>the code locations, or what the sockets raise\<close>
  l_sink :: "sink option"                                   \<comment> \<open>the log sender when it is closed\<close>

fun start_workers :: "world \<Rightarrow> pair_config \<Rightarrow> launch \<Rightarrow> nat \<Rightarrow> worker list \<Rightarrow> sup \<Rightarrow> (unit res \<times> sup) option" where
  "start_workers w cfg l offset [] s = Some (Inr (), s)"
| "start_workers w cfg l offset (wk # wks) s =
     (case sbnd (stop_set w) (\<lambda>stopped.
             if stopped then sret True
             else sbnd (spawn w (w_role wk) (w_command wk)
                    (worker_environ (l_environ l) (l_devices l) offset wk (l_run_dir l))) (\<lambda>_. sret False)) s of
        (Inl e, s1) \<Rightarrow> Some (Inl e, s1)
      | (Inr True, s1) \<Rightarrow> Some (Inr (), s1)
      | (Inr False, s1) \<Rightarrow>
          (case until_stop w (launch_poll w cfg wk) () s1 of
             None \<Rightarrow> None
           | Some (Inl e, s2) \<Rightarrow> Some (Inl e, s2)
           | Some (Inr _, s2) \<Rightarrow>
               (case stop_set w s2 of
                  (Inl e, s3) \<Rightarrow> Some (Inl e, s3)
                | (Inr True, s3) \<Rightarrow> Some (Inr (), s3)
                | (Inr False, s3) \<Rightarrow> start_workers w cfg l (offset + nat (w_gpus wk)) wks s3)))"

definition launch_order :: "pair_config \<Rightarrow> worker list" where
  "launch_order cfg =
     filter (\<lambda>wk. w_role wk = ''prefill'') (c_workers cfg) @ filter (\<lambda>wk. w_role wk \<noteq> ''prefill'') (c_workers cfg)"

definition gate_command :: "pair_config \<Rightarrow> string \<Rightarrow> pyv" where
  "gate_command cfg run_dir =
     PList (map (\<lambda>arg. PStr (str_replace ''/run/dsv41/engram.ready'' (run_dir @ ''/engram.ready'') arg)) (c_gate cfg))"

definition start :: "world \<Rightarrow> pair_config \<Rightarrow> launch \<Rightarrow> sup \<Rightarrow> (unit res \<times> sup) option" where
  "start w cfg l s =
     (case sbnd (sres (l_setup l)) (\<lambda>locations.
           sbnd (sput (\<lambda>s. s\<lparr>s_locations := locations\<rparr>)) (\<lambda>_.
             spawn w ''model'' (gate_command cfg (l_run_dir l)) (inherited (l_environ l)))) s of
        (Inl e, s1) \<Rightarrow> Some (Inl e, s1)
      | (Inr _, s1) \<Rightarrow>
          (case until_stop w (gate_poll w cfg) True s1 of
             None \<Rightarrow> None
           | Some (Inl e, s2) \<Rightarrow> Some (Inl e, s2)
           | Some (Inr go, s2) \<Rightarrow>
               if go then start_workers w cfg l 0 (launch_order cfg) s2 else Some (Inr (), s2)))"

section \<open>Monitoring\<close>

definition overall :: "string list \<Rightarrow> string" where
  "overall states =
     (if ''failed'' \<in> set states then ''failed''
      else if ''starting'' \<in> set states then ''starting'' else ''ready'')"

definition fail_snapshot :: "world \<Rightarrow> unit act" where
  "fail_snapshot w =
     sbnd (observe (e_clock w)) (\<lambda>now. sput (\<lambda>s. s\<lparr>s_snapshot := (''failed'', now)\<rparr>))"

text \<open>The last reaction to a failure: the report, the snapshot, the stack request and the stop.\<close>

definition monitor_fail :: "world \<Rightarrow> unit act" where
  "monitor_fail w =
     sbnd (emit ''progress_stale'' ''pair'' []) (\<lambda>_.
     sbnd (sput (\<lambda>s. s\<lparr>s_failed := True\<rparr>)) (\<lambda>_.
     sbnd (fail_snapshot w) (\<lambda>_.
       sput (\<lambda>s. s\<lparr>s_requests := s_requests s @ [s_rank_pids s], s_stop := True\<rparr>))))"

definition monitor_verdict :: "world \<Rightarrow> pair_config \<Rightarrow> string \<Rightarrow> rat \<Rightarrow> unit act" where
  "monitor_verdict w cfg state now =
     sbnd sget (\<lambda>s.
     let late = (state = ''starting'' \<and> now - s_started s > of_int (c_startup cfg));
         state = (if late then ''failed'' else state) in
     sbnd (if late then emit ''startup_timeout'' ''pair'' [] else sret ()) (\<lambda>_.
     sbnd (sput (\<lambda>s. s\<lparr>s_snapshot := (state, now)\<rparr>)) (\<lambda>_.
       if state = ''failed'' then monitor_fail w else sret ())))"

definition monitor_step :: "world \<Rightarrow> pair_config \<Rightarrow> unit option act" where
  "monitor_step w cfg =
     sbnd (smap (worker_state w cfg) (c_workers cfg)) (\<lambda>states.
     sbnd (model_exit w) (\<lambda>exited.
     sbnd (observe (e_clock w)) (\<lambda>now.
     sbnd (monitor_verdict w cfg (overall (states @ (if exited then [''failed''] else []))) now) (\<lambda>_.
       sret None))))"

definition monitor :: "world \<Rightarrow> pair_config \<Rightarrow> sup \<Rightarrow> (int res \<times> sup) option" where
  "monitor w cfg s =
     (case until_stop w (monitor_step w cfg) () s of
        None \<Rightarrow> None
      | Some (Inl e, s1) \<Rightarrow> Some (Inl e, s1)
      | Some (Inr _, s1) \<Rightarrow>
          Some (sbnd (fail_snapshot w) (\<lambda>_. sbnd sget (\<lambda>s. sret (if s_failed s then 1 else 0))) s1))"

section \<open>Datagrams\<close>

definition collect_event :: "string \<Rightarrow> unit act" where
  "collect_event data s =
     (if length data \<ge> 4096 then (Inr (), s)
      else case loads_bytes data of
        Inl e \<Rightarrow> if catches [ValueError, TypeError] e then (Inr (), s) else (Inl e, s)
      | Inr v \<Rightarrow>
          (case reviewed_event (s_locations s) v of
             None \<Rightarrow> (Inr (), s)
           | Some d \<Rightarrow>
               (let event = map_of d ''event'';
                    s1 = s\<lparr>s_log := s_log s @ [d],
                           s_acks := s_acks s @
                             (if event \<in> {Some (PStr ''nccl_snapshot''), Some (PStr ''nccl_snapshot_unavailable'')}
                              then [(map_of d ''role'', map_of d ''rank'')] else [])\<rparr> in
                if event \<in> {Some (PStr ''watchdog_timeout''), Some (PStr ''rank_failed''),
                             Some (PStr ''communicator_abort_started'')}
                then (Inr (), s1\<lparr>s_requests := s_requests s1 @ [s_rank_pids s1]\<rparr>)
                else (Inr (), s1))))"

section \<open>Shutting down\<close>

definition kill_group :: "world \<Rightarrow> int \<Rightarrow> string \<times> int \<Rightarrow> unit act" where
  "kill_group w sig = (\<lambda>(_, pid).
     sbnd (observe (\<lambda>t. e_killpg w t pid sig)) (\<lambda>r.
     sbnd (sput (\<lambda>s. s\<lparr>s_signals := s_signals s @ [(pid, sig)]\<rparr>)) (\<lambda>_.
       sres (try_except r [ProcessLookupError] (\<lambda>_. Inr ())))))"

fun kill_all :: "world \<Rightarrow> int \<Rightarrow> (string \<times> int) list \<Rightarrow> unit act" where
  "kill_all w sig [] = sret ()"
| "kill_all w sig (c # cs) = sbnd (kill_group w sig c) (\<lambda>_. kill_all w sig cs)"

fun all_exited :: "world \<Rightarrow> (string \<times> int) list \<Rightarrow> bool act" where
  "all_exited w [] = sret True"
| "all_exited w ((key, _) # cs) =
     sbnd (observe (\<lambda>t. e_poll w t key)) (\<lambda>code. if code = None then sret False else all_exited w cs)"

partial_function (option) await_exit :: "world \<Rightarrow> rat \<Rightarrow> sup \<Rightarrow> (unit res \<times> sup) option" where
  "await_exit w deadline s =
     (case observe (e_clock w) s of
        (Inl e, s1) \<Rightarrow> Some (Inl e, s1)
      | (Inr now, s1) \<Rightarrow>
          if \<not> now < deadline then Some (Inr (), s1)
          else (case all_exited w (s_children s1) s1 of
                  (Inl e, s2) \<Rightarrow> Some (Inl e, s2)
                | (Inr gone, s2) \<Rightarrow> if gone then Some (Inr (), s2) else await_exit w deadline s2))"

fun reap_all :: "world \<Rightarrow> (string \<times> int) list \<Rightarrow> unit act" where
  "reap_all w [] = sret ()"
| "reap_all w ((key, _) # cs) =
     sbnd (observe (\<lambda>t. e_reaped w t key)) (\<lambda>ok.
     sbnd (if ok then sret () else emit ''shutdown_timeout'' ''pair'' []) (\<lambda>_. reap_all w cs))"

definition shutdown :: "world \<Rightarrow> pair_config \<Rightarrow> sup \<Rightarrow> (unit res \<times> sup) option" where
  "shutdown w cfg s =
     (case sbnd (sput (\<lambda>s. s\<lparr>s_stop := True\<rparr>)) (\<lambda>_.
           sbnd (fail_snapshot w) (\<lambda>_.
           sbnd (sbnd sget (\<lambda>s. kill_all w 15 (s_children s))) (\<lambda>_.
             observe (e_clock w)))) s of
        (Inl e, s1) \<Rightarrow> Some (Inl e, s1)
      | (Inr now, s1) \<Rightarrow>
          (case await_exit w (now + of_int (c_shutdown cfg)) s1 of
             None \<Rightarrow> None
           | Some (Inl e, s2) \<Rightarrow> Some (Inl e, s2)
           | Some (Inr _, s2) \<Rightarrow>
               Some (sbnd (sbnd sget (\<lambda>s. kill_all w 9 (s_children s)))
                       (\<lambda>_. sbnd sget (\<lambda>s. reap_all w (s_children s))) s2)))"

section \<open>Devices and directories\<close>

text \<open>
  \<open>assigned_gpus\<close>: the driver is its answers: a status code each, with the number of devices, the
  device of an ordinal, and its identifier of sixteen bytes.
\<close>

record cuda =
  cu_init :: int
  cu_count :: "int \<times> int"
  cu_device :: "nat \<Rightarrow> int \<times> int"
  cu_uuid :: "int \<Rightarrow> int \<times> nat list"

definition uuid_name :: "nat list \<Rightarrow> string" where
  "uuid_name bytes =
     (let raw = concat (map (\<lambda>b. [hex_char (b div 16), hex_char (b mod 16)]) bytes) in
      ''GPU-'' @ str_join ''-'' [take 8 raw, take 4 (drop 8 raw), take 4 (drop 12 raw), take 4 (drop 16 raw),
        drop 20 raw])"

definition assigned_gpus :: "cuda \<Rightarrow> string list res" where
  "assigned_gpus c =
     bnd (raise_if (cu_init c \<noteq> 0 \<or> fst (cu_count c) \<noteq> 0) (Exn RuntimeError ''CUDA enumeration failed'')) (\<lambda>_.
     mapM (\<lambda>ordinal.
       let device = cu_device c ordinal; uuid = cu_uuid c (snd device) in
       bnd (raise_if (fst device \<noteq> 0 \<or> fst uuid \<noteq> 0) (Exn RuntimeError ''CUDA device identity failed'')) (\<lambda>_.
         Inr (uuid_name (snd uuid)))) [0..<nat (snd (cu_count c))])"

text \<open>
  \<open>new_generation\<close>: the earlier generations with their times of change, newest first; all but the
  newest are removed.  The result is what is removed and what is left, the new directory last.
\<close>

definition new_generation :: "(string \<times> int) list \<Rightarrow> string \<Rightarrow> string list \<times> string list" where
  "new_generation previous fresh =
     (let order = sort_key (\<lambda>(_, mtime). - mtime) previous in
      (map fst (drop 1 order), map fst (take 1 order) @ [fresh]))"

section \<open>The program\<close>

definition report_delivery :: "sink option \<Rightarrow> unit act" where
  "report_delivery log_sink =
     (case log_sink of
        None \<Rightarrow> sret ()
      | Some k \<Rightarrow>
          if sk_dropped k \<noteq> 0 \<or> sk_unfinished k \<noteq> 0 \<or> sk_failures k \<noteq> 0
          then emit ''diagnostic_delivery_failed'' ''pair'' (close_report k) else sret ())"

text \<open>
  \<open>main\<close>: the exit code and the final state.  An exception of \<open>shutdown\<close> leaves the program.  The
  state is absent when the configuration was refused: nothing was started.
\<close>

definition main_pair :: "world \<Rightarrow> pyv \<Rightarrow> launch \<Rightarrow> rat \<Rightarrow> (int res \<times> sup option) option" where
  "main_pair w config l now =
     (case new_supervisor config (l_devices l) now of
        Inl _ \<Rightarrow> Some (Inr 1, None)
      | Inr (cfg, s0) \<Rightarrow>
          (case (case start w cfg l s0 of
                   None \<Rightarrow> None
                 | Some (Inl e, s1) \<Rightarrow> Some (Inl e, s1)
                 | Some (Inr _, s1) \<Rightarrow> monitor w cfg s1) of
             None \<Rightarrow> None
           | Some (r, s2) \<Rightarrow>
               (case (case r of Inr n \<Rightarrow> (Inr n, s2)
                      | Inl _ \<Rightarrow> sbnd (emit ''supervisor_failed'' ''pair'' []) (\<lambda>_. sret 1) s2) of
                  (outcome, s3) \<Rightarrow>
                    (case shutdown w cfg s3 of
                       None \<Rightarrow> None
                     | Some (Inl e, s4) \<Rightarrow> Some (Inl e, Some s4)
                     | Some (Inr _, s4) \<Rightarrow>
                         (case sbnd (report_delivery (l_sink l)) (\<lambda>_. sres outcome) s4 of
                            (result, s5) \<Rightarrow> Some (result, Some s5))))))"

section \<open>Reasoning about operations\<close>

lemma sbnd_eq_Inr:
  "sbnd m f s = (Inr y, t) \<longleftrightarrow> (\<exists>x s'. m s = (Inr x, s') \<and> f x s' = (Inr y, t))"
  by (auto simp: sbnd_def split: prod.splits sum.splits)

lemma sbndE:
  assumes "sbnd m f s = (Inr y, t)"
  obtains x s' where "m s = (Inr x, s')" "f x s' = (Inr y, t)"
  using assms by (auto simp: sbnd_eq_Inr)

lemma sret_eq [simp]: "sret x s = (r, t) \<longleftrightarrow> r = Inr x \<and> t = s"
  by (auto simp: sret_def)

lemma sput_eq [simp]: "sput f s = (r, t) \<longleftrightarrow> r = Inr () \<and> t = f s"
  by (auto simp: sput_def)

lemma sres_eq [simp]: "sres x s = (r, t) \<longleftrightarrow> x = r \<and> t = s"
  by (auto simp: sres_def)

lemma sget_eq [simp]: "sget s = (r, t) \<longleftrightarrow> r = Inr s \<and> t = s"
  by (auto simp: sget_def)

lemma observe_eq [simp]:
  "observe f s = (r, t) \<longleftrightarrow> r = Inr (f (s_tick s)) \<and> t = s\<lparr>s_tick := Suc (s_tick s)\<rparr>"
  by (auto simp: observe_def)

text \<open>A relation between the states before and after, whatever the operation returns or raises.\<close>

definition stays :: "(sup \<Rightarrow> sup \<Rightarrow> bool) \<Rightarrow> 'a act \<Rightarrow> bool" where
  "stays R m \<longleftrightarrow> (\<forall>s. R s (snd (m s)))"

lemma staysD: "stays R m \<Longrightarrow> m s = (r, t) \<Longrightarrow> R s t"
  unfolding stays_def by (metis snd_conv)

lemma staysI: "(\<And>s r t. m s = (r, t) \<Longrightarrow> R s t) \<Longrightarrow> stays R m"
  by (simp add: stays_def prod_eq_iff)

locale frame =
  fixes R :: "sup \<Rightarrow> sup \<Rightarrow> bool"
  assumes refl: "R s s" and trans: "R s t \<Longrightarrow> R t u \<Longrightarrow> R s u"
begin

lemma stays_sret [intro, simp]: "stays R (sret x)"
  by (simp add: stays_def sret_def refl)

lemma stays_sget [intro, simp]: "stays R sget"
  by (simp add: stays_def sget_def refl)

lemma stays_sres [intro, simp]: "stays R (sres x)"
  by (simp add: stays_def sres_def refl)

lemma stays_sbnd [intro]:
  assumes "stays R m" "\<And>x. stays R (f x)" shows "stays R (sbnd m f)"
  unfolding stays_def
proof
  fix s
  obtain r t where m: "m s = (r, t)" by fastforce
  then have "R s t" using assms(1) staysD by blast
  moreover have "R t (snd (f x t))" for x using assms(2) by (simp add: stays_def)
  ultimately show "R s (snd (sbnd m f s))" using m trans by (auto simp: sbnd_def split: sum.splits)
qed

lemma stays_if [intro]: "stays R m \<Longrightarrow> stays R n \<Longrightarrow> stays R (if b then m else n)"
  by simp

lemma stays_smap [intro]: "(\<And>x. stays R (f x)) \<Longrightarrow> stays R (smap f xs)"
  by (induction xs) auto

end

definition log_ok :: "string list \<Rightarrow> pydict \<Rightarrow> bool" where
  "log_ok locations d \<longleftrightarrow> dict_ok d \<and> reviewed_event locations (PDict d) = Some d"

text \<open>What every operation that only looks keeps: children, flags and snapshot; known identifiers; a
  log that grows by reviewed records.\<close>

definition quiet :: "sup \<Rightarrow> sup \<Rightarrow> bool" where
  "quiet s t \<longleftrightarrow>
     s_tick s \<le> s_tick t \<and> s_children t = s_children s \<and> s_started t = s_started s \<and>
     s_stop t = s_stop s \<and> s_failed t = s_failed s \<and> s_snapshot t = s_snapshot s \<and>
     s_signals t = s_signals s \<and> s_spawned t = s_spawned s \<and> s_locations t = s_locations s \<and>
     (\<forall>k p. map_of (s_rank_pids s) k = Some p \<longrightarrow> map_of (s_rank_pids t) k = Some p) \<and>
     (\<exists>l. s_log t = s_log s @ l \<and> list_all (log_ok (s_locations s)) l)"

lemma quiet_refl: "quiet s s"
  by (simp add: quiet_def)

lemma quiet_trans: "quiet s t \<Longrightarrow> quiet t u \<Longrightarrow> quiet s u"
  unfolding quiet_def by fastforce

interpretation quiet: frame quiet
  by unfold_locales (auto intro: quiet_refl quiet_trans)

lemma quiet_observe [intro]: "stays quiet (observe f)"
  by (auto simp: quiet_def intro: staysI)

lemma quiet_look [intro]: "stays quiet (look w file)"
  by (auto simp: quiet_def look_def Let_def intro: staysI)

lemma emit_event_log:
  "emit_event locations event role kwargs = Inr d \<Longrightarrow> log_ok locations d"
proof -
  assume e: "emit_event locations event role kwargs = Inr d"
  let ?d = "dupdate [(''event'', PStr event), (''role'', PStr role)] kwargs"
  have "reviewed_event locations (PDict ?d) = Some d"
    using e by (auto simp: emit_event_def split: option.splits)
  moreover from this have "d = ?d" using reviewed_event_dict by blast
  moreover have "dict_ok ?d" by (rule dict_ok_dupdate) (simp add: dict_ok_def dkeys_def)
  ultimately show ?thesis by (simp add: log_ok_def)
qed

lemma quiet_emit [intro]: "stays quiet (emit event role kwargs)"
  by (rule staysI) (auto simp: emit_def quiet_def split: sum.splits dest: emit_event_log)

lemma quiet_rank_report [intro]: "stays quiet (rank_report w role now budget rank state)"
  unfolding rank_report_def
  by (intro quiet.stays_if quiet.stays_sbnd quiet_look quiet.stays_sres quiet_emit quiet.stays_sret)

lemma quiet_pin:
  assumes "rank_status v now budget (map_of (s_rank_pids s) (role, rank)) = Inr r"
  shows "quiet s (pin_pid role rank (snd r) s)"
proof -
  have "snd r = Some p" if "map_of (s_rank_pids s) (role, rank) = Some p" for p
    using rank_status_pinned [of v now budget p "fst r" "snd r"] assms that by simp
  then show ?thesis by (auto simp: quiet_def pin_pid_def map_of_dset split: option.splits)
qed

lemma quiet_rank_step [intro]: "stays quiet (rank_step w role now budget rank)"
proof (rule staysI)
  fix s r t assume step: "rank_step w role now budget rank s = (r, t)"
  obtain v s1 where v: "look w (rank_file role rank) s = (Inr v, s1)" and s1: "quiet s s1"
    using staysD [OF quiet_look] by (metis look_def)
  show "quiet s t"
  proof (cases "rank_status v now budget (map_of (s_rank_pids s1) (role, rank))")
    case (Inl e)
    then show ?thesis using step v s1 by (simp add: rank_step_def sbnd_def sres_def sget_def)
  next
    case (Inr st)
    let ?s2 = "pin_pid role rank (snd st) s1"
    have "sbnd (rank_report w role now budget rank (fst st)) (\<lambda>_. sret (fst st)) ?s2 = (r, t)"
      using step v Inr by (simp add: rank_step_def sbnd_def sres_def sget_def sput_def)
    then have "quiet ?s2 t" by (rule staysD [OF quiet.stays_sbnd [OF quiet_rank_report quiet.stays_sret]])
    then show ?thesis using s1 quiet_pin [OF Inr] quiet_trans by blast
  qed
qed

lemma quiet_http_poll [intro]: "stays quiet (http_poll w wk now h)"
proof -
  have "stays quiet (sput (\<lambda>s. s\<lparr>s_http := dset (w_role wk) h' (s_http s)\<rparr>))" for h'
    by (rule staysI) (auto simp: quiet_def)
  then show ?thesis by (auto simp: http_poll_def Let_def)
qed

lemma quiet_worker_body [intro]: "stays quiet (worker_body w cfg wk)"
  unfolding worker_body_def worker_verdict_def Let_def
  by (intro quiet.stays_sbnd quiet.stays_sget quiet_observe quiet.stays_sres quiet.stays_smap
      quiet_rank_step quiet.stays_if quiet.stays_sret quiet_http_poll)

lemma quiet_worker_state [intro]: "stays quiet (worker_state w cfg wk)"
proof (rule staysI)
  fix s r t assume run: "worker_state w cfg wk s = (r, t)"
  have "stays quiet (sbnd (observe (\<lambda>t. e_poll w t (w_role wk))) (\<lambda>code.
          case code of
            Some c \<Rightarrow> sbnd (emit ''child_exit'' (w_role wk) [(''code'', PInt c)]) (\<lambda>_. sret ''failed'')
          | None \<Rightarrow> worker_body w cfg wk))"
    by (rule quiet.stays_sbnd) (auto split: option.split)
  then show "quiet s t"
    using run staysD quiet_refl by (auto simp: worker_state_def split: option.splits)
qed

lemma quiet_model_exit [intro]: "stays quiet (model_exit w)"
  unfolding model_exit_def by (rule quiet.stays_sbnd) (auto split: option.split)

lemma quiet_startup_over [intro]: "stays quiet (startup_over w cfg)"
  unfolding startup_over_def by (intro quiet.stays_sbnd quiet_observe quiet.stays_sget quiet.stays_sret)

lemma quiet_any_failed [intro]: "stays quiet (any_failed w cfg ps)"
  by (induction ps) auto

lemma quiet_tick: "quiet s t \<Longrightarrow> s_tick s \<le> s_tick t"
  by (simp add: quiet_def)

lemma smap_member:
  assumes "smap f xs s = (Inr ys, t)" "x \<in> set xs" "\<And>x. stays quiet (f x)"
  shows "\<exists>y \<in> set ys. \<exists>s1 t1. f x s1 = (Inr y, t1) \<and> s_tick s \<le> s_tick s1 \<and> s_tick t1 \<le> s_tick t"
  using assms(1,2)
proof (induction xs arbitrary: s ys)
  case (Cons z zs)
  then obtain y s' ys' where z: "f z s = (Inr y, s')" "smap f zs s' = (Inr ys', t)" "ys = y # ys'"
    by (auto simp: sbnd_eq_Inr)
  have "s_tick s \<le> s_tick s'" "s_tick s' \<le> s_tick t"
    using staysD [OF assms(3) z(1)] staysD [OF quiet.stays_smap [OF assms(3)] z(2)] quiet_tick by auto
  then show ?case using Cons z by (fastforce intro: order_trans)
qed simp

section \<open>Evidence of readiness\<close>

text \<open>
  What the readings \<open>a\<close> to \<open>b\<close> saw of a rank: a live process and a healthy record of it.
\<close>

definition rank_evidence :: "world \<Rightarrow> pair_config \<Rightarrow> worker \<Rightarrow> rat \<Rightarrow> nat \<Rightarrow> nat \<Rightarrow> nat \<Rightarrow> bool" where
  "rank_evidence w cfg wk now a b rank \<longleftrightarrow>
     (\<exists>u p r. a \<le> u \<and> u + 2 < b \<and>
        bnd (e_text w (u + 1) (rank_file (w_role wk) rank)) loads = Inr r \<and>
        jidx r ''pid'' = Inr (PInt p) \<and> e_alive w (u + 2) p = Inr () \<and>
        (healthy_record now (of_int (c_progress cfg)) r \<or> healthy_record now (of_int (c_startup cfg)) r))"

definition worker_evidence :: "world \<Rightarrow> pair_config \<Rightarrow> worker \<Rightarrow> nat \<Rightarrow> nat \<Rightarrow> bool" where
  "worker_evidence w cfg wk a b \<longleftrightarrow>
     (\<exists>t0. a \<le> t0 \<and> t0 < b \<and> e_poll w t0 (w_role wk) = None) \<and>
     (\<exists>t1 ranks. a \<le> t1 \<and> t1 < b \<and> rank_range (w_ranks wk) = Inr ranks \<and>
        (\<forall>rank \<in> set ranks. rank_evidence w cfg wk (e_clock w t1) a b rank))"

lemma rank_evidence_mono:
  "rank_evidence w cfg wk now a b rank \<Longrightarrow> a' \<le> a \<Longrightarrow> b \<le> b' \<Longrightarrow> rank_evidence w cfg wk now a' b' rank"
  unfolding rank_evidence_def by (meson dual_order.trans less_le_trans)

lemma worker_evidence_mono:
  "worker_evidence w cfg wk a b \<Longrightarrow> a' \<le> a \<Longrightarrow> b \<le> b' \<Longrightarrow> worker_evidence w cfg wk a' b'"
  unfolding worker_evidence_def by (meson dual_order.trans less_le_trans rank_evidence_mono)

lemma rank_status_values:
  assumes "rank_status v now timeout known = Inr (state, pid)"
  shows "state \<in> {''failed'', ''starting'', ''ready''}"
proof -
  have "st \<in> {''failed'', ''starting'', ''ready''}" if "rank_verdict now timeout r x = Inr st" for r x st
    using that by (auto simp: rank_verdict_def elim!: bndE split: if_splits)
  then have "st \<in> {''failed'', ''starting'', ''ready''}" if "rank_body v now timeout known = Inr (st, q)" for st q
    using rank_body_known [OF that] rank_live_cases by blast
  then show ?thesis using assms by (auto simp: rank_status_def split: sum.splits if_splits)
qed

lemma pin_pid_tick [simp]: "s_tick (pin_pid role rank pid s) = s_tick s"
  by (simp add: pin_pid_def split: option.splits)

lemma rank_step_Inr:
  assumes "rank_step w role now budget rank s = (Inr state, t)"
  shows "\<exists>pid. rank_status \<lparr>v_size = e_size w (s_tick s) (rank_file role rank),
      v_text = e_text w (s_tick s + 1) (rank_file role rank), v_alive = e_alive w (s_tick s + 2)\<rparr>
      now budget (map_of (s_rank_pids s) (role, rank)) = Inr (state, pid) \<and> s_tick s + 3 \<le> s_tick t"
proof -
  let ?v = "\<lparr>v_size = e_size w (s_tick s) (rank_file role rank),
      v_text = e_text w (s_tick s + 1) (rank_file role rank), v_alive = e_alive w (s_tick s + 2)\<rparr>"
  let ?s1 = "s\<lparr>s_tick := s_tick s + 3\<rparr>"
  have look: "look w (rank_file role rank) s = (Inr ?v, ?s1)" by (simp add: look_def Let_def)
  obtain r where r: "rank_status ?v now budget (map_of (s_rank_pids s) (role, rank)) = Inr r"
    and rest: "sbnd (rank_report w role now budget rank (fst r)) (\<lambda>_. sret (fst r))
      (pin_pid role rank (snd r) ?s1) = (Inr state, t)"
    using assms look
    by (cases "rank_status ?v now budget (map_of (s_rank_pids s) (role, rank))")
      (auto simp: rank_step_def sbnd_def sres_def sget_def sput_def)
  have "fst r = state" using rest by (auto simp: sbnd_eq_Inr)
  moreover have "s_tick ?s1 \<le> s_tick t"
    using staysD [OF quiet.stays_sbnd [OF quiet_rank_report quiet.stays_sret] rest] quiet_tick by fastforce
  ultimately show ?thesis using r by (cases r) auto
qed

lemma rank_step_ready:
  assumes "rank_step w (w_role wk) now budget rank s = (Inr ''ready'', t)"
    "budget = of_int (c_progress cfg) \<or> budget = of_int (c_startup cfg)"
  shows "rank_evidence w cfg wk now (s_tick s) (s_tick t) rank"
proof -
  obtain pid where st: "rank_status \<lparr>v_size = e_size w (s_tick s) (rank_file (w_role wk) rank),
      v_text = e_text w (s_tick s + 1) (rank_file (w_role wk) rank), v_alive = e_alive w (s_tick s + 2)\<rparr>
      now budget (map_of (s_rank_pids s) (w_role wk, rank)) = Inr (''ready'', pid)" and t: "s_tick s + 3 \<le> s_tick t"
    using rank_step_Inr [OF assms(1)] by blast
  from rank_status_ready [OF st] assms(2) t show ?thesis
    unfolding rank_evidence_def by (intro exI [of _ "s_tick s"]) auto
qed

lemma http_of_tick [simp]: "http_of (s\<lparr>s_tick := n\<rparr>) role = http_of s role"
  by (simp add: http_of_def)

definition budget_of :: "pair_config \<Rightarrow> http_state \<Rightarrow> rat" where
  "budget_of cfg h = of_int (if h_ever_ready h then c_progress cfg else c_startup cfg)"

lemma worker_body_Inr:
  assumes "worker_body w cfg wk s = (Inr st, t)"
  shows "\<exists>ranks states s2. rank_range (w_ranks wk) = Inr ranks \<and>
    smap (rank_step w (w_role wk) (e_clock w (s_tick s)) (budget_of cfg (http_of s (w_role wk)))) ranks
      (s\<lparr>s_tick := Suc (s_tick s)\<rparr>) = (Inr states, s2) \<and>
    worker_verdict w wk (e_clock w (s_tick s)) (http_of s (w_role wk)) states s2 = (Inr st, t)"
  using assms unfolding worker_body_def Let_def budget_of_def [symmetric] 
  by (elim sbndE, simp only: observe_eq sget_eq sres_eq sum.inject, elim conjE, hypsubst,
      simp only: http_of_tick, blast)

lemma http_verdict_ready: "http_verdict h = ''ready'' \<longleftrightarrow> h_available h"
  by (simp add: http_verdict_def)

lemma http_poll_Inr:
  assumes "http_poll w wk now h s = (Inr h', t)" "h = http_of s (w_role wk)"
  shows "h' = http_of t (w_role wk)"
  using assms by (auto simp: http_poll_def Let_def sbnd_eq_Inr http_of_def map_of_dset split: if_splits)

definition same_http :: "sup \<Rightarrow> sup \<Rightarrow> bool" where
  "same_http s t \<longleftrightarrow> s_http t = s_http s"

interpretation same_http: frame same_http
  by unfold_locales (auto simp: same_http_def)

lemma same_http_emit: "stays same_http (emit event role kwargs)"
  by (rule staysI) (auto simp: emit_def same_http_def split: sum.splits)

lemma same_http_look: "stays same_http (look w file)"
  by (rule staysI) (auto simp: look_def same_http_def Let_def)

lemma same_http_observe: "stays same_http (observe f)"
  by (rule staysI) (auto simp: same_http_def)

lemma same_http_rank_step: "stays same_http (rank_step w role now budget rank)"
proof -
  have "stays same_http (sput (pin_pid role rank pid))" for pid
    by (rule staysI) (auto simp: same_http_def pin_pid_def split: option.splits)
  then show ?thesis unfolding rank_step_def rank_report_def
    by (intro same_http.stays_sbnd same_http.stays_sget same_http.stays_sres same_http.stays_if
        same_http.stays_sret same_http_look same_http_emit)
qed

lemma smap_same_http:
  assumes "smap (rank_step w role now budget) ranks s = (r, t)" shows "s_http t = s_http s"
  using staysD [OF same_http.stays_smap [OF same_http_rank_step] assms] by (simp add: same_http_def)

lemma worker_body_ready:
  assumes "worker_body w cfg wk s = (Inr ''ready'', t)"
  shows "(\<exists>ranks. rank_range (w_ranks wk) = Inr ranks \<and>
    (\<forall>rank \<in> set ranks. rank_evidence w cfg wk (e_clock w (s_tick s)) (s_tick s) (s_tick t) rank)) \<and>
    s_tick s < s_tick t \<and> h_available (http_of t (w_role wk))"
proof -
  let ?now = "e_clock w (s_tick s)" and ?budget = "budget_of cfg (http_of s (w_role wk))"
  obtain ranks states s2 where r: "rank_range (w_ranks wk) = Inr ranks"
    and m: "smap (rank_step w (w_role wk) ?now ?budget) ranks (s\<lparr>s_tick := Suc (s_tick s)\<rparr>) = (Inr states, s2)"
    and c: "worker_verdict w wk ?now (http_of s (w_role wk)) states s2 = (Inr ''ready'', t)"
    using worker_body_Inr [OF assms] by blast
  have states: "''failed'' \<notin> set states" "''starting'' \<notin> set states"
    using c by (auto simp: worker_verdict_def split: if_splits)
  with c obtain h' where h': "http_poll w wk ?now (http_of s (w_role wk)) s2 = (Inr h', t)" "h_available h'"
    by (auto simp: worker_verdict_def sbnd_eq_Inr http_verdict_ready [symmetric])
  have "s_http s2 = s_http s" using smap_same_http [OF m] by simp
  then have "h' = http_of t (w_role wk)"
    by (intro http_poll_Inr [OF h'(1)]) (simp add: http_of_def)
  moreover have t: "Suc (s_tick s) \<le> s_tick s2" "s_tick s2 \<le> s_tick t"
    using staysD [OF quiet.stays_smap [OF quiet_rank_step] m] staysD [OF quiet_http_poll h'(1)] quiet_tick
    by fastforce+
  moreover have "rank_evidence w cfg wk ?now (s_tick s) (s_tick t) rank" if rank: "rank \<in> set ranks" for rank
  proof -
    obtain y s1 t1 where y: "y \<in> set states" "rank_step w (w_role wk) ?now ?budget rank s1 = (Inr y, t1)"
      "Suc (s_tick s) \<le> s_tick s1" "s_tick t1 \<le> s_tick s2"
      using smap_member [OF m rank quiet_rank_step] by auto
    have "y = ''ready''" using rank_step_Inr [OF y(2)] rank_status_values states y(1) by fastforce
    then have "rank_evidence w cfg wk ?now (s_tick s1) (s_tick t1) rank"
      using rank_step_ready y(2) by (metis budget_of_def)
    then show ?thesis using rank_evidence_mono y(3,4) t by (meson Suc_leD dual_order.trans)
  qed
  ultimately show ?thesis using r h'(2) by auto
qed

end
