(* ===== verification/Pair_Safety.thy ===== *)
theory Pair_Safety
  imports Pair_Supervisor
begin

text \<open>
  What the supervisor of a pair guarantees: when its status endpoint answers 200, how it ends, what its
  workers run with, what it logs, and that its start and its shutdown come to an end.
\<close>

section \<open>The memory of HTTP polls\<close>

text \<open>
  A worker that has ever been available answered \<open>/health\<close> with 200 first, and an available worker's
  last poll was answered with 200.
\<close>

definition http_fact :: "world \<Rightarrow> pair_config \<Rightarrow> nat \<Rightarrow> string \<Rightarrow> http_state \<Rightarrow> bool" where
  "http_fact w cfg n role h \<longleftrightarrow>
     (h_available h \<longrightarrow> h_ever_ready h) \<and>
     (h_ever_ready h \<longrightarrow> (\<exists>wk \<in> set (c_workers cfg). w_role wk = role \<and>
        (\<exists>t < n. e_http w t (w_port wk) ''/health'' = Some 200)))"

definition http_inv :: "world \<Rightarrow> pair_config \<Rightarrow> sup \<Rightarrow> bool" where
  "http_inv w cfg s \<longleftrightarrow> (\<forall>role h. map_of (s_http s) role = Some h \<longrightarrow> http_fact w cfg (s_tick s) role h)"

definition http_kept :: "world \<Rightarrow> pair_config \<Rightarrow> sup \<Rightarrow> sup \<Rightarrow> bool" where
  "http_kept w cfg s t \<longleftrightarrow> s_tick s \<le> s_tick t \<and> (http_inv w cfg s \<longrightarrow> http_inv w cfg t)"

interpretation http_kept: frame "http_kept w cfg" for w cfg
  by unfold_locales (auto simp: http_kept_def)

lemma http_fact_mono: "http_fact w cfg n role h \<Longrightarrow> n \<le> m \<Longrightarrow> http_fact w cfg m role h"
  unfolding http_fact_def by (meson less_le_trans)

lemma http_keptI:
  assumes "stays quiet m" "stays same_http m" shows "stays (http_kept w cfg) m"
proof (rule staysI)
  fix s r t assume run: "m s = (r, t)"
  have "s_tick s \<le> s_tick t" using staysD [OF assms(1) run] quiet_tick by blast
  moreover have "s_http t = s_http s" using staysD [OF assms(2) run] by (simp add: same_http_def)
  ultimately show "http_kept w cfg s t"
    using http_fact_mono unfolding http_kept_def http_inv_def by metis
qed

lemma http_of_fact: "http_inv w cfg s \<Longrightarrow> http_fact w cfg (s_tick s) role (http_of s role)"
  by (auto simp: http_of_def http_inv_def http_fact_def no_http_def split: option.splits)

lemma http_poll_inv:
  assumes "http_poll w wk now h s = (r, t)" "http_inv w cfg s" "http_fact w cfg (s_tick s) (w_role wk) h"
    "wk \<in> set (c_workers cfg)"
  shows "http_inv w cfg t"
proof (cases "now - h_checked h \<ge> 2")
  case False
  then show ?thesis using assms(1,2) by (simp add: http_poll_def)
next
  case True
  let ?path = "if h_ever_ready h then ''/v1/models'' else ''/health''"
  let ?ok = "e_http w (s_tick s) (w_port wk) ?path = Some 200"
  let ?h = "\<lparr>h_checked = now, h_available = ?ok, h_failures = if ?ok then 0 else h_failures h + 1,
     h_ever_ready = h_ever_ready h \<or> ?ok\<rparr>"
  have t: "t = s\<lparr>s_tick := Suc (s_tick s), s_http := dset (w_role wk) ?h (s_http s)\<rparr>"
    using assms(1) True by (auto simp: http_poll_def Let_def sbnd_def observe_def sput_def sret_def)
  have "http_fact w cfg (Suc (s_tick s)) (w_role wk) ?h"
    using assms(3,4) by (auto simp: http_fact_def intro: less_SucI)
  moreover have "http_fact w cfg (Suc (s_tick s)) role h'" if "map_of (s_http s) role = Some h'" for role h'
    using assms(2) that http_fact_mono [of w cfg "s_tick s"] by (auto simp: http_inv_def)
  ultimately show ?thesis unfolding t http_inv_def by (auto simp: map_of_dset)
qed

lemma http_kept_smap: "stays (http_kept w cfg) (smap (rank_step v role now budget) ranks)"
  by (intro http_kept.stays_smap http_keptI quiet_rank_step same_http_rank_step)

lemma worker_body_http:
  assumes run: "worker_body w cfg wk s = (r, t)" and inv: "http_inv w cfg s"
    and wk: "wk \<in> set (c_workers cfg)"
  shows "http_inv w cfg t"
proof -
  let ?now = "e_clock w (s_tick s)" and ?h = "http_of s (w_role wk)"
  let ?s1 = "s\<lparr>s_tick := Suc (s_tick s)\<rparr>"
  have inv1: "http_inv w cfg ?s1"
    using inv http_fact_mono [of w cfg "s_tick s"] by (auto simp: http_inv_def)
  show ?thesis
  proof (cases "rank_range (w_ranks wk)")
    case (Inl e)
    then have "t = ?s1" using run by (auto simp: worker_body_def sbnd_def sres_def sget_def observe_def Let_def)
    then show ?thesis using inv1 by simp
  next
    case (Inr ranks)
    obtain r2 s2 where m: "smap (rank_step w (w_role wk) ?now (budget_of cfg ?h)) ranks ?s1 = (r2, s2)"
      by fastforce
    have kept: "http_kept w cfg ?s1 s2" using staysD [OF http_kept_smap m] .
    then have inv2: "http_inv w cfg s2" and tick: "s_tick s \<le> s_tick s2"
      using inv1 by (auto simp: http_kept_def)
    have rest: "(case r2 of Inl e \<Rightarrow> (Inl e, s2) | Inr states \<Rightarrow> worker_verdict w wk ?now ?h states s2) = (r, t)"
      using run m Inr unfolding worker_body_def
      by (simp add: sbnd_def sres_def sget_def observe_def Let_def budget_of_def split: sum.splits)
    obtain r3 s3 where poll: "http_poll w wk ?now ?h s2 = (r3, s3)" by fastforce
    have "http_inv w cfg s3"
      using http_poll_inv [OF poll inv2 _ wk] http_of_fact [OF inv] http_fact_mono [OF _ tick] by blast
    then show ?thesis using rest inv2 poll
      by (auto simp: worker_verdict_def sbnd_def sret_def split: sum.splits if_splits)
  qed
qed

lemma http_kept_worker_state:
  assumes "wk \<in> set (c_workers cfg)" shows "stays (http_kept w cfg) (worker_state w cfg wk)"
proof (rule staysI)
  fix s r t assume run: "worker_state w cfg wk s = (r, t)"
  have tick: "s_tick s \<le> s_tick t" using staysD [OF quiet_worker_state run] quiet_tick by blast
  let ?s1 = "s\<lparr>s_tick := Suc (s_tick s)\<rparr>"
  have "http_inv w cfg t" if inv: "http_inv w cfg s"
  proof -
    have inv1: "http_inv w cfg ?s1"
      using inv http_fact_mono [of w cfg "s_tick s"] by (auto simp: http_inv_def)
    consider "t = s"
      | c where "sbnd (emit ''child_exit'' (w_role wk) [(''code'', PInt c)]) (\<lambda>_. sret ''failed'') ?s1 = (r, t)"
      | "worker_body w cfg wk ?s1 = (r, t)"
      using run by (auto simp: worker_state_def sbnd_def observe_def sret_def split: option.splits)
    then show ?thesis
    proof cases
      case 1
      then show ?thesis using inv by simp
    next
      case (2 c)
      have "stays (http_kept w cfg) (sbnd (emit ''child_exit'' (w_role wk) [(''code'', PInt c)]) (\<lambda>_. sret ''failed''))"
        by (intro http_kept.stays_sbnd http_kept.stays_sret http_keptI quiet_emit same_http_emit)
      from staysD [OF this 2] inv1 show ?thesis by (simp add: http_kept_def)
    next
      case 3
      then show ?thesis using worker_body_http inv1 assms by blast
    qed
  qed
  then show "http_kept w cfg s t" using tick by (simp add: http_kept_def)
qed

lemma smap_stays_on:
  assumes "frame R" "\<And>x. x \<in> set xs \<Longrightarrow> stays R (f x)" shows "stays R (smap f xs)"
  using assms(2)
proof (induction xs)
  case Nil
  then show ?case using frame.stays_sret [OF assms(1)] by simp
next
  case (Cons x xs)
  then show ?case
    by (simp add: frame.stays_sbnd [OF assms(1)] frame.stays_sret [OF assms(1)])
qed

section \<open>One pass of the monitor\<close>

lemma worker_state_ready:
  assumes "worker_state w cfg wk s = (Inr ''ready'', t)"
  shows "worker_evidence w cfg wk (s_tick s) (s_tick t) \<and> h_available (http_of t (w_role wk)) \<and>
    w_role wk \<in> set (dkeys (s_children s))"
proof -
  let ?s1 = "s\<lparr>s_tick := Suc (s_tick s)\<rparr>"
  have c: "map_of (s_children s) (w_role wk) \<noteq> None" "e_poll w (s_tick s) (w_role wk) = None"
    "worker_body w cfg wk ?s1 = (Inr ''ready'', t)"
    using assms by (auto simp: worker_state_def sbnd_eq_Inr split: option.splits)
  note b = worker_body_ready [OF c(3)]
  then obtain ranks where ranks: "rank_range (w_ranks wk) = Inr ranks"
    "\<forall>rank \<in> set ranks. rank_evidence w cfg wk (e_clock w (Suc (s_tick s))) (Suc (s_tick s)) (s_tick t) rank"
    and tick: "Suc (s_tick s) < s_tick t" by auto
  have "\<forall>rank \<in> set ranks. rank_evidence w cfg wk (e_clock w (Suc (s_tick s))) (s_tick s) (s_tick t) rank"
    using ranks(2) rank_evidence_mono by (meson Suc_leD le_refl)
  then have "worker_evidence w cfg wk (s_tick s) (s_tick t)"
    unfolding worker_evidence_def using ranks(1) tick c(2) by (metis Suc_lessD le_SucI le_refl)
  then show ?thesis using b c(1) by (auto simp: dkeys_def map_of_eq_None_iff)
qed

section \<open>What the whole program keeps\<close>

text \<open>
  Process identifiers stay pinned, the log only grows and only by reviewed records, and the start time
  and the code locations stay.
\<close>

definition kept :: "sup \<Rightarrow> sup \<Rightarrow> bool" where
  "kept s t \<longleftrightarrow>
     s_tick s \<le> s_tick t \<and> s_started t = s_started s \<and> s_locations t = s_locations s \<and>
     (\<forall>k p. map_of (s_rank_pids s) k = Some p \<longrightarrow> map_of (s_rank_pids t) k = Some p) \<and>
     (\<exists>l. s_log t = s_log s @ l \<and> list_all (log_ok (s_locations s)) l)"

lemma kept_trans: "kept s t \<Longrightarrow> kept t u \<Longrightarrow> kept s u"
  unfolding kept_def by fastforce

interpretation kept: frame kept
  by unfold_locales (auto simp: kept_def intro: kept_trans [unfolded kept_def])

lemma kept_quiet: "stays quiet m \<Longrightarrow> stays kept m"
  unfolding stays_def quiet_def kept_def by fast

lemma kept_puts [intro]:
  "stays kept (sput (\<lambda>s. s\<lparr>s_failed := b\<rparr>))"
  "stays kept (sput (\<lambda>s. s\<lparr>s_stop := b\<rparr>))"
  "stays kept (sput (\<lambda>s. s\<lparr>s_failed := b, s_stop := c\<rparr>))"
  "stays kept (sput (\<lambda>s. s\<lparr>s_snapshot := x\<rparr>))"
  "stays kept (sput (\<lambda>s. s\<lparr>s_requests := f s, s_stop := b\<rparr>))"
  "stays kept (sput (\<lambda>s. s\<lparr>s_children := g s, s_spawned := h s\<rparr>))"
  "stays kept (sput (\<lambda>s. s\<lparr>s_signals := k s\<rparr>))"
  by (auto intro!: staysI simp: kept_def)

lemma kept_stop_set [intro]: "stays kept (stop_set w)"
  by (auto intro!: staysI simp: kept_def stop_set_def Let_def)

lemmas kept_basic = kept.stays_sbnd kept.stays_sret kept.stays_sres kept.stays_sget kept.stays_if
  kept_puts kept_quiet [OF quiet_observe] kept_quiet [OF quiet_emit] kept_quiet [OF quiet_worker_state]
  kept_quiet [OF quiet_model_exit] kept_quiet [OF quiet_startup_over] kept_quiet [OF quiet_any_failed]

lemma kept_mark_failed: "stays kept mark_failed"
  unfolding mark_failed_def by (rule kept_puts)

lemma kept_fail_snapshot: "stays kept (fail_snapshot w)"
  unfolding fail_snapshot_def by (intro kept_basic)

lemma kept_gate_poll: "stays kept (gate_poll w cfg)"
  unfolding gate_poll_def by (intro kept_basic kept_mark_failed)

lemma kept_launch_poll: "stays kept (launch_poll w cfg wk)"
  unfolding launch_poll_def by (intro kept_basic kept_mark_failed)

lemma kept_monitor_verdict: "stays kept (monitor_verdict w cfg state now)"
  unfolding monitor_verdict_def monitor_fail_def Let_def by (intro kept_basic kept_fail_snapshot)

lemma kept_monitor_step: "stays kept (monitor_step w cfg)"
  unfolding monitor_step_def
  by (intro kept_basic kept.stays_smap kept_monitor_verdict)

lemma kept_spawn: "stays kept (spawn w key command env)"
  unfolding spawn_def by (intro kept_basic)

lemma until_stop_kept:
  assumes "frame R" "stays R (stop_set w)" "stays R body" "until_stop w body d s = Some (r, t)"
  shows "R s t"
proof -
  have "w = w \<longrightarrow> body = body \<longrightarrow> R s (snd (r, t))"
  proof (rule until_stop.raw_induct [OF _ assms(4), where P = "\<lambda>v b e s x. v = w \<longrightarrow> b = body \<longrightarrow> R s (snd x)"],
      intro impI)
    fix f v b e s x
    assume ih: "\<And>v b e s x. f v b e s = Some x \<Longrightarrow> v = w \<longrightarrow> b = body \<longrightarrow> R s (snd x)"
      and run: "(case stop_set v s of (Inl e, s1) \<Rightarrow> Some (Inl e, s1)
        | (Inr stopped, s1) \<Rightarrow> if stopped then Some (Inr e, s1)
            else (case b s1 of (Inl e, s2) \<Rightarrow> Some (Inl e, s2)
                  | (Inr None, s2) \<Rightarrow> f v b e s2 | (Inr (Some x), s2) \<Rightarrow> Some (Inr x, s2))) = Some x"
      and v: "v = w" "b = body"
    obtain q s1 where s1: "stop_set w s = (q, s1)" by fastforce
    obtain y s2 where s2: "body s1 = (y, s2)" by fastforce
    have R: "R s s1" "R s1 s2" using staysD assms(2,3) s1 s2 by blast+
    then have "R s s2" using frame.trans [OF assms(1)] by blast
    moreover have "R s (snd x)" if "f v b e s2 = Some x"
      using ih [OF that] v \<open>R s s2\<close> frame.trans [OF assms(1)] by blast
    ultimately show "R s (snd x)" using run v s1 s2 R(1)
      by (auto split: sum.splits option.splits if_splits)
  qed
  then show ?thesis by simp
qed

section \<open>The start keeps the snapshot\<close>

definition calm :: "world \<Rightarrow> pair_config \<Rightarrow> sup \<Rightarrow> sup \<Rightarrow> bool" where
  "calm w cfg s t \<longleftrightarrow> http_kept w cfg s t \<and> kept s t \<and> s_snapshot t = s_snapshot s"

interpretation calm: frame "calm w cfg" for w cfg
  by unfold_locales
    (auto simp: calm_def http_kept.refl kept.refl intro: http_kept.trans kept.trans)

lemma calmI: "stays quiet m \<Longrightarrow> stays same_http m \<Longrightarrow> stays (calm w cfg) m"
  using http_keptI [of m w cfg] kept_quiet [of m] unfolding stays_def calm_def quiet_def by blast

lemma calm_worker_state: "wk \<in> set (c_workers cfg) \<Longrightarrow> stays (calm w cfg) (worker_state w cfg wk)"
  using http_kept_worker_state [of wk cfg w] kept_quiet [OF quiet_worker_state, of w cfg wk]
    quiet_worker_state [of w cfg wk]
  unfolding stays_def calm_def quiet_def by blast

lemma same_http_model_exit: "stays same_http (model_exit w)"
  unfolding model_exit_def
  by (rule same_http.stays_sbnd [OF same_http_observe])
    (auto split: option.split intro: same_http.stays_sbnd same_http_emit)

lemma same_http_startup_over: "stays same_http (startup_over w cfg)"
  unfolding startup_over_def
  by (intro same_http.stays_sbnd same_http_observe same_http.stays_sget same_http.stays_sret)

lemma calm_same:
  assumes "\<And>s. s_tick (f s) = s_tick s \<and> s_http (f s) = s_http s \<and> kept s (f s) \<and> s_snapshot (f s) = s_snapshot s"
  shows "stays (calm w cfg) (sput f)"
  using assms by (auto intro!: staysI simp: calm_def http_kept_def http_inv_def)

lemma calm_mark_failed: "stays (calm w cfg) mark_failed"
  unfolding mark_failed_def by (rule calm_same) (simp add: kept_def)

lemma calm_stop_set: "stays (calm w cfg) (stop_set w)"
  using http_fact_mono [of w cfg]
  by (auto intro!: staysI simp: calm_def http_kept_def http_inv_def kept_def stop_set_def Let_def)
    (meson le_SucI le_refl)+

lemma calm_any_failed: "set ps \<subseteq> set (c_workers cfg) \<Longrightarrow> stays (calm w cfg) (any_failed w cfg ps)"
proof (induction ps)
  case (Cons p ps)
  then show ?case
    by (simp add: calm.stays_sbnd calm_worker_state calm.stays_if calm.stays_sret)
qed (simp add: calm.stays_sret)

lemmas calm_basic = calm.stays_sbnd calm.stays_sret calm.stays_sres calm.stays_sget calm.stays_if
  calmI [OF quiet_observe same_http_observe] calmI [OF quiet_emit same_http_emit]
  calmI [OF quiet_model_exit same_http_model_exit] calmI [OF quiet_startup_over same_http_startup_over]
  calm_mark_failed

lemma calm_gate_poll: "stays (calm w cfg) (gate_poll w cfg)"
  unfolding gate_poll_def by (intro calm_basic)

lemma calm_launch_poll: "wk \<in> set (c_workers cfg) \<Longrightarrow> stays (calm w cfg) (launch_poll w cfg wk)"
  unfolding launch_poll_def
  by (intro calm_basic calm_worker_state calm_any_failed) (auto simp: previous_workers_def)

lemma calm_spawn: "stays (calm w cfg) (spawn w' key command env)"
  unfolding spawn_def by (intro calm_basic calm_same) (simp add: kept_def)

lemma start_workers_calm:
  "start_workers w cfg l n wks s = Some (r, t) \<Longrightarrow> set wks \<subseteq> set (c_workers cfg) \<Longrightarrow> calm w cfg s t"
proof (induction w cfg l n wks s rule: start_workers.induct)
  case (2 w cfg l n wk wks s)
  let ?m = "sbnd (stop_set w) (\<lambda>stopped.
             if stopped then sret True
             else sbnd (spawn w (w_role wk) (w_command wk)
                    (worker_environ (l_environ l) (l_devices l) n wk (l_run_dir l))) (\<lambda>_. sret False))"
  have m: "stays (calm w cfg) ?m" by (intro calm_basic calm_stop_set calm_spawn)
  obtain r1 s1 where s1: "?m s = (r1, s1)" by fastforce
  have a: "calm w cfg s s1" using staysD [OF m s1] .
  show ?case
  proof (cases "r1 = Inr False")
    case False
    then have "t = s1" using 2(2) s1 by (auto split: sum.splits bool.splits)
    then show ?thesis using a by simp
  next
    case True
    then obtain r2 s2 where s2: "until_stop w (launch_poll w cfg wk) () s1 = Some (r2, s2)"
      using 2(2) s1 by (auto split: option.splits)
    have b: "calm w cfg s1 s2"
      using until_stop_kept [OF calm.frame_axioms calm_stop_set calm_launch_poll s2] 2(3) by simp
    obtain r3 s3 where s3: "stop_set w s2 = (r3, s3)" by fastforce
    have c: "calm w cfg s2 s3" using staysD [OF calm_stop_set s3] .
    have ab: "calm w cfg s s2" using a b calm.trans by blast
    then have abc: "calm w cfg s s3" using c calm.trans by blast
    have "t = s2 \<or> t = s3 \<or> calm w cfg s3 t"
      using 2 s1 s2 s3 True by (auto split: sum.splits bool.splits)
    then show ?thesis using ab abc calm.trans by blast
  qed
qed (simp add: calm.refl)

lemma launch_order_subset: "set (launch_order cfg) \<subseteq> set (c_workers cfg)"
  by (auto simp: launch_order_def)

lemma start_calm:
  assumes "start w cfg l s = Some (r, t)" "l_setup l = Inr locations"
  shows "calm w cfg (s\<lparr>s_locations := locations\<rparr>) t"
proof -
  let ?s = "s\<lparr>s_locations := locations\<rparr>"
  let ?m = "spawn w ''model'' (gate_command cfg (l_run_dir l)) (inherited (l_environ l))"
  obtain r1 s1 where s1: "?m ?s = (r1, s1)" by fastforce
  have a: "calm w cfg ?s s1" using staysD [OF calm_spawn s1] .
  show ?thesis
  proof (cases r1)
    case (Inl e)
    then have "t = s1" using assms s1 by (simp add: start_def sbnd_def sres_def sput_def)
    then show ?thesis using a by simp
  next
    case (Inr u)
    then obtain r2 s2 where s2: "until_stop w (gate_poll w cfg) True s1 = Some (r2, s2)"
      using assms s1 by (auto simp: start_def sbnd_def sres_def sput_def split: option.splits)
    have b: "calm w cfg s1 s2"
      using until_stop_kept [OF calm.frame_axioms calm_stop_set calm_gate_poll s2] .
    have ab: "calm w cfg ?s s2" using a b calm.trans by blast
    have "t = s2 \<or> start_workers w cfg l 0 (launch_order cfg) s2 = Some (r, t)"
      using assms s1 s2 Inr by (auto simp: start_def sbnd_def sres_def sput_def split: sum.splits if_splits)
    then show ?thesis using ab start_workers_calm launch_order_subset calm.trans by blast
  qed
qed

section \<open>When the endpoint answers 200\<close>

lemma smap_member_frame:
  assumes "frame R" "smap f xs s = (Inr ys, t)" "x \<in> set xs" "\<And>x. x \<in> set xs \<Longrightarrow> stays R (f x)"
  shows "\<exists>y \<in> set ys. \<exists>s1 t1. R s s1 \<and> f x s1 = (Inr y, t1) \<and> R t1 t"
  using assms(2-4)
proof (induction xs arbitrary: s ys)
  case (Cons z zs)
  then obtain y s' ys' where z: "f z s = (Inr y, s')" "smap f zs s' = (Inr ys', t)" "ys = y # ys'"
    by (auto simp: sbnd_eq_Inr)
  have "stays R (smap f zs)" by (rule smap_stays_on [OF assms(1)]) (simp add: Cons.prems(3))
  moreover have "stays R (f z)" using Cons.prems(3) by simp
  ultimately have R: "R s s'" "R s' t" using z(1,2) by (simp_all only: staysD)
  show ?case
  proof (cases "x = z")
    case True
    have "R s s" by (rule frame.refl [OF assms(1)])
    then show ?thesis using z R True by auto
  next
    case False
    then have "x \<in> set zs" using Cons.prems(2) by simp
    then have "\<exists>y \<in> set ys'. \<exists>s1 t1. R s' s1 \<and> f x s1 = (Inr y, t1) \<and> R t1 t"
      by (rule Cons.IH [OF z(2)]) (simp add: Cons.prems(3))
    then obtain y1 s1 t1 where y1: "y1 \<in> set ys'" "R s' s1" "f x s1 = (Inr y1, t1)" "R t1 t" by blast
    have "R s s1" by (rule frame.trans [OF assms(1) R(1) y1(2)])
    then show ?thesis using y1 z(3) by auto
  qed
qed simp

lemma worker_state_values:
  assumes "worker_state w cfg wk s = (Inr st, t)"
  shows "st \<in> {''failed'', ''starting'', ''ready''}"
proof -
  have "st \<in> {''failed'', ''starting'', ''ready''}" if "worker_body w cfg wk u = (Inr st, t)" for u
    using worker_body_Inr [OF that]
    by (auto simp: worker_verdict_def http_verdict_def sbnd_eq_Inr split: if_splits)
  then show ?thesis using assms
    by (auto simp: worker_state_def sbnd_eq_Inr split: option.splits)
qed

lemma worker_state_health:
  assumes "worker_state w cfg wk s = (Inr ''ready'', t)" "http_inv w cfg s" "wk \<in> set (c_workers cfg)"
    "distinct (map w_role (c_workers cfg))"
  shows "\<exists>n < s_tick t. e_http w n (w_port wk) ''/health'' = Some 200"
proof -
  have "http_inv w cfg t"
    using staysD [OF http_kept_worker_state [OF assms(3)] assms(1)] assms(2) by (simp add: http_kept_def)
  then have "http_fact w cfg (s_tick t) (w_role wk) (http_of t (w_role wk))" by (rule http_of_fact)
  moreover have "h_available (http_of t (w_role wk))" using worker_state_ready [OF assms(1)] by simp
  ultimately obtain wk' n where n: "wk' \<in> set (c_workers cfg)" "w_role wk' = w_role wk" "n < s_tick t"
    "e_http w n (w_port wk') ''/health'' = Some 200" by (auto simp: http_fact_def)
  have "wk' = wk" using n(1,2) assms(3,4) by (auto simp: distinct_map inj_on_def)
  then show ?thesis using n by blast
qed

text \<open>
  What the readings \<open>a ..< b\<close> showed of the whole pair: both workers run with every rank healthy, each
  has answered \<open>/health\<close>, the model gate was still running, and the clock read \<open>now\<close> at the end.
\<close>

definition pair_evidence :: "world \<Rightarrow> pair_config \<Rightarrow> nat \<Rightarrow> nat \<Rightarrow> rat \<Rightarrow> bool" where
  "pair_evidence w cfg a b now \<longleftrightarrow>
     (\<forall>wk \<in> set (c_workers cfg). worker_evidence w cfg wk a b \<and>
        (\<exists>n < b. e_http w n (w_port wk) ''/health'' = Some 200)) \<and>
     (\<exists>n. a \<le> n \<and> n < b \<and> e_poll w n ''model'' = None) \<and>
     (\<exists>n. a \<le> n \<and> n < b \<and> now = e_clock w n)"

lemma calm_tick: "calm w cfg s t \<Longrightarrow> s_tick s \<le> s_tick t"
  by (simp add: calm_def kept_def)

lemma calm_http: "calm w cfg s t \<Longrightarrow> http_inv w cfg s \<Longrightarrow> http_inv w cfg t"
  by (simp add: calm_def http_kept_def)

lemma monitor_verdict_ready:
  assumes "monitor_verdict w cfg state now s = (r, t)" "fst (s_snapshot t) = ''ready''"
  shows "s_snapshot t = s_snapshot s \<or>
    (state = ''ready'' \<and> r = Inr () \<and> t = s\<lparr>s_snapshot := (''ready'', now)\<rparr>)"
proof (cases "state = ''ready''")
  case True
  then show ?thesis using assms by (auto simp: monitor_verdict_def sbnd_def sget_def sput_def sret_def)
next
  case False
  have nofail: "fst (s_snapshot u) \<noteq> ''failed''" if "monitor_fail w u = (r, t)" for u
    using that assms(2) by (auto simp: monitor_fail_def fail_snapshot_def sbnd_def sput_def observe_def emit_def
        split: sum.splits prod.splits)
  show ?thesis using assms False unfolding monitor_verdict_def
    by (auto simp: sbnd_def sget_def sput_def sret_def emit_def Let_def dest!: nofail
        split: sum.splits prod.splits if_splits)
qed

lemma overall_ready:
  "overall (states @ (if exited then [''failed''] else [])) = ''ready'' \<longleftrightarrow>
     \<not> exited \<and> ''failed'' \<notin> set states \<and> ''starting'' \<notin> set states"
  by (auto simp: overall_def)

lemma monitor_step_ready:
  assumes step: "monitor_step w cfg s = (r, t)" and ready: "fst (s_snapshot t) = ''ready''"
    and http: "http_inv w cfg s" and roles: "distinct (map w_role (c_workers cfg))"
  shows "s_snapshot t = s_snapshot s \<or>
    (r = Inr None \<and> pair_evidence w cfg (s_tick s) (s_tick t) (snd (s_snapshot t)))"
proof -
  obtain r1 s1 where s1: "smap (worker_state w cfg) (c_workers cfg) s = (r1, s1)" by fastforce
  have calm1: "calm w cfg s s1"
    by (rule staysD [OF smap_stays_on [OF calm.frame_axioms calm_worker_state] s1])
  obtain r2 s2 where s2: "model_exit w s1 = (r2, s2)" by fastforce
  have calm2: "calm w cfg s1 s2"
    by (rule staysD [OF calmI [OF quiet_model_exit same_http_model_exit] s2])
  have same: "s_snapshot s1 = s_snapshot s" "s_snapshot s2 = s_snapshot s"
    using calm1 calm2 by (simp_all add: calm_def)
  show ?thesis
  proof (cases "\<exists>states exited. r1 = Inr states \<and> r2 = Inr exited")
    case False
    then have "t = s1 \<or> t = s2"
      using step s1 s2 by (auto simp: monitor_step_def sbnd_def split: sum.splits)
    then show ?thesis using same by auto
  next
    case True
    then obtain states exited where inr: "r1 = Inr states" "r2 = Inr exited" by blast
    let ?s3 = "s2\<lparr>s_tick := Suc (s_tick s2)\<rparr>"
    let ?state = "overall (states @ (if exited then [''failed''] else []))"
    obtain r4 where s4: "monitor_verdict w cfg ?state (e_clock w (s_tick s2)) ?s3 = (r4, t)"
      and r: "r = (case r4 of Inl e \<Rightarrow> Inl e | Inr _ \<Rightarrow> Inr None)"
      using step s1 s2 inr
      by (auto simp: monitor_step_def sbnd_def observe_def sret_def split: sum.splits prod.splits)
    from monitor_verdict_ready [OF s4 ready] consider "s_snapshot t = s_snapshot ?s3"
      | "?state = ''ready''" "r4 = Inr ()" "t = ?s3\<lparr>s_snapshot := (''ready'', e_clock w (s_tick s2))\<rparr>" by blast
    then show ?thesis
    proof cases
      case 1
      then show ?thesis using same by simp
    next
      case 2
      have tick: "s_tick s \<le> s_tick s1" "s_tick s1 \<le> s_tick s2" "s_tick t = Suc (s_tick s2)"
        using calm_tick calm1 calm2 2(3) by auto
      have all: "worker_evidence w cfg wk (s_tick s) (s_tick t) \<and>
          (\<exists>n < s_tick t. e_http w n (w_port wk) ''/health'' = Some 200)"
        if wk: "wk \<in> set (c_workers cfg)" for wk
      proof -
        obtain y a b where y: "y \<in> set states" "calm w cfg s a" "worker_state w cfg wk a = (Inr y, b)" "calm w cfg b s1"
          using smap_member_frame [OF calm.frame_axioms s1 [unfolded inr] wk calm_worker_state] by blast
        have "y = ''ready''" using y(1) worker_state_values [OF y(3)] 2(1) by (auto simp: overall_ready)
        then have run: "worker_state w cfg wk a = (Inr ''ready'', b)" using y(3) by simp
        have ev: "worker_evidence w cfg wk (s_tick a) (s_tick b)" using worker_state_ready [OF run] by simp
        have ab: "s_tick s \<le> s_tick a" "s_tick b \<le> s_tick t"
          using calm_tick [OF y(2)] calm_tick [OF y(4)] tick by auto
        have "\<exists>n < s_tick b. e_http w n (w_port wk) ''/health'' = Some 200"
          using worker_state_health [OF run calm_http [OF y(2) http] wk roles] .
        then show ?thesis using worker_evidence_mono [OF ev ab] ab(2) by (meson less_le_trans)
      qed
      have "e_poll w (s_tick s1) ''model'' = None"
        using s2 inr 2(1) by (auto simp: overall_ready model_exit_def sbnd_eq_Inr split: option.splits)
      then have gate: "\<exists>n. s_tick s \<le> n \<and> n < s_tick t \<and> e_poll w n ''model'' = None"
        using tick by (intro exI [of _ "s_tick s1"]) simp
      have "\<exists>n. s_tick s \<le> n \<and> n < s_tick t \<and> e_clock w (s_tick s2) = e_clock w n"
        using tick by (intro exI [of _ "s_tick s2"]) simp
      then have "pair_evidence w cfg (s_tick s) (s_tick t) (e_clock w (s_tick s2))"
        using all gate unfolding pair_evidence_def by blast
      then show ?thesis using 2 r by simp
    qed
  qed
qed

section \<open>While the monitor runs\<close>

text \<open>The rounds of \<open>monitor\<close>, with the datagrams that the other thread handles in between.\<close>

inductive watched :: "world \<Rightarrow> pair_config \<Rightarrow> sup \<Rightarrow> sup \<Rightarrow> bool" for w cfg where
  enter: "watched w cfg s s"
| round: "watched w cfg s t \<Longrightarrow> stop_set w t = (Inr False, t1) \<Longrightarrow> monitor_step w cfg t1 = (r, u) \<Longrightarrow>
    watched w cfg s u"
| datagram: "watched w cfg s t \<Longrightarrow> collect_event data t = (r, u) \<Longrightarrow> watched w cfg s u"

lemma collect_event_frame:
  assumes "collect_event data s = (r, t)"
  shows "s_snapshot t = s_snapshot s \<and> s_http t = s_http s \<and> s_tick t = s_tick s"
  using assms by (auto simp: collect_event_def Let_def split: if_splits sum.splits option.splits)

definition snapshot_inv :: "world \<Rightarrow> pair_config \<Rightarrow> sup \<Rightarrow> bool" where
  "snapshot_inv w cfg s \<longleftrightarrow> http_inv w cfg s \<and>
     (fst (s_snapshot s) = ''ready'' \<longrightarrow>
        (\<exists>a b. b \<le> s_tick s \<and> pair_evidence w cfg a b (snd (s_snapshot s))))"

lemma monitor_step_http: "stays (http_kept w cfg) (monitor_step w cfg)"
proof -
  have put: "stays (http_kept w cfg) (sput f)" if "\<And>s. s_http (f s) = s_http s \<and> s_tick (f s) = s_tick s" for f
    using that by (auto intro!: staysI simp: http_kept_def http_inv_def)
  have basic: "stays (http_kept w cfg) (observe g)" "stays (http_kept w cfg) (emit e p k)" for g :: "nat \<Rightarrow> rat" and e p k
    by (intro http_keptI quiet_observe quiet_emit same_http_observe same_http_emit)+
  show ?thesis
    unfolding monitor_step_def monitor_verdict_def monitor_fail_def fail_snapshot_def Let_def
    by (intro http_kept.stays_sbnd smap_stays_on [OF http_kept.frame_axioms] http_kept_worker_state
        http_keptI [OF quiet_model_exit same_http_model_exit] basic http_kept.stays_if
        http_kept.stays_sget http_kept.stays_sret put) auto
qed

lemma watched_snapshot_inv:
  assumes "watched w cfg s t" "snapshot_inv w cfg s" "distinct (map w_role (c_workers cfg))"
  shows "snapshot_inv w cfg t"
  using assms
proof (induction rule: watched.induct)
  case (round s t t1 r u)
  have t: "snapshot_inv w cfg t" using round by simp
  have stop: "calm w cfg t t1" using staysD [OF calm_stop_set round(2)] .
  have t1: "http_inv w cfg t1" using calm_http [OF stop] t by (simp add: snapshot_inv_def)
  have u: "http_kept w cfg t1 u" using staysD [OF monitor_step_http round(3)] .
  have tick: "s_tick t \<le> s_tick t1" "s_tick t1 \<le> s_tick u" "s_snapshot t1 = s_snapshot t"
    using calm_tick [OF stop] u stop by (auto simp: http_kept_def calm_def)
  have "\<exists>a b. b \<le> s_tick u \<and> pair_evidence w cfg a b (snd (s_snapshot u))" if ready: "fst (s_snapshot u) = ''ready''"
    using monitor_step_ready [OF round(3) ready t1 round.prems(2)]
  proof
    assume same: "s_snapshot u = s_snapshot t1"
    then obtain a b where "b \<le> s_tick t" "pair_evidence w cfg a b (snd (s_snapshot t))"
      using t ready tick(3) by (auto simp: snapshot_inv_def)
    then show ?thesis using same tick by (metis le_trans)
  qed (use order.refl in blast)
  then show ?case using u t1 by (auto simp: snapshot_inv_def http_kept_def)
next
  case (datagram s t data r u)
  then show ?case using collect_event_frame [OF datagram(2)] by (auto simp: snapshot_inv_def http_inv_def)
qed

lemma worker_of_role: "worker_of v = Inr wk \<Longrightarrow> jidx v ''role'' = Inr (PStr (w_role wk))"
  by (auto simp: worker_of_def str_method_eq_Inr elim!: bndE)

lemma config_of_workers:
  "config_of config = Inr cfg \<Longrightarrow>
    bnd (bnd (jidx config ''workers'') jiter) (mapM worker_of) = Inr (c_workers cfg)"
  unfolding config_of_def by (elim bndE) auto

lemma config_roles_distinct:
  assumes "validate_config config = Inr ()" "config_of config = Inr cfg"
  shows "distinct (map w_role (c_workers cfg))"
proof -
  obtain w1 w2 r1 r2 where w: "jidx config ''workers'' = Inr (PList [w1, w2])"
    "jidx w1 ''role'' = Inr r1" "jidx w2 ''role'' = Inr r2" "{r1, r2} = {PStr ''prefill'', PStr ''decode''}"
    by (rule validate_config_parts [OF assms(1)])
  have "r1 \<noteq> r2" using w(4) by (simp add: doubleton_eq_iff) (elim disjE conjE; simp)
  moreover have ws: "mapM worker_of [w1, w2] = Inr (c_workers cfg)"
    using config_of_workers [OF assms(2)] w(1) by simp
  moreover obtain k1 k2 where "worker_of w1 = Inr k1" "worker_of w2 = Inr k2" "c_workers cfg = [k1, k2]"
    using ws by (auto elim!: bndE)
  ultimately show ?thesis using worker_of_role [of w1 k1] worker_of_role [of w2 k2] w(2,3) by auto
qed

lemma new_supervisor_fresh:
  assumes "new_supervisor config devices now = Inr (cfg, s0)"
  shows "validate_config config = Inr () \<and> config_of config = Inr cfg \<and> s_http s0 = [] \<and> s_log s0 = [] \<and>
    s_snapshot s0 = (''starting'', now) \<and> s_children s0 = [] \<and> s_rank_pids s0 = [] \<and> s_started s0 = now \<and>
    s_failed s0 = False \<and> s_stop s0 = False \<and> s_signals s0 = [] \<and> s_spawned s0 = []"
  using assms by (auto simp: new_supervisor_def raise_if_eq_Inr elim!: bndE)


section \<open>The order of the start\<close>

definition settled :: "sup \<Rightarrow> sup \<Rightarrow> bool" where
  "settled s t \<longleftrightarrow> s_tick s \<le> s_tick t \<and> s_spawned t = s_spawned s \<and> s_children t = s_children s"

interpretation settled: frame settled
  by unfold_locales (auto simp: settled_def)

lemma settledI: "stays quiet m \<Longrightarrow> stays settled m"
  unfolding stays_def quiet_def settled_def by blast

lemma settled_mark_failed: "stays settled mark_failed"
  by (auto intro!: staysI simp: mark_failed_def settled_def)

lemma settled_stop_set: "stays settled (stop_set w)"
  by (auto intro!: staysI simp: stop_set_def settled_def Let_def)

lemmas settled_basic = settled.stays_sbnd settled.stays_sret settled.stays_sget settled.stays_if
  settledI [OF quiet_observe] settledI [OF quiet_emit] settledI [OF quiet_model_exit]
  settledI [OF quiet_startup_over] settledI [OF quiet_worker_state] settledI [OF quiet_any_failed]
  settled_mark_failed

lemma settled_gate_poll: "stays settled (gate_poll w cfg)"
  unfolding gate_poll_def by (intro settled_basic)

lemma settled_launch_poll: "stays settled (launch_poll w cfg wk)"
  unfolding launch_poll_def by (intro settled_basic)

lemma until_stop_exit:
  assumes "frame R" "stays R (stop_set w)" "stays R body" "until_stop w body d s = Some (Inr (x :: 'a), t)"
  shows "(x = d \<and> s_stop t) \<or> (\<exists>u. R s u \<and> body u = (Inr (Some x), t))"
proof -
  let ?Q = "\<lambda>s (z :: 'a res \<times> sup). \<forall>x t. z = (Inr x, t) \<longrightarrow> (x = d \<and> s_stop t) \<or> (\<exists>u. R s u \<and> body u = (Inr (Some x), t))"
  let ?P = "\<lambda>v b e s z. v = w \<longrightarrow> b = body \<longrightarrow> e = d \<longrightarrow> ?Q s z"
  have step: "?P v b e s z"
    if ih: "\<And>v b e s z. f v b e s = Some z \<Longrightarrow> ?P v b e s z"
      and run: "(case stop_set v s of (Inl e, s1) \<Rightarrow> Some (Inl e, s1)
        | (Inr stopped, s1) \<Rightarrow> if stopped then Some (Inr e, s1)
            else (case b s1 of (Inl e, s2) \<Rightarrow> Some (Inl e, s2)
                  | (Inr None, s2) \<Rightarrow> f v b e s2 | (Inr (Some x), s2) \<Rightarrow> Some (Inr x, s2))) = Some z"
    for f v b e s z
  proof (intro impI)
    assume v: "v = w" "b = body" "e = d"
    obtain q s1 where s1: "stop_set w s = (q, s1)" by fastforce
    obtain y s2 where s2: "body s1 = (y, s2)" by fastforce
    have R: "R s s1" "R s1 s2" using staysD assms(2,3) s1 s2 by blast+
    have again: "?Q s z" if again: "f v b e s2 = Some z"
      using ih [OF again] v R frame.trans [OF assms(1)] by blast
    have "s_stop s1" if "q = Inr True" using s1 that by (auto simp: stop_set_def Let_def)
    then show "?Q s z" using run v s1 s2 R(1) again
      by (auto split: sum.splits option.splits if_splits)
  qed
  have "?P w body d s (Inr x, t)"
    by (rule until_stop.raw_induct [of ?P, OF _ assms(4)]) (rule step)
  then show ?thesis by simp
qed

fun worker_plans :: "launch \<Rightarrow> nat \<Rightarrow> worker list \<Rightarrow> (pyv \<times> (string \<times> string) list) list" where
  "worker_plans l offset [] = []"
| "worker_plans l offset (wk # wks) =
     (w_command wk, worker_environ (l_environ l) (l_devices l) offset wk (l_run_dir l))
       # worker_plans l (offset + nat (w_gpus wk)) wks"

lemma launch_poll_done:
  assumes "launch_poll w cfg wk u = (Inr (Some ()), t)"
  shows "s_stop t \<or> worker_evidence w cfg wk (s_tick u) (s_tick t)"
proof -
  have fails: "s_stop t'" if "sbnd mark_failed (\<lambda>_. sret z) u' = (Inr y, t')" for z :: "unit option" and u' y t'
    using that by (auto simp: mark_failed_def sbnd_eq_Inr)
  obtain exited s1 where s1: "model_exit w u = (Inr exited, s1)"
    and rest: "(if exited then sbnd mark_failed (\<lambda>_. sret (Some ()))
     else sbnd (sbnd sget (\<lambda>s. any_failed w cfg (previous_workers cfg wk s))) (\<lambda>bad.
       if bad then sbnd (emit ''rank_failed'' ''pair'' []) (\<lambda>_. sbnd mark_failed (\<lambda>_. sret (Some ())))
       else sbnd (worker_state w cfg wk) (\<lambda>state.
         if state = ''ready'' then sret (Some ())
         else if state = ''failed''
         then sbnd (emit ''rank_failed'' (w_role wk) []) (\<lambda>_. sbnd mark_failed (\<lambda>_. sret (Some ())))
         else sbnd (startup_over w cfg) (\<lambda>over.
           if over
           then sbnd (emit ''startup_timeout'' (w_role wk) []) (\<lambda>_. sbnd mark_failed (\<lambda>_. sret (Some ())))
           else sret None)))) s1 = (Inr (Some ()), t)"
    using assms unfolding launch_poll_def by (rule sbndE)
  show ?thesis
  proof (cases exited)
    case True
    then show ?thesis using rest fails by auto
  next
    case False
    then obtain bad s2 where s2: "any_failed w cfg (previous_workers cfg wk s1) s1 = (Inr bad, s2)"
      and rest2: "(if bad then sbnd (emit ''rank_failed'' ''pair'' []) (\<lambda>_. sbnd mark_failed (\<lambda>_. sret (Some ())))
       else sbnd (worker_state w cfg wk) (\<lambda>state.
         if state = ''ready'' then sret (Some ())
         else if state = ''failed''
         then sbnd (emit ''rank_failed'' (w_role wk) []) (\<lambda>_. sbnd mark_failed (\<lambda>_. sret (Some ())))
         else sbnd (startup_over w cfg) (\<lambda>over.
           if over
           then sbnd (emit ''startup_timeout'' (w_role wk) []) (\<lambda>_. sbnd mark_failed (\<lambda>_. sret (Some ())))
           else sret None))) s2 = (Inr (Some ()), t)"
      using rest by (auto simp: sbnd_eq_Inr)
    have tick: "s_tick u \<le> s_tick s1" "s_tick s1 \<le> s_tick s2"
      using staysD [OF quiet_model_exit s1] staysD [OF quiet_any_failed s2] by (auto simp: quiet_def)
    have "s_stop t \<or> worker_state w cfg wk s2 = (Inr ''ready'', t)"
      using rest2 fails by (auto simp: sbnd_eq_Inr split: if_splits)
    then show ?thesis
      using worker_state_ready [of w cfg wk s2 t] worker_evidence_mono tick le_trans by blast
  qed
qed

lemma spawn_spawned:
  assumes "spawn w key command env s = (r, t)"
  shows "s_tick s \<le> s_tick t \<and>
    (s_spawned t = s_spawned s \<and> (\<exists>e. r = Inl e) \<or> s_spawned t = s_spawned s @ [(command, env)] \<and> r = Inr ())"
  using assms by (auto simp: spawn_def sbnd_def observe_def sres_def sput_def split: sum.splits)

lemma stop_set_result: "stop_set w s = (Inr b, t) \<Longrightarrow> s_stop s \<longrightarrow> b"
  by (auto simp: stop_set_def Let_def)

lemma stop_set_not_Inl: "stop_set w s \<noteq> (Inl e, t)"
  by (simp add: stop_set_def Let_def)

lemma start_workers_spawned:
  "start_workers w cfg l offset wks s = Some (r, t) \<Longrightarrow>
    s_tick s \<le> s_tick t \<and>
    (\<exists>n. n \<le> length wks \<and> s_spawned t = s_spawned s @ take n (worker_plans l offset wks) \<and>
      (0 < n \<longrightarrow> \<not> s_stop s) \<and>
      (\<forall>i. Suc i < n \<longrightarrow> (\<exists>a b. b \<le> s_tick t \<and> worker_evidence w cfg (wks ! i) a b)))"
proof (induction w cfg l offset wks s rule: start_workers.induct)
  case (2 w cfg l offset wk wks s)
  let ?env = "worker_environ (l_environ l) (l_devices l) offset wk (l_run_dir l)"
  obtain b s1 where s1: "stop_set w s = (Inr b, s1)" using stop_set_not_Inl by (metis prod.exhaust sum.exhaust)
  have a1: "settled s s1" by (rule staysD [OF settled_stop_set s1])
  show ?case
  proof (cases b)
    case True
    then show ?thesis using 2(2) s1 a1 by (intro conjI exI [of _ 0]) (auto simp: sbnd_def sret_def settled_def)
  next
    case False
    note running = stop_set_result [OF s1] False
    obtain q s2 where s2: "spawn w (w_role wk) (w_command wk) ?env s1 = (q, s2)" by fastforce
    note sp = spawn_spawned [OF s2]
    show ?thesis
    proof (cases q)
      case (Inl e)
      then have "t = s2" using 2(2) s1 s2 False by (auto simp: sbnd_def sret_def)
      then show ?thesis using sp Inl a1 by (intro conjI exI [of _ 0]) (auto simp: settled_def)
    next
      case (Inr u)
      have one: "s_spawned s2 = s_spawned s @ [(w_command wk, ?env)]" "s_tick s \<le> s_tick s2"
        using sp Inr a1 by (auto simp: settled_def)
      have pre: "sbnd (stop_set w) (\<lambda>stopped. if stopped then sret True
          else sbnd (spawn w (w_role wk) (w_command wk) ?env) (\<lambda>_. sret False)) s = (Inr False, s2)"
        using s1 s2 Inr False by (simp add: sbnd_def sret_def)
      obtain r3 s3 where s3: "until_stop w (launch_poll w cfg wk) () s2 = Some (r3, s3)"
        using 2(2) pre by (auto split: option.splits)
      have a3: "settled s2 s3"
        by (rule until_stop_kept [OF settled.frame_axioms settled_stop_set settled_launch_poll s3])
      obtain c s4 where s4: "stop_set w s3 = (Inr c, s4)" using stop_set_not_Inl by (metis prod.exhaust sum.exhaust)
      have a4: "settled s3 s4" by (rule staysD [OF settled_stop_set s4])
      show ?thesis
      proof (cases "\<exists>y. r3 = Inr y \<and> \<not> c")
        case False
        then have "t = s3 \<or> t = s4" using 2(2) pre s3 s4 by (auto split: sum.splits)
        then have "s_spawned t = s_spawned s2" "s_tick s \<le> s_tick t"
          using a3 a4 one(2) by (auto simp: settled_def)
        then show ?thesis using one running by (intro conjI exI [of _ 1]) auto
      next
        case True
        then have r3: "r3 = Inr ()" "\<not> c" by auto
        have go: "start_workers w cfg l (offset + nat (w_gpus wk)) wks s4 = Some (r, t)"
          using 2(2) pre s3 s4 r3 by simp
        have ih: "s_tick s4 \<le> s_tick t \<and>
          (\<exists>n. n \<le> length wks \<and>
            s_spawned t = s_spawned s4 @ take n (worker_plans l (offset + nat (w_gpus wk)) wks) \<and>
            (0 < n \<longrightarrow> \<not> s_stop s4) \<and>
            (\<forall>i. Suc i < n \<longrightarrow> (\<exists>a b. b \<le> s_tick t \<and> worker_evidence w cfg (wks ! i) a b)))"
          using 2(1) [OF pre [symmetric] _ _ s3 _ _ s4 [symmetric], of False "Inr ()" "()" False] r3 go by simp
        then obtain n where n: "n \<le> length wks" "s_tick s4 \<le> s_tick t"
          "s_spawned t = s_spawned s4 @ take n (worker_plans l (offset + nat (w_gpus wk)) wks)"
          "\<And>i. Suc i < n \<Longrightarrow> \<exists>a b. b \<le> s_tick t \<and> worker_evidence w cfg (wks ! i) a b"
          by blast
        have "\<not> s_stop s3" using stop_set_result [OF s4] r3 by blast
        then obtain x where x: "worker_evidence w cfg wk x (s_tick s3)"
          using until_stop_exit [OF settled.frame_axioms settled_stop_set settled_launch_poll s3 [unfolded r3]]
            launch_poll_done by blast
        have ticks: "s_tick s3 \<le> s_tick t" "s_tick s \<le> s_tick t" "s_spawned s4 = s_spawned s2"
          using a3 a4 n(2) one(2) by (auto simp: settled_def)
        have "\<exists>a b. b \<le> s_tick t \<and> worker_evidence w cfg ((wk # wks) ! i) a b" if "Suc i < Suc n" for i
          using that x ticks(1) n(4) by (cases i) auto
        then show ?thesis using one n ticks running by (intro conjI exI [of _ "Suc n"]) auto
      qed
    qed
  qed
qed auto

lemma worker_of_gpus: "worker_of v = Inr wk \<Longrightarrow> jidx v ''gpus'' = Inr (PInt (w_gpus wk))"
  by (auto simp: worker_of_def as_int_def elim!: bndE split: pyv.splits)

lemma gate_poll_go:
  assumes "gate_poll w cfg u = (Inr (Some True), t)"
  shows "\<exists>m k. e_ready w m = Some k \<and> 0 < k"
  using assms by (auto simp: gate_poll_def sbnd_eq_Inr split: if_splits) blast

lemma two_workers:
  assumes "validate_config config = Inr ()" "config_of config = Inr cfg"
  obtains p d where "c_workers cfg = [p, d] \<or> c_workers cfg = [d, p]" "w_role p = ''prefill''"
    "w_role d = ''decode''" "1 \<le> w_gpus p" "1 \<le> w_gpus d"
proof -
  obtain w1 w2 a b ports status where w: "jidx config ''workers'' = Inr (PList [w1, w2])"
    "jidx w1 ''role'' = Inr a" "jidx w2 ''role'' = Inr b" "{a, b} = {PStr ''prefill'', PStr ''decode''}"
    and f: "foldM check_worker [status] [w1, w2] = Inr ports"
    by (rule validate_config_parts [OF assms(1)])
  have ws: "mapM worker_of [w1, w2] = Inr (c_workers cfg)"
    using config_of_workers [OF assms(2)] w(1) by simp
  then obtain k1 k2 where k: "worker_of w1 = Inr k1" "worker_of w2 = Inr k2" "c_workers cfg = [k1, k2]"
    by (auto elim!: bndE)
  obtain ports1 where f1: "check_worker [status] w1 = Inr ports1" "check_worker ports1 w2 = Inr ports"
    using f by (auto elim!: bndE)
  have g: "1 \<le> w_gpus k1" "1 \<le> w_gpus k2"
    using check_worker_good [OF f1(1)] check_worker_good [OF f1(2)] worker_of_gpus [OF k(1)] worker_of_gpus [OF k(2)]
    by (auto simp: good_worker_def)
  have "(w_role k1 = ''prefill'' \<and> w_role k2 = ''decode'') \<or> (w_role k1 = ''decode'' \<and> w_role k2 = ''prefill'')"
    using w(4) worker_of_role [OF k(1)] worker_of_role [OF k(2)] w(2,3) by (auto simp: doubleton_eq_iff)
  then show ?thesis using that k(3) g by blast
qed

lemma launch_order_pair:
  assumes "c_workers cfg = [p, d] \<or> c_workers cfg = [d, p]" "w_role p = ''prefill''" "w_role d = ''decode''"
  shows "launch_order cfg = [p, d]"
  using assms by (auto simp: launch_order_def)

lemma start_spawned:
  assumes "start w cfg l s = Some (r, t)" "s_spawned s = []"
  obtains n where "s_spawned t = take n ((gate_command cfg (l_run_dir l), inherited (l_environ l))
      # worker_plans l 0 (launch_order cfg))"
    "1 < n \<Longrightarrow> \<exists>m k. e_ready w m = Some k \<and> 0 < k"
    "\<And>i. Suc (Suc i) < n \<Longrightarrow> \<exists>a b. b \<le> s_tick t \<and> worker_evidence w cfg (launch_order cfg ! i) a b"
proof (cases "l_setup l")
  case (Inl e)
  then show ?thesis using assms that [of 0] by (simp add: start_def sbnd_def sres_def)
next
  case (Inr locations)
  let ?s = "s\<lparr>s_locations := locations\<rparr>"
  let ?gate = "(gate_command cfg (l_run_dir l), inherited (l_environ l))"
  obtain q s1 where s1: "spawn w ''model'' (fst ?gate) (snd ?gate) ?s = (q, s1)" by fastforce
  note sp = spawn_spawned [OF s1]
  show ?thesis
  proof (cases q)
    case (Inl e)
    then have "t = s1" using assms(1) s1 Inr by (simp add: start_def sbnd_def sres_def sput_def)
    then show ?thesis using sp Inl assms(2) that [of 0] by simp
  next
    case (Inr u)
    then obtain r2 s2 where s2: "until_stop w (gate_poll w cfg) True s1 = Some (r2, s2)"
      using assms(1) s1 \<open>l_setup l = Inr locations\<close>
      by (auto simp: start_def sbnd_def sres_def sput_def split: option.splits)
    have one: "s_spawned s2 = [?gate]"
      using until_stop_kept [OF settled.frame_axioms settled_stop_set settled_gate_poll s2] sp Inr assms(2)
      by (simp add: settled_def)
    show ?thesis
    proof (cases "r2 = Inr True")
      case False
      then have "t = s2" using assms(1) s1 s2 Inr \<open>l_setup l = Inr locations\<close>
        by (auto simp: start_def sbnd_def sres_def sput_def split: sum.splits if_splits)
      then show ?thesis using one that [of 1] by simp
    next
      case True
      then have go: "start_workers w cfg l 0 (launch_order cfg) s2 = Some (r, t)"
        using assms(1) s1 s2 Inr \<open>l_setup l = Inr locations\<close> by (simp add: start_def sbnd_def sres_def sput_def)
      obtain n where n: "s_spawned t = s_spawned s2 @ take n (worker_plans l 0 (launch_order cfg))"
        "0 < n \<Longrightarrow> \<not> s_stop s2"
        "\<And>i. Suc i < n \<Longrightarrow> \<exists>a b. b \<le> s_tick t \<and> worker_evidence w cfg (launch_order cfg ! i) a b"
        using start_workers_spawned [OF go] by blast
      have gate: "\<exists>m k. e_ready w m = Some k \<and> 0 < k" if "0 < n"
        using until_stop_exit [OF settled.frame_axioms settled_stop_set settled_gate_poll s2 [unfolded True]]
          n(2) [OF that] gate_poll_go by blast
      show ?thesis using that [of "Suc n"] n one gate by auto
    qed
  qed
qed

text \<open>
  C17: The start follows one order and hands out the devices once.  Whatever the system does, the processes
  started are a prefix of: the model gate, the prefill worker on the first devices, the decode worker on
  the rest.  No worker starts before the gate's marker was seen non-empty, the decode worker not before
  every prefill rank was seen healthy, and the two device lists make up the assigned devices exactly,
  which are distinct.
\<close>

theorem start_order:
  assumes "new_supervisor config (l_devices l) created = Inr (cfg, s0)" "start w cfg l s0 = Some (r, t)"
  shows "\<exists>p d n. set (c_workers cfg) = {p, d} \<and> w_role p = ''prefill'' \<and> w_role d = ''decode'' \<and>
    s_spawned t = take n
      [(gate_command cfg (l_run_dir l), inherited (l_environ l)),
       (w_command p, worker_environ (l_environ l) (l_devices l) 0 p (l_run_dir l)),
       (w_command d, worker_environ (l_environ l) (l_devices l) (nat (w_gpus p)) d (l_run_dir l))] \<and>
    (1 < n \<longrightarrow> (\<exists>m k. e_ready w m = Some k \<and> 0 < k)) \<and>
    (2 < n \<longrightarrow> (\<exists>a b. b \<le> s_tick t \<and> worker_evidence w cfg p a b)) \<and>
    take (nat (w_gpus p)) (drop 0 (l_devices l)) @ take (nat (w_gpus d)) (drop (nat (w_gpus p)) (l_devices l))
      = l_devices l \<and> distinct (l_devices l)"
proof -
  note new = new_supervisor_fresh [OF assms(1)]
  obtain p d where pd: "c_workers cfg = [p, d] \<or> c_workers cfg = [d, p]" "w_role p = ''prefill''"
    "w_role d = ''decode''" "1 \<le> w_gpus p" "1 \<le> w_gpus d"
    using two_workers new by blast
  have order: "launch_order cfg = [p, d]" by (rule launch_order_pair [OF pd(1-3)])
  obtain n where n: "s_spawned t = take n ((gate_command cfg (l_run_dir l), inherited (l_environ l))
      # worker_plans l 0 (launch_order cfg))"
    "1 < n \<Longrightarrow> \<exists>m k. e_ready w m = Some k \<and> 0 < k"
    "\<And>i. Suc (Suc i) < n \<Longrightarrow> \<exists>a b. b \<le> s_tick t \<and> worker_evidence w cfg (launch_order cfg ! i) a b"
    using start_spawned [OF assms(2)] new by blast
  have dev: "int (length (l_devices l)) = sum_list (map w_gpus (c_workers cfg))" "distinct (l_devices l)"
    using assms(1) by (auto simp: new_supervisor_def raise_if_eq_Inr elim!: bndE)
  have len: "length (l_devices l) - nat (w_gpus p) \<le> nat (w_gpus d)" using dev(1) pd by auto
  have "take (nat (w_gpus p)) (drop 0 (l_devices l)) @ take (nat (w_gpus d)) (drop (nat (w_gpus p)) (l_devices l))
      = l_devices l"
    using len by simp
  then show ?thesis
    using pd n(1,2) n(3) [of 0] dev(2) order by (intro exI [of _ p] exI [of _ d] exI [of _ n]) auto
qed

section \<open>Loops that end\<close>

lemma until_stop_returns:
  assumes keep: "\<And>s r t. I s \<Longrightarrow> stop_set w s = (r, t) \<Longrightarrow> I t"
      "\<And>s r t. I s \<Longrightarrow> body s = (r, t) \<Longrightarrow> I t \<and> s_tick s \<le> s_tick t"
    and ends: "\<And>s s1. I s \<Longrightarrow> N \<le> s_tick s \<Longrightarrow> stop_set w s = (Inr False, s1) \<Longrightarrow> fst (body s1) \<noteq> Inr None"
    and start: "I s"
  shows "\<exists>x. until_stop w body d s = Some x"
  using start
proof (induction "N - s_tick s" arbitrary: s rule: less_induct)
  case less
  obtain b s1 where s1: "stop_set w s = (Inr b, s1)" using stop_set_not_Inl by (metis prod.exhaust sum.exhaust)
  have t1: "s_tick s1 = Suc (s_tick s)" using s1 by (auto simp: stop_set_def Let_def)
  obtain r s2 where s2: "body s1 = (r, s2)" by fastforce
  have I: "I s1" "I s2" "s_tick s1 \<le> s_tick s2" using keep less.prems s1 s2 by blast+
  show ?case
  proof (cases "\<not> b \<and> r = Inr None")
    case True
    then have "s_tick s < N" using ends [OF less.prems] s1 s2 by (metis fst_conv not_le)
    then have "\<exists>x. until_stop w body d s2 = Some x" using less.hyps [OF _ I(2)] I(3) t1 by simp
    then show ?thesis using True s1 s2 by (subst until_stop.simps) simp
  next
    case False
    then show ?thesis using s1 s2 by (subst until_stop.simps) (auto split: sum.splits option.splits)
  qed
qed

text \<open>The clock passes every value, and a stop signal stays visible once it has come.\<close>

definition clock_runs :: "world \<Rightarrow> bool" where
  "clock_runs w \<longleftrightarrow> (\<forall>d. \<exists>N. \<forall>n \<ge> N. d < e_clock w n)"

definition signal_comes :: "world \<Rightarrow> bool" where
  "signal_comes w \<longleftrightarrow> (\<exists>N. \<forall>n \<ge> N. e_signal w n)"

lemma startup_over_False:
  "startup_over w cfg s = (Inr False, t) \<Longrightarrow>
     e_clock w (s_tick s) - s_started s \<le> of_int (c_startup cfg) \<and> t = s\<lparr>s_tick := Suc (s_tick s)\<rparr>"
  by (auto simp: startup_over_def sbnd_eq_Inr)

lemma gate_poll_None:
  assumes "gate_poll w cfg s = (Inr None, t)"
  shows "\<exists>n \<ge> s_tick s. e_clock w n - s_started s \<le> of_int (c_startup cfg)"
proof -
  obtain s1 s2 where s1: "model_exit w s = (Inr False, s1)"
    and s2: "startup_over w cfg (s1\<lparr>s_tick := Suc (s_tick s1)\<rparr>) = (Inr False, s2)"
    using assms by (auto simp: gate_poll_def sbnd_eq_Inr split: if_splits)
  have "quiet s s1" by (rule staysD [OF quiet_model_exit s1])
  then show ?thesis using startup_over_False [OF s2]
    by (intro exI [of _ "Suc (s_tick s1)"]) (auto simp: quiet_def)
qed

lemma launch_poll_None:
  assumes "launch_poll w cfg wk s = (Inr None, t)"
  shows "\<exists>n \<ge> s_tick s. e_clock w n - s_started s \<le> of_int (c_startup cfg)"
proof -
  obtain s1 s2 s3 s4 st where s1: "model_exit w s = (Inr False, s1)"
    and s2: "any_failed w cfg (previous_workers cfg wk s1) s1 = (Inr False, s2)"
    and s3: "worker_state w cfg wk s2 = (Inr st, s3)" and s4: "startup_over w cfg s3 = (Inr False, s4)"
    using assms by (auto simp: launch_poll_def sbnd_eq_Inr split: if_splits)
  have q: "quiet s s1" "quiet s1 s2" "quiet s2 s3"
    using staysD [OF quiet_model_exit s1] staysD [OF quiet_any_failed s2] staysD [OF quiet_worker_state s3] .
  then have "quiet s s3" using quiet_trans by blast
  then show ?thesis using startup_over_False [OF s4]
    by (intro exI [of _ "s_tick s3"]) (auto simp: quiet_def)
qed

lemma until_stop_startup:
  assumes "clock_runs w" "stays kept body"
    "\<And>s t. body s = (Inr None, t) \<Longrightarrow> \<exists>n \<ge> s_tick s. e_clock w n - s_started s \<le> of_int (c_startup cfg)"
  shows "\<exists>x. until_stop w body d s = Some x"
proof -
  obtain N where N: "\<And>n. N \<le> n \<Longrightarrow> s_started s + of_int (c_startup cfg) < e_clock w n"
    using assms(1) unfolding clock_runs_def by blast
  show ?thesis
  proof (rule until_stop_returns [where I = "\<lambda>t. s_started t = s_started s" and N = N])
    fix u u1
    assume u: "s_started u = s_started s" "N \<le> s_tick u" "stop_set w u = (Inr False, u1)"
    then have u1: "s_started u1 = s_started s" "N \<le> s_tick u1" by (auto simp: stop_set_def Let_def)
    show "fst (body u1) \<noteq> Inr None"
    proof
      assume "fst (body u1) = Inr None"
      then obtain n where "n \<ge> s_tick u1" "e_clock w n - s_started s \<le> of_int (c_startup cfg)"
        using assms(3) u1(1) by (metis prod.collapse)
      then show False using N [of n] u1(2) by simp
    qed
  next
    fix u r t assume "s_started u = s_started s" "body u = (r, t)"
    then show "s_started t = s_started s \<and> s_tick u \<le> s_tick t"
      using staysD [OF assms(2)] by (auto simp: kept_def)
  qed (auto simp: stop_set_def Let_def)
qed

lemma start_workers_returns:
  "clock_runs w \<Longrightarrow> \<exists>x. start_workers w cfg l offset wks s = Some x"
proof (induction w cfg l offset wks s rule: start_workers.induct)
  case (2 w cfg l offset wk wks s)
  have loop: "\<exists>x. until_stop w (launch_poll w cfg wk) () s1 = Some x" for s1
    by (rule until_stop_startup [OF 2(2) kept_launch_poll launch_poll_None])
  let ?m = "sbnd (stop_set w) (\<lambda>stopped. if stopped then sret True
      else sbnd (spawn w (w_role wk) (w_command wk)
        (worker_environ (l_environ l) (l_devices l) offset wk (l_run_dir l))) (\<lambda>_. sret False)) s"
  obtain q s1 where s1: "?m = (q, s1)" by fastforce
  obtain r2 s2 where s2: "until_stop w (launch_poll w cfg wk) () s1 = Some (r2, s2)" using loop by fastforce
  obtain c s3 where s3: "stop_set w s2 = (c, s3)" by fastforce
  have "\<exists>x. start_workers w cfg l (offset + nat (w_gpus wk)) wks s3 = Some x" if h: "q = Inr False" "r2 = Inr ()" "c = Inr False"
    using 2(1) [OF s1 [symmetric] _ _ s2 _ _ s3 [symmetric], of False "Inr ()" "()" False] h 2(2) by simp
  then show ?case using s1 s2 s3 by (cases q; cases r2; cases c) (auto split: bool.splits)
qed auto

text \<open>
  The start always ends.  If the clock runs on, \<open>start\<close> returns, with a value or an exception: a gate
  that never writes its marker and a worker that never becomes ready both run into the startup timeout.
\<close>

theorem start_returns:
  assumes "clock_runs w" shows "\<exists>r t. start w cfg l s = Some (r, t)"
proof -
  have gate: "\<exists>x. until_stop w (gate_poll w cfg) True s1 = Some x" for s1
    by (rule until_stop_startup [OF assms kept_gate_poll gate_poll_None])
  obtain q s1 where s1: "sbnd (sres (l_setup l)) (\<lambda>locations.
      sbnd (sput (\<lambda>s. s\<lparr>s_locations := locations\<rparr>)) (\<lambda>_.
        spawn w ''model'' (gate_command cfg (l_run_dir l)) (inherited (l_environ l)))) s = (q, s1)" by fastforce
  obtain r2 s2 where s2: "until_stop w (gate_poll w cfg) True s1 = Some (r2, s2)" using gate by fastforce
  have "\<exists>x. start_workers w cfg l 0 (launch_order cfg) s2 = Some x" by (rule start_workers_returns [OF assms])
  then have "\<exists>x. start w cfg l s = Some x" using s1 s2 unfolding start_def by (cases q; cases r2) auto
  then show ?thesis by auto
qed

section \<open>Shutting down\<close>

lemma await_exit_returns:
  assumes "clock_runs w"
  shows "\<exists>x. await_exit w deadline s = Some x"
proof -
  obtain N where N: "\<And>n. N \<le> n \<Longrightarrow> deadline < e_clock w n" using assms unfolding clock_runs_def by blast
  show ?thesis
  proof (induction "N - s_tick s" arbitrary: s rule: less_induct)
    case less
    let ?s1 = "s\<lparr>s_tick := Suc (s_tick s)\<rparr>"
    have tick: "s_tick u \<le> s_tick t" if "all_exited w cs u = (r, t)" for cs u r t
      using that
    proof (induction cs arbitrary: u)
      case (Cons c cs)
      have IH: "all_exited w cs v = (r, t) \<Longrightarrow> s_tick v \<le> s_tick t" for v by (rule Cons.IH)
      show ?case using Cons.prems IH [of "u\<lparr>s_tick := Suc (s_tick u)\<rparr>"]
        by (cases c) (auto simp: sbnd_def observe_def sret_def split: if_splits)
    qed (auto simp: sret_def)
    obtain q s2 where s2: "all_exited w (s_children ?s1) ?s1 = (q, s2)" by fastforce
    show ?case
    proof (cases "e_clock w (s_tick s) < deadline")
      case True
      then have "s_tick s < N" using N [of "s_tick s"] by (meson less_asym not_le)
      then have "\<exists>x. await_exit w deadline s2 = Some x"
        using less.hyps [of s2] tick [OF s2] by simp
      then show ?thesis using s2 True
        by (subst await_exit.simps) (auto simp: observe_def split: sum.splits)
    next
      case False
      then show ?thesis by (subst await_exit.simps) (simp add: observe_def)
    qed
  qed
qed

text \<open>What shutting down leaves alone, whatever happens on the way.\<close>

definition ending :: "sup \<Rightarrow> sup \<Rightarrow> bool" where
  "ending s t \<longleftrightarrow> kept s t \<and> s_children t = s_children s \<and> s_failed t = s_failed s \<and>
     s_stop t = s_stop s \<and> s_snapshot t = s_snapshot s"

interpretation ending: frame ending
  by unfold_locales (auto simp: ending_def kept.refl intro: kept.trans)

lemma endingI: "stays quiet m \<Longrightarrow> stays ending m"
  using kept_quiet [of m] unfolding stays_def quiet_def ending_def by blast

lemma ending_kill_all: "stays ending (kill_all w sig cs)"
proof (induction cs)
  case (Cons c cs)
  have "stays ending (kill_group w sig c)"
    unfolding kill_group_def case_prod_beta
    by (intro ending.stays_sbnd endingI [OF quiet_observe] ending.stays_sres)
      (auto intro!: staysI simp: ending_def kept_def)
  then show ?case using Cons by (simp add: ending.stays_sbnd)
qed (simp add: ending.stays_sret)

lemma ending_all_exited: "stays ending (all_exited w cs)"
proof (induction w cs rule: all_exited.induct)
  case (2 w key p cs)
  then show ?case by (simp add: ending.stays_sbnd endingI [OF quiet_observe] ending.stays_sret)
qed (simp add: ending.stays_sret)

lemma ending_reap_all: "stays ending (reap_all w cs)"
proof (induction w cs rule: reap_all.induct)
  case (2 w key p cs)
  then show ?case
    by (simp add: ending.stays_sbnd endingI [OF quiet_observe] endingI [OF quiet_emit] ending.stays_sret ending.stays_if)
qed (simp add: ending.stays_sret)

lemma await_exit_ending:
  assumes "await_exit w deadline s = Some (r, t)"
  shows "ending s t \<and> s_signals t = s_signals s"
proof -
  let ?P = "\<lambda>v d s (z :: unit res \<times> sup). ending s (snd z) \<and> s_signals (snd z) = s_signals s"
  have sig: "s_signals u' = s_signals u" if "all_exited v cs u = (q, u')" for v cs u q u'
    using that
  proof (induction v cs arbitrary: u rule: all_exited.induct)
    case (2 w key p cs)
    then show ?case by (fastforce simp: sbnd_def observe_def sret_def split: if_splits)
  qed (simp add: sret_def)
  have step: "?P v d s z"
    if ih: "\<And>v d s z. f v d s = Some z \<Longrightarrow> ?P v d s z"
      and run: "(case observe (e_clock v) s of
        (Inl e, s1) \<Rightarrow> Some (Inl e, s1)
      | (Inr now, s1) \<Rightarrow>
          if \<not> now < d then Some (Inr (), s1)
          else (case all_exited v (s_children s1) s1 of
                  (Inl e, s2) \<Rightarrow> Some (Inl e, s2)
                | (Inr gone, s2) \<Rightarrow> if gone then Some (Inr (), s2) else f v d s2)) = Some z"
    for f v d s z
  proof -
    let ?s1 = "s\<lparr>s_tick := Suc (s_tick s)\<rparr>"
    obtain q s2 where s2: "all_exited v (s_children s) ?s1 = (q, s2)" by fastforce
    have e: "ending s ?s1" "ending ?s1 s2" "s_signals s2 = s_signals s"
      using staysD [OF endingI [OF quiet_observe], of "e_clock v" s] staysD [OF ending_all_exited s2] sig [OF s2]
      by (auto simp: observe_def)
    then have e2: "ending s s2" using ending.trans by blast
    have "?P v d s z" if again: "f v d s2 = Some z" using ih [OF again] e2 e(3) ending.trans by metis
    then show ?thesis using run e e2 s2 by (auto simp: observe_def split: if_splits sum.splits)
  qed
  have "?P w deadline s (r, t)" by (rule await_exit.raw_induct [of ?P, OF _ assms]) (rule step)
  then show ?thesis by simp
qed

text \<open>The state in which \<open>shutdown\<close> sends its first signals.\<close>

definition closing :: "world \<Rightarrow> sup \<Rightarrow> sup" where
  "closing w s = s\<lparr>s_stop := True, s_tick := Suc (s_tick s), s_snapshot := (''failed'', e_clock w (s_tick s))\<rparr>"

lemma shutdown_eq:
  "shutdown w cfg s =
     (case sbnd (kill_all w 15 (s_children s)) (\<lambda>_. observe (e_clock w)) (closing w s) of
        (Inl e, s1) \<Rightarrow> Some (Inl e, s1)
      | (Inr now, s1) \<Rightarrow>
          (case await_exit w (now + of_int (c_shutdown cfg)) s1 of
             None \<Rightarrow> None
           | Some (Inl e, s2) \<Rightarrow> Some (Inl e, s2)
           | Some (Inr _, s2) \<Rightarrow>
               Some (sbnd (sbnd sget (\<lambda>s. kill_all w 9 (s_children s)))
                       (\<lambda>_. sbnd sget (\<lambda>s. reap_all w (s_children s))) s2)))"
  by (simp add: shutdown_def closing_def fail_snapshot_def sbnd_def sput_def sget_def observe_def)

lemma shutdown_ending:
  assumes "shutdown w cfg s = Some (r, t)"
  shows "ending (closing w s) t"
proof -
  obtain q s1 where s1: "sbnd (kill_all w 15 (s_children s)) (\<lambda>_. observe (e_clock w)) (closing w s) = (q, s1)"
    by fastforce
  have "stays ending (sbnd (kill_all w 15 (s_children s)) (\<lambda>_. observe (e_clock w)))"
    by (intro ending.stays_sbnd ending_kill_all endingI [OF quiet_observe])
  then have e1: "ending (closing w s) s1" using s1 by (rule staysD)
  show ?thesis
  proof (cases q)
    case (Inl e)
    then show ?thesis using assms e1 s1 by (simp add: shutdown_eq)
  next
    case (Inr now)
    then obtain q2 s2 where s2: "await_exit w (now + of_int (c_shutdown cfg)) s1 = Some (q2, s2)"
      using assms s1 by (auto simp: shutdown_eq split: option.splits)
    have e2: "ending (closing w s) s2" using await_exit_ending [OF s2] e1 ending.trans by blast
    let ?m = "sbnd (sbnd sget (\<lambda>s. kill_all w 9 (s_children s))) (\<lambda>_. sbnd sget (\<lambda>s. reap_all w (s_children s)))"
    have m: "stays ending ?m"
      by (intro ending.stays_sbnd ending.stays_sget ending_kill_all ending_reap_all)
    have "t = s2 \<or> (\<exists>x. ?m s2 = (x, t))"
      using assms s1 s2 Inr by (auto simp: shutdown_eq split: sum.splits)
    then show ?thesis using e2 staysD [OF m] ending.trans by blast
  qed
qed

lemma closing_kept: "kept s (closing w s)"
  by (simp add: closing_def kept_def)

lemma shutdown_final:
  assumes "shutdown w cfg s = Some (r, t)"
  shows "kept s t \<and> s_children t = s_children s \<and> s_failed t = s_failed s \<and> s_stop t \<and>
    fst (s_snapshot t) = ''failed''"
proof -
  have e: "ending (closing w s) t" by (rule shutdown_ending [OF assms])
  then have "kept s t" using closing_kept kept.trans unfolding ending_def by blast
  then show ?thesis using e by (simp add: ending_def closing_def)
qed

text \<open>The group of a child that is already gone is the only thing that signalling may complain about.\<close>

definition signals_work :: "world \<Rightarrow> bool" where
  "signals_work w \<longleftrightarrow> (\<forall>t pid sig. e_killpg w t pid sig \<in> {Inr (), Inl (Exn ProcessLookupError [])})"

lemma kill_all_signals:
  assumes "signals_work w"
  shows "\<exists>t. kill_all w sig cs s = (Inr (), t) \<and> s_signals t = s_signals s @ map (\<lambda>(_, pid). (pid, sig)) cs"
proof (induction cs arbitrary: s)
  case (Cons c cs)
  obtain key pid where c: "c = (key, pid)" by fastforce
  have k: "try_except (e_killpg w (s_tick s) pid sig) [ProcessLookupError] (\<lambda>_. Inr ()) = Inr ()"
  proof -
    have "e_killpg w (s_tick s) pid sig \<in> {Inr (), Inl (Exn ProcessLookupError [])}"
      using assms unfolding signals_work_def by blast
    then show ?thesis by (auto simp: try_except_def catches_def)
  qed
  have "kill_group w sig c s = (Inr (), s\<lparr>s_tick := Suc (s_tick s), s_signals := s_signals s @ [(pid, sig)]\<rparr>)"
    using k by (simp add: kill_group_def c sbnd_def observe_def sput_def sres_def)
  then show ?case using Cons [of "s\<lparr>s_tick := Suc (s_tick s), s_signals := s_signals s @ [(pid, sig)]\<rparr>"] c
    by (auto simp: sbnd_def)
qed (simp add: sret_def)

lemma emit_plain:
  assumes "event \<in> set EVENTS - {''stack_frame'', ''nccl_collective''}" "role \<in> set (ROLES @ [''pair''])"
  shows "\<exists>d. emit_event locations event role [] = Inr d"
  using assms by (simp add: emit_event_def reviewed_event_def dupdate_def numbers_ok_def collective_ok_def
      location_ok_def word_in_def sub_keys_def line_ok_def event_fields_def NUMBER_FIELDS_def dkeys_def)

lemma reap_all_returns: "\<exists>t. reap_all w cs s = (Inr (), t) \<and> s_signals t = s_signals s"
proof (induction w cs arbitrary: s rule: reap_all.induct)
  case (2 w key p cs)
  obtain d where "emit_event (s_locations s) ''shutdown_timeout'' ''pair'' [] = Inr d"
    using emit_plain [of "''shutdown_timeout''" "''pair''"] by (auto simp: EVENTS_def)
  then show ?case
    using 2 [of "s\<lparr>s_tick := Suc (s_tick s), s_log := s_log s @ [d]\<rparr>"]
      2 [of "s\<lparr>s_tick := Suc (s_tick s)\<rparr>"]
    by (auto simp: sbnd_def observe_def emit_def sret_def)
qed (simp add: sret_def)

lemma all_exited_Inr: "\<exists>b t. all_exited w cs s = (Inr b, t)"
  by (induction w cs arbitrary: s rule: all_exited.induct) (auto simp: sbnd_def observe_def sret_def)

lemma await_exit_Inr:
  assumes "await_exit w deadline s = Some (r, t)" shows "r = Inr ()"
proof -
  let ?P = "\<lambda>v d s (z :: unit res \<times> sup). fst z = Inr ()"
  have step: "?P v d s z"
    if ih: "\<And>v d s z. f v d s = Some z \<Longrightarrow> ?P v d s z"
      and run: "(case observe (e_clock v) s of
        (Inl e, s1) \<Rightarrow> Some (Inl e, s1)
      | (Inr now, s1) \<Rightarrow>
          if \<not> now < d then Some (Inr (), s1)
          else (case all_exited v (s_children s1) s1 of
                  (Inl e, s2) \<Rightarrow> Some (Inl e, s2)
                | (Inr gone, s2) \<Rightarrow> if gone then Some (Inr (), s2) else f v d s2)) = Some z"
    for f v d s z
    using run ih all_exited_Inr [of v "s_children s" "s\<lparr>s_tick := Suc (s_tick s)\<rparr>"]
    by (auto simp: observe_def split: if_splits)
  have "?P w deadline s (r, t)" by (rule await_exit.raw_induct [of ?P, OF _ assms]) (rule step)
  then show ?thesis by simp
qed


section \<open>The whole program\<close>

text \<open>Why the stop flag is set: a failure was recorded or a stop signal was seen.\<close>

definition stop_reason :: "world \<Rightarrow> sup \<Rightarrow> bool" where
  "stop_reason w s \<longleftrightarrow> (s_stop s \<longrightarrow> s_failed s \<or> (\<exists>n < s_tick s. e_signal w n))"

definition why :: "world \<Rightarrow> sup \<Rightarrow> sup \<Rightarrow> bool" where
  "why w s t \<longleftrightarrow> s_tick s \<le> s_tick t \<and> (stop_reason w s \<longrightarrow> stop_reason w t)"

interpretation why: frame "why w" for w
  by unfold_locales (auto simp: why_def)

lemma whyI: "stays quiet m \<Longrightarrow> stays (why w) m"
  unfolding stays_def quiet_def why_def stop_reason_def by (metis less_le_trans)

lemma why_mark_failed: "stays (why w) mark_failed"
  by (auto intro!: staysI simp: mark_failed_def why_def stop_reason_def)

lemma why_stop_set: "stays (why w) (stop_set w)"
  by (auto intro!: staysI simp: stop_set_def why_def stop_reason_def Let_def)

lemmas why_basic = why.stays_sbnd why.stays_sret why.stays_sres why.stays_sget why.stays_if
  whyI [OF quiet_observe] whyI [OF quiet_emit] whyI [OF quiet_model_exit] whyI [OF quiet_startup_over]
  whyI [OF quiet_worker_state] whyI [OF quiet_any_failed] why_mark_failed

lemma why_gate_poll: "stays (why w) (gate_poll w cfg)"
  unfolding gate_poll_def by (intro why_basic)

lemma why_launch_poll: "stays (why w) (launch_poll w cfg wk)"
  unfolding launch_poll_def by (intro why_basic)

lemma why_spawn: "stays (why w) (spawn w key command env)"
  unfolding spawn_def
  by (intro why_basic) (auto intro!: staysI simp: why_def stop_reason_def)

lemma why_monitor_fail: "stays (why w) (monitor_fail w)"
  unfolding monitor_fail_def fail_snapshot_def
  by (auto intro!: staysI simp: why_def stop_reason_def sbnd_def emit_def sput_def observe_def
      split: sum.splits prod.splits)

lemma why_monitor_step: "stays (why w) (monitor_step w cfg)"
proof -
  have put: "stays (why w) (sput (\<lambda>s. s\<lparr>s_snapshot := x\<rparr>))" for x
    by (auto intro!: staysI simp: why_def stop_reason_def)
  show ?thesis
    unfolding monitor_step_def monitor_verdict_def Let_def
    by (intro why_basic why.stays_smap why_monitor_fail put)
qed

lemma start_workers_why: "start_workers w cfg l offset wks s = Some (r, t) \<Longrightarrow> why w s t"
proof (induction w cfg l offset wks s rule: start_workers.induct)
  case (2 w cfg l offset wk wks s)
  let ?m = "sbnd (stop_set w) (\<lambda>stopped. if stopped then sret True
      else sbnd (spawn w (w_role wk) (w_command wk)
        (worker_environ (l_environ l) (l_devices l) offset wk (l_run_dir l))) (\<lambda>_. sret False))"
  have "stays (why w) ?m" by (intro why_basic why_stop_set why_spawn)
  moreover obtain q s1 where s1: "?m s = (q, s1)" by fastforce
  ultimately have a: "why w s s1" by (rule staysD)
  show ?case
  proof (cases "q = Inr False")
    case False
    then have "t = s1" using 2(2) s1 by (auto split: sum.splits bool.splits)
    then show ?thesis using a by simp
  next
    case True
    then obtain r2 s2 where s2: "until_stop w (launch_poll w cfg wk) () s1 = Some (r2, s2)"
      using 2(2) s1 by (auto split: option.splits)
    have b: "why w s s2"
      using until_stop_kept [OF why.frame_axioms why_stop_set why_launch_poll s2] a why.trans by blast
    obtain c s3 where s3: "stop_set w s2 = (c, s3)" by fastforce
    have e: "why w s s3" using staysD [OF why_stop_set s3] b why.trans by blast
    have "t = s2 \<or> t = s3 \<or> why w s3 t"
      using 2 s1 s2 s3 True by (auto split: sum.splits bool.splits)
    then show ?thesis using b e why.trans by blast
  qed
qed (simp add: why.refl)

lemma start_why:
  assumes "start w cfg l s = Some (r, t)" shows "why w s t"
proof -
  let ?m = "sbnd (sres (l_setup l)) (\<lambda>locations. sbnd (sput (\<lambda>s. s\<lparr>s_locations := locations\<rparr>)) (\<lambda>_.
      spawn w ''model'' (gate_command cfg (l_run_dir l)) (inherited (l_environ l))))"
  have "stays (why w) ?m"
    by (intro why_basic why_spawn) (auto intro!: staysI simp: why_def stop_reason_def)
  moreover obtain q s1 where s1: "?m s = (q, s1)" by fastforce
  ultimately have a: "why w s s1" by (rule staysD)
  show ?thesis
  proof (cases q)
    case (Inl e)
    then show ?thesis using assms s1 a by (simp add: start_def)
  next
    case (Inr u)
    then obtain r2 s2 where s2: "until_stop w (gate_poll w cfg) True s1 = Some (r2, s2)"
      using assms s1 by (auto simp: start_def split: option.splits)
    have b: "why w s s2"
      using until_stop_kept [OF why.frame_axioms why_stop_set why_gate_poll s2] a why.trans by blast
    have "t = s2 \<or> start_workers w cfg l 0 (launch_order cfg) s2 = Some (r, t)"
      using assms s1 s2 Inr by (auto simp: start_def split: sum.splits if_splits)
    then show ?thesis using b start_workers_why why.trans by blast
  qed
qed

text \<open>The states that \<open>main\<close> goes through: after the start, after the monitor, before the shutdown.\<close>

lemma main_pair_Some:
  assumes "main_pair w config l now = Some (outcome, fin)"
  obtains "fin = None" "outcome = Inr 1" "\<exists>e. new_supervisor config (l_devices l) now = Inl e"
  | cfg s0 r1 s1 r2 s2 r3 s3 r4 s4 t where "new_supervisor config (l_devices l) now = Inr (cfg, s0)"
    "start w cfg l s0 = Some (r1, s1)"
    "case r1 of Inl e \<Rightarrow> r2 = Inl e \<and> s2 = s1 | Inr _ \<Rightarrow> monitor w cfg s1 = Some (r2, s2)"
    "(case r2 of Inr n \<Rightarrow> (Inr n, s2)
      | Inl _ \<Rightarrow> sbnd (emit ''supervisor_failed'' ''pair'' []) (\<lambda>_. sret 1) s2) = (r3, s3)"
    "shutdown w cfg s3 = Some (r4, s4)" "fin = Some t"
    "(case r4 of Inl e \<Rightarrow> (Inl e, s4) | Inr _ \<Rightarrow> sbnd (report_delivery (l_sink l)) (\<lambda>_. sres r3) s4) = (outcome, t)"
proof (cases "new_supervisor config (l_devices l) now")
  case (Inl e)
  then show ?thesis using assms that(1) by (simp add: main_pair_def)
next
  case (Inr p)
  obtain cfg s0 where p: "p = (cfg, s0)" by fastforce
  obtain r1 s1 where s1: "start w cfg l s0 = Some (r1, s1)"
    using assms Inr p by (auto simp: main_pair_def split: option.splits)
  obtain r2 s2 where s2: "(case start w cfg l s0 of None \<Rightarrow> None | Some (Inl e, s1) \<Rightarrow> Some (Inl e, s1)
      | Some (Inr _, s1) \<Rightarrow> monitor w cfg s1) = Some (r2, s2)"
    using assms Inr p by (auto simp: main_pair_def split: option.splits)
  then have m: "case r1 of Inl e \<Rightarrow> r2 = Inl e \<and> s2 = s1 | Inr _ \<Rightarrow> monitor w cfg s1 = Some (r2, s2)"
    using s1 by (cases r1) auto
  obtain r3 s3 where s3: "(case r2 of Inr n \<Rightarrow> (Inr n, s2)
      | Inl _ \<Rightarrow> sbnd (emit ''supervisor_failed'' ''pair'' []) (\<lambda>_. sret 1) s2) = (r3, s3)" by fastforce
  obtain r4 s4 where s4: "shutdown w cfg s3 = Some (r4, s4)"
    using assms Inr p s2 s3 by (auto simp: main_pair_def split: option.splits)
  obtain result t where t: "(case r4 of Inl e \<Rightarrow> (Inl e, s4)
      | Inr _ \<Rightarrow> sbnd (report_delivery (l_sink l)) (\<lambda>_. sres r3) s4) = (result, t)" by fastforce
  have "Some (outcome, fin) = Some (result, Some t)"
    using assms Inr p s2 s3 s4 t by (cases r4) (simp_all add: main_pair_def)
  then show ?thesis using that(2) [OF Inr [unfolded p] s1 m s3 s4] t by simp
qed

lemma delivered_quiet:
  assumes "(case r4 of Inl e \<Rightarrow> (Inl e, s4)
    | Inr _ \<Rightarrow> sbnd (report_delivery log_sink) (\<lambda>_. sres r3) s4) = (outcome, t)"
  shows "quiet s4 t"
proof -
  have "stays quiet (sbnd (report_delivery log_sink) (\<lambda>_. sres r3))"
    unfolding report_delivery_def by (auto split: option.split)
  then show ?thesis using assms quiet_refl by (auto split: sum.splits dest: staysD)
qed

lemma quiet_kept: "quiet s t \<Longrightarrow> kept s t"
  by (auto simp: quiet_def kept_def)

lemma monitor_Some:
  assumes "monitor w cfg s = Some (r, t)"
  shows "kept s t \<and> why w s t \<and>
    (\<forall>n. r = Inr n \<longrightarrow> (n = 0 \<or> n = 1) \<and> (n = 0 \<longleftrightarrow> \<not> s_failed t) \<and> s_stop t)"
proof -
  obtain r1 s1 where s1: "until_stop w (monitor_step w cfg) () s = Some (r1, s1)"
    using assms by (auto simp: monitor_def split: option.splits)
  have k: "kept s s1" "why w s s1"
    using until_stop_kept [OF kept.frame_axioms kept_stop_set kept_monitor_step s1]
      until_stop_kept [OF why.frame_axioms why_stop_set why_monitor_step s1] by blast+
  show ?thesis
  proof (cases r1)
    case (Inl e)
    then show ?thesis using assms s1 k by (auto simp: monitor_def)
  next
    case (Inr u)
    let ?t = "s1\<lparr>s_tick := Suc (s_tick s1), s_snapshot := (''failed'', e_clock w (s_tick s1))\<rparr>"
    have t: "t = ?t" "r = Inr (if s_failed s1 then 1 else 0)"
      using assms s1 Inr
      by (auto simp: monitor_def fail_snapshot_def sbnd_def observe_def sput_def sget_def sret_def)
    have "kept s1 ?t" "why w s1 ?t" by (auto simp: kept_def why_def stop_reason_def)
    then have kt: "kept s t" "why w s t" using k t(1) kept.trans why.trans by blast+
    have "s_stop s1 \<or> (\<exists>u. monitor_step w cfg u = (Inr (Some ()), s1))"
      using until_stop_exit [OF kept.frame_axioms kept_stop_set kept_monitor_step s1 [unfolded Inr]] by auto
    moreover have "monitor_step w cfg u \<noteq> (Inr (Some ()), s1)" for u
      by (auto simp: monitor_step_def sbnd_eq_Inr)
    ultimately show ?thesis using kt t by auto
  qed
qed

text \<open>
  C18: The program exits with 0 only after a stop signal and without a failure.  If \<open>main\<close> ends with exit
  code 0, the configuration was accepted, some reading of the stop event saw a signal, and no failure was
  ever recorded: a worker, gate or startup failure can never be reported as a clean exit.
\<close>

theorem main_exit_zero:
  assumes "main_pair w config l now = Some (Inr 0, fin)"
  shows "\<exists>t n. fin = Some t \<and> \<not> s_failed t \<and> n < s_tick t \<and> e_signal w n"
  using assms
proof (cases rule: main_pair_Some)
  case (2 cfg s0 r1 s1 r2 s2 r3 s3 r4 s4 t)
  note q = delivered_quiet [OF 2(7)]
  have r3: "r3 = Inr 0" using 2(7) by (auto simp: sbnd_eq_Inr split: sum.splits)
  then have r2: "r2 = Inr 0" "s3 = s2"
    using 2(4) by (auto simp: sbnd_def sret_def emit_def split: sum.splits prod.splits)
  then obtain u where m: "monitor w cfg s1 = Some (Inr 0, s2)" using 2(3) by (auto split: sum.splits)
  note mon = monitor_Some [OF m]
  have "stop_reason w s0" using new_supervisor_fresh [OF 2(1)] by (simp add: stop_reason_def)
  then have "stop_reason w s2" using start_why [OF 2(2)] mon by (simp add: why_def)
  then obtain n where n: "n < s_tick s2" "e_signal w n" "\<not> s_failed s2" using mon by (auto simp: stop_reason_def)
  have "n < s_tick t" "\<not> s_failed t" using shutdown_final [OF 2(5)] q r2(2) n by (auto simp: kept_def quiet_def)
  then show ?thesis using n(2) 2(6) by blast
qed simp


lemma until_stop_signal:
  assumes "signal_comes w" "stays kept body" shows "\<exists>x. until_stop w body d s = Some x"
proof -
  obtain N where N: "\<And>n. N \<le> n \<Longrightarrow> e_signal w n" using assms(1) unfolding signal_comes_def by blast
  show ?thesis
    by (rule until_stop_returns [where I = "\<lambda>_. True" and N = N])
      (use N staysD [OF assms(2)] in \<open>auto simp: stop_set_def Let_def kept_def\<close>)
qed


lemma map_of_filter_key: "map_of (filter (\<lambda>(k, _). P k) d) k = (if P k then map_of d k else None)"
  by (induction d) auto

text \<open>
  C22: A worker's environment is exactly the reviewed one.  Each variable has one source: the supervisor's
  own controls, which nothing can override; otherwise, unless it is a variable that would make CUDA, NCCL
  or PyTorch write dumps, the worker's configuration; otherwise the supervisor's environment, and only for
  the listed inherited names.  Any other variable is absent.
\<close>

theorem worker_environ_exact:
  "map_of (worker_environ environ devices offset wk run_dir) k =
     (case map_of (pair_controls devices offset wk run_dir) k of
        Some v \<Rightarrow> Some v
      | None \<Rightarrow> if list_ex (startswith k) dump_prefixes then None
          else (case map_of (rev (w_env wk)) k of
            Some v \<Rightarrow> Some v
          | None \<Rightarrow> if k \<in> set INHERITED_ENV then map_of environ k else None))"
proof -
  have "map_of (rev (pair_controls devices offset wk run_dir)) k = map_of (pair_controls devices offset wk run_dir) k"
    using map_of_rev_ok [of "pair_controls devices offset wk run_dir"] by (simp add: dict_ok_def pair_controls_def)
  then show ?thesis
    by (simp add: worker_environ_def map_of_dupdate map_of_filter_key inherited_def split: option.splits)
qed

section \<open>A run\<close>

definition calm_world :: world where
  "calm_world = \<lparr>e_clock = (\<lambda>_. 100), e_poll = (\<lambda>_ _. None), e_size = (\<lambda>_ _. Inr 90),
     e_text = (\<lambda>_ _. Inr (dumps json_default example_rank)), e_alive = (\<lambda>_ _. Inr ()),
     e_http = (\<lambda>_ _ _. Some 200), e_signal = (\<lambda>_. False), e_ready = (\<lambda>_. Some 6),
     e_spawn = (\<lambda>_. Inr 41), e_killpg = (\<lambda>_ _ _. Inr ()), e_reaped = (\<lambda>_ _. True)\<rparr>"

definition example_of :: "string \<Rightarrow> int \<Rightarrow> worker" where
  "example_of role port = \<lparr>w_role = role, w_gpus = 4, w_ranks = PInt 4, w_port = port,
     w_command = PList [PStr ''python3'', PStr ''--tp'', PStr ''4''], w_env = [(''HF_HOME'', ''/models'')]\<rparr>"

definition example_pair :: pair_config where
  "example_pair = \<lparr>c_workers = [example_of ''prefill'' 30000, example_of ''decode'' 30001], c_gate = [''gate''],
     c_progress = 60, c_startup = 3600, c_shutdown = 30\<rparr>"

definition example_launch :: launch where
  "example_launch = \<lparr>l_environ = [(''PATH'', ''/bin''), (''SECRET'', ''x'')],
     l_devices = [''0'', ''1'', ''2'', ''3'', ''4'', ''5'', ''6'', ''7''], l_run_dir = ''/run/pair/1'',
     l_setup = Inr [''sglang/srt/managers/scheduler.py''], l_sink = None\<rparr>"

definition example_sup :: sup where
  "example_sup = \<lparr>s_tick = 0, s_children = [], s_rank_pids = [], s_http = [], s_stop = False,
     s_started = 50, s_snapshot = (''starting'', 50), s_failed = False, s_log = [],
     s_requests = [], s_acks = [], s_spawned = [], s_signals = [], s_locations = []\<rparr>"

lemma example_new: "new_supervisor example_config (l_devices example_launch) 50 = Inr (example_pair, example_sup)"
proof -
  have "config_of example_config = Inr example_pair"
    by (simp add: config_of_def example_config_def example_worker_def worker_of_def as_int_def str_items_def
        example_pair_def example_of_def)
  then show ?thesis
    by (simp add: new_supervisor_def example_config_ok example_pair_def example_of_def example_launch_def example_sup_def)
qed

lemma example_rank_ready:
  assumes "known \<in> {None, Some 7}" "30 \<le> budget"
  shows "rank_status example_view 100 budget known = Inr (''ready'', Some 7)"
proof -
  have body: "rank_live example_view 100 budget example_rank 7 = Inr (''ready'', Some 7)"
    using assms(2) by (simp add: rank_live_def example_view_def example_rank_def os_kill0_def bad_number_def
        float_of_def in_strs_def rank_verdict_def)
  have keys: "key_set example_rank = Inr (map PStr rank_fields)"
    by (simp add: key_set_def example_rank_def py_set_def rank_fields_def)
  have "jidx example_rank ''pid'' = Inr (PInt 7)" by (simp add: example_rank_def)
  then show ?thesis
    using body keys assms(1)
    by (auto simp: rank_status_def rank_body_def example_view_def example_rank_loads names_are_iff rank_known_def)
qed

text \<open>A state of the run: the known identifiers and the answers so far are those of the calm world.\<close>

definition calm_state :: "sup \<Rightarrow> bool" where
  "calm_state s \<longleftrightarrow> \<not> s_stop s \<and> \<not> s_failed s \<and> s_started s = 50 \<and>
     (\<forall>k. map_of (s_rank_pids s) k \<in> {None, Some 7}) \<and>
     (\<forall>role h. map_of (s_http s) role = Some h \<longrightarrow> h_checked h = 100 \<and> h_available h \<and> h_ever_ready h)"

lemma calm_rank_step:
  assumes "calm_state s" "30 \<le> budget"
  shows "\<exists>t. rank_step calm_world role 100 budget rank s = (Inr ''ready'', t) \<and> calm_state t \<and>
    s_children t = s_children s"
proof -
  have "look calm_world (rank_file role rank) s = (Inr example_view, s\<lparr>s_tick := s_tick s + 3\<rparr>)"
    by (simp add: look_def calm_world_def example_view_def)
  moreover have "rank_status example_view 100 budget (map_of (s_rank_pids s) (role, rank)) = Inr (''ready'', Some 7)"
    using assms by (intro example_rank_ready) (auto simp: calm_state_def)
  ultimately show ?thesis using assms(1)
    by (simp add: rank_step_def sbnd_def sget_def sres_def sput_def sret_def rank_report_def pin_pid_def
        calm_state_def map_of_dset)
qed

lemma calm_smap:
  assumes "calm_state s" "30 \<le> budget"
  shows "\<exists>t. smap (rank_step calm_world role 100 budget) ranks s = (Inr (map (\<lambda>_. ''ready'') ranks), t) \<and>
    calm_state t \<and> s_children t = s_children s"
  using assms(1)
proof (induction ranks arbitrary: s)
  case (Cons r rs)
  obtain t where t: "rank_step calm_world role 100 budget r s = (Inr ''ready'', t)" "calm_state t"
    "s_children t = s_children s"
    using calm_rank_step [OF Cons.prems assms(2)] by blast
  show ?case using Cons.IH [OF t(2)] t by (auto simp: sbnd_def sret_def)
qed (simp add: sret_def)

lemma calm_worker_ready:
  assumes "calm_state s" "w_role wk \<in> set (dkeys (s_children s))" "w_ranks wk = PInt 4"
  shows "\<exists>t. worker_state calm_world example_pair wk s = (Inr ''ready'', t) \<and> calm_state t \<and>
    s_children t = s_children s"
proof -
  obtain pid where pid: "map_of (s_children s) (w_role wk) = Some pid"
    using assms(2) by (auto simp: dkeys_def map_of_eq_None_iff [symmetric] image_iff dest: weak_map_of_SomeI)
  let ?s = "s\<lparr>s_tick := Suc (Suc (s_tick s))\<rparr>"
  let ?h = "http_of s (w_role wk)"
  let ?b = "rat_of_int (if h_ever_ready ?h then 60 else 3600)"
  have c: "calm_state ?s" using assms(1) by (simp add: calm_state_def)
  have "30 \<le> ?b" by simp
  then obtain t where t: "smap (rank_step calm_world (w_role wk) 100 ?b) [0..<4] ?s =
      (Inr (map (\<lambda>_. ''ready'') [0..<4]), t)" "calm_state t" "s_children t = s_children s"
    using calm_smap [OF c] by fastforce
  have "\<exists>u. worker_verdict calm_world wk 100 ?h (map (\<lambda>_. ''ready'') [0..<4]) t = (Inr ''ready'', u) \<and>
      calm_state u \<and> s_children u = s_children s"
    using t(2,3) assms(1)
    by (auto simp: worker_verdict_def http_poll_def sbnd_def observe_def sput_def sret_def calm_world_def
        http_verdict_def calm_state_def http_of_def no_http_def map_of_dset Let_def split: option.splits)
  then obtain u where u: "worker_verdict calm_world wk 100 ?h (map (\<lambda>_. ''ready'') [0..<4]) t = (Inr ''ready'', u)"
    "calm_state u" "s_children u = s_children s" by blast
  have clock: "e_clock calm_world n = 100" "e_poll calm_world n k = None" for n k by (simp_all add: calm_world_def)
  have tick: "http_of (s\<lparr>s_tick := n\<rparr>) role = http_of s role" for n role by (simp add: http_of_def)
  have "worker_state calm_world example_pair wk s = (Inr ''ready'', u)"
    using pid t(1) u(1) assms(3)
    by (cases "h_ever_ready ?h") (simp_all add: worker_state_def worker_body_def sbnd_def observe_def sget_def
        sres_def rank_range_def clock tick Let_def example_pair_def del: upt_rec_numeral)
  then show ?thesis using u by blast
qed

lemma calm_model_exit: "model_exit calm_world s = (Inr False, s\<lparr>s_tick := Suc (s_tick s)\<rparr>)"
  by (simp add: model_exit_def sbnd_def observe_def calm_world_def sret_def)

lemma calm_stop_no: "\<not> s_stop s \<Longrightarrow> stop_set calm_world s = (Inr False, s\<lparr>s_tick := Suc (s_tick s)\<rparr>)"
  by (simp add: stop_set_def calm_world_def Let_def)

lemma calm_state_tick: "calm_state (s\<lparr>s_tick := n\<rparr>) = calm_state s"
  by (simp add: calm_state_def)

lemma calm_any_ready:
  assumes "calm_state s" "\<forall>wk \<in> set wks. w_role wk \<in> set (dkeys (s_children s)) \<and> w_ranks wk = PInt 4"
  shows "\<exists>t. any_failed calm_world example_pair wks s = (Inr False, t) \<and> calm_state t \<and> s_children t = s_children s"
  using assms
proof (induction wks arbitrary: s)
  case (Cons wk wks)
  then obtain t where t: "worker_state calm_world example_pair wk s = (Inr ''ready'', t)" "calm_state t"
    "s_children t = s_children s"
    using calm_worker_ready [of s wk] by auto
  then show ?case using Cons.IH [OF t(2)] Cons.prems(2) by (auto simp: sbnd_def)
qed (simp add: sret_def)

lemma example_ranks: "wk \<in> set (c_workers example_pair) \<Longrightarrow> w_ranks wk = PInt 4"
  by (auto simp: example_pair_def example_of_def)

lemma calm_launch:
  assumes "calm_state s" "w_role wk \<in> set (dkeys (s_children s))" "wk \<in> set (c_workers example_pair)"
  shows "\<exists>t. until_stop calm_world (launch_poll calm_world example_pair wk) () s = Some (Inr (), t) \<and>
    calm_state t \<and> s_children t = s_children s"
proof -
  let ?s = "s\<lparr>s_tick := Suc (Suc (s_tick s))\<rparr>"
  have "calm_state ?s" using assms(1) by (simp add: calm_state_tick)
  then obtain t where t: "any_failed calm_world example_pair (previous_workers example_pair wk ?s) ?s = (Inr False, t)"
    "calm_state t" "s_children t = s_children s"
    using calm_any_ready [of ?s "previous_workers example_pair wk ?s"] example_ranks
    by (auto simp: previous_workers_def)
  then obtain u where u: "worker_state calm_world example_pair wk t = (Inr ''ready'', u)" "calm_state u"
    "s_children u = s_children s"
    using calm_worker_ready [of t wk] assms example_ranks by auto
  have "\<not> s_stop s" using assms(1) by (simp add: calm_state_def)
  then show ?thesis using t(1) u
    by (subst until_stop.simps)
      (simp add: calm_stop_no launch_poll_def sbnd_def calm_model_exit sget_def sret_def)
qed

lemma calm_start_worker:
  assumes "calm_state s" "wk \<in> set (c_workers example_pair)"
  shows "\<exists>t. start_workers calm_world example_pair l offset (wk # wks) s =
      start_workers calm_world example_pair l (offset + nat (w_gpus wk)) wks t \<and> calm_state t \<and>
      s_children t = dset (w_role wk) 41 (s_children s)"
proof -
  have go: "\<not> s_stop s" using assms(1) by (simp add: calm_state_def)
  let ?env = "worker_environ (l_environ l) (l_devices l) offset wk (l_run_dir l)"
  let ?s = "s\<lparr>s_tick := Suc (Suc (s_tick s)), s_children := dset (w_role wk) 41 (s_children s),
      s_spawned := s_spawned s @ [(w_command wk, ?env)]\<rparr>"
  have spawn: "spawn calm_world (w_role wk) (w_command wk) ?env (s\<lparr>s_tick := Suc (s_tick s)\<rparr>) = (Inr (), ?s)"
    by (simp add: spawn_def sbnd_def observe_def calm_world_def sres_def sput_def)
  have "calm_state ?s" using assms(1) by (simp add: calm_state_def)
  then obtain t where t: "until_stop calm_world (launch_poll calm_world example_pair wk) () ?s = Some (Inr (), t)"
    "calm_state t" "s_children t = dset (w_role wk) 41 (s_children s)"
    using calm_launch [of ?s wk] assms(2) by (auto simp: dkeys_def keys_dset)
  have "\<not> s_stop t" using t(2) by (simp add: calm_state_def)
  then show ?thesis using t go spawn
    by (intro exI [of _ "t\<lparr>s_tick := Suc (s_tick t)\<rparr>"])
      (simp add: sbnd_def calm_stop_no sret_def calm_state_tick)
qed

lemma calm_start:
  "\<exists>t. start calm_world example_pair example_launch example_sup = Some (Inr (), t) \<and> calm_state t \<and>
    dkeys (s_children t) = [''model'', ''prefill'', ''decode'']"
proof -
  let ?gate = "(gate_command example_pair (l_run_dir example_launch), inherited (l_environ example_launch))"
  let ?s = "example_sup\<lparr>s_locations := [''sglang/srt/managers/scheduler.py''], s_tick := 4,
      s_children := [(''model'', 41)], s_spawned := [?gate]\<rparr>"
  let ?s1 = "?s\<lparr>s_tick := 1\<rparr>"
  have s1: "sbnd (sres (l_setup example_launch)) (\<lambda>locations. sbnd (sput (\<lambda>s. s\<lparr>s_locations := locations\<rparr>)) (\<lambda>_.
      spawn calm_world ''model'' (fst ?gate) (snd ?gate))) example_sup = (Inr (), ?s1)"
    by (simp add: sbnd_def sres_def sput_def spawn_def observe_def calm_world_def example_launch_def example_sup_def)
  have marker: "e_ready calm_world n = Some 6" for n by (simp add: calm_world_def)
  have gate: "until_stop calm_world (gate_poll calm_world example_pair) True ?s1 = Some (Inr True, ?s)"
    by (subst until_stop.simps)
      (simp add: calm_stop_no example_sup_def gate_poll_def sbnd_def calm_model_exit observe_def marker sret_def)
  have "calm_state ?s" by (simp add: calm_state_def example_sup_def)
  then obtain t where t: "start_workers calm_world example_pair example_launch 0 (launch_order example_pair) ?s =
      start_workers calm_world example_pair example_launch 4 [example_of ''decode'' 30001] t"
    "calm_state t" "s_children t = dset ''prefill'' 41 [(''model'', 41)]"
    using calm_start_worker [of ?s "example_of ''prefill'' 30000" example_launch 0 "[example_of ''decode'' 30001]"]
    by (auto simp: launch_order_def example_pair_def example_of_def)
  obtain u where u: "start_workers calm_world example_pair example_launch 4 [example_of ''decode'' 30001] t = Some (Inr (), u)"
    "calm_state u" "s_children u = dset ''decode'' 41 (dset ''prefill'' 41 [(''model'', 41)])"
    using calm_start_worker [OF t(2), of "example_of ''decode'' 30001" example_launch 4 "[]"] t(3)
    by (auto simp: example_pair_def example_of_def)
  have "start calm_world example_pair example_launch example_sup = Some (Inr (), u)"
    using s1 gate t(1) u(1) by (simp add: start_def)
  then show ?thesis using u by (auto simp: dkeys_def)
qed

lemma calm_monitor:
  assumes "calm_state s" "dkeys (s_children s) = [''model'', ''prefill'', ''decode'']"
  shows "\<exists>t. monitor_step calm_world example_pair s = (Inr None, t) \<and> s_snapshot t = (''ready'', 100)"
proof -
  obtain t where t: "worker_state calm_world example_pair (example_of ''prefill'' 30000) s = (Inr ''ready'', t)"
    "calm_state t" "s_children t = s_children s"
    using calm_worker_ready [OF assms(1), of "example_of ''prefill'' 30000"] assms(2) by (auto simp: example_of_def)
  obtain u where u: "worker_state calm_world example_pair (example_of ''decode'' 30001) t = (Inr ''ready'', u)"
    using calm_worker_ready [OF t(2), of "example_of ''decode'' 30001"] t(3) assms(2) by (auto simp: example_of_def)
  have workers: "c_workers example_pair = [example_of ''prefill'' 30000, example_of ''decode'' 30001]"
    by (simp add: example_pair_def)
  have clock: "e_clock calm_world n = 100" for n by (simp add: calm_world_def)
  show ?thesis using t(1) u
    by (simp add: monitor_step_def workers sbnd_def calm_model_exit observe_def sret_def monitor_verdict_def
        sget_def sput_def clock overall_def)
qed


lemma start_order_witness:
  "\<exists>t p d n. start calm_world example_pair example_launch example_sup = Some (Inr (), t) \<and>
    set (c_workers example_pair) = {p, d} \<and> w_role p = ''prefill'' \<and>
    take (nat (w_gpus p)) (l_devices example_launch) @
      take (nat (w_gpus d)) (drop (nat (w_gpus p)) (l_devices example_launch)) = l_devices example_launch"
proof -
  obtain t where t: "start calm_world example_pair example_launch example_sup = Some (Inr (), t)"
    using calm_start by blast
  from start_order [OF example_new t] t show ?thesis by auto
qed

definition stopping_world :: world where
  "stopping_world = calm_world\<lparr>e_clock := of_nat, e_poll := (\<lambda>_ _. Some 0), e_signal := (\<lambda>_. True),
     e_reaped := (\<lambda>_ _. False)\<rparr>"

lemma stopping_clock: "clock_runs stopping_world"
  unfolding clock_runs_def
proof
  fix d :: rat
  obtain N where "d < of_nat N" using reals_Archimedean2 by blast
  then have "\<forall>n \<ge> N. d < e_clock stopping_world n"
    by (auto simp: stopping_world_def intro: less_le_trans)
  then show "\<exists>N. \<forall>n \<ge> N. d < e_clock stopping_world n" ..
qed

lemma start_returns_witness:
  "clock_runs stopping_world \<and> (\<exists>r t. start stopping_world example_pair example_launch example_sup = Some (r, t))"
  using start_returns [OF stopping_clock] stopping_clock by blast

lemma stopping_signals: "signals_work stopping_world"
  by (simp add: signals_work_def stopping_world_def calm_world_def)


lemma stopping_signal: "signal_comes stopping_world"
  by (simp add: signal_comes_def stopping_world_def)


lemma stopping_stop: "stop_set stopping_world s = (Inr True, s\<lparr>s_stop := True, s_tick := Suc (s_tick s)\<rparr>)"
  by (simp add: stop_set_def stopping_world_def Let_def)

lemma stopping_until: "until_stop stopping_world body d s = Some (Inr d, s\<lparr>s_stop := True, s_tick := Suc (s_tick s)\<rparr>)"
  by (subst until_stop.simps) (simp add: stopping_stop)

lemma stopping_readings:
  "e_spawn stopping_world n = Inr 41" "e_killpg stopping_world n pid sig = Inr ()"
  "e_poll stopping_world n key = Some 0" "e_reaped stopping_world n key = False"
  "e_clock stopping_world n = of_nat n"
  by (simp_all add: stopping_world_def calm_world_def)

lemma stopping_start:
  "\<exists>t. start stopping_world example_pair example_launch example_sup = Some (Inr (), t) \<and>
    s_failed t = False \<and> s_children t = [(''model'', 41)] \<and> s_log t = []"
proof -
  let ?gate = "(gate_command example_pair (l_run_dir example_launch), inherited (l_environ example_launch))"
  let ?s1 = "example_sup\<lparr>s_locations := [''sglang/srt/managers/scheduler.py''], s_tick := 1,
      s_children := [(''model'', 41)], s_spawned := [?gate]\<rparr>"
  have s1: "sbnd (sres (l_setup example_launch)) (\<lambda>locations. sbnd (sput (\<lambda>s. s\<lparr>s_locations := locations\<rparr>)) (\<lambda>_.
      spawn stopping_world ''model'' (fst ?gate) (snd ?gate))) example_sup = (Inr (), ?s1)"
    by (simp add: sbnd_def sres_def sput_def spawn_def observe_def stopping_readings example_launch_def example_sup_def)
  have order: "launch_order example_pair = [example_of ''prefill'' 30000, example_of ''decode'' 30001]"
    by (simp add: launch_order_def example_pair_def example_of_def)
  show ?thesis using s1
    by (simp add: start_def stopping_until order sbnd_def stopping_stop sret_def example_sup_def)
qed

lemma stopping_shutdown:
  assumes "s_children s = [(''model'', 41)]"
  shows "\<exists>t. shutdown stopping_world example_pair s = Some (Inr (), t) \<and> s_log t \<noteq> []"
proof -
  let ?s1 = "closing stopping_world s\<lparr>s_tick := s_tick s + 2, s_signals := s_signals s @ [(41, 15)]\<rparr>"
  have kill: "kill_all stopping_world 15 (s_children s) (closing stopping_world s) = (Inr (), ?s1)"
    using assms by (simp add: kill_group_def sbnd_def observe_def sput_def sres_def sret_def stopping_readings closing_def)
  have await: "await_exit stopping_world (of_nat n + 30) (u\<lparr>s_tick := Suc n\<rparr>) =
      Some (Inr (), u\<lparr>s_tick := Suc (Suc (Suc n))\<rparr>)" if u: "s_children u = [(''model'', 41)]" for n u
    using u by (subst await_exit.simps) (simp add: observe_def sbnd_def stopping_readings sret_def)
  obtain d where d: "emit_event (s_locations s) ''shutdown_timeout'' ''pair'' [] = Inr d"
    using emit_plain [of "''shutdown_timeout''" "''pair''"] by (auto simp: EVENTS_def)
  show ?thesis using kill await [of ?s1 "s_tick s + 2"] assms d
    by (simp add: shutdown_eq sbnd_def observe_def sget_def stopping_readings example_pair_def closing_def
        kill_group_def sput_def sres_def sret_def emit_def)
qed

lemma stopping_main:
  "\<exists>t. main_pair stopping_world example_config example_launch 50 = Some (Inr 0, Some t) \<and> s_log t \<noteq> []"
proof -
  obtain s1 where s1: "start stopping_world example_pair example_launch example_sup = Some (Inr (), s1)"
    "s_failed s1 = False" "s_children s1 = [(''model'', 41)]"
    using stopping_start by blast
  let ?s2 = "s1\<lparr>s_stop := True, s_tick := Suc (Suc (s_tick s1)),
      s_snapshot := (''failed'', e_clock stopping_world (Suc (s_tick s1)))\<rparr>"
  have s2: "monitor stopping_world example_pair s1 = Some (Inr 0, ?s2)"
    using s1(2) by (simp add: monitor_def stopping_until fail_snapshot_def sbnd_def observe_def sput_def sget_def sret_def)
  obtain t where t: "shutdown stopping_world example_pair ?s2 = Some (Inr (), t)" "s_log t \<noteq> []"
    using stopping_shutdown [of ?s2] s1(3) by auto
  have no_sink: "l_sink example_launch = None" by (simp add: example_launch_def)
  have "main_pair stopping_world example_config example_launch 50 = Some (Inr 0, Some t)"
    using s1(1) s2 t(1)
    by (simp add: main_pair_def example_new report_delivery_def no_sink sbnd_def sret_def sres_def)
  then show ?thesis using t(2) by blast
qed

lemma main_exit_zero_witness:
  "\<exists>t n. main_pair stopping_world example_config example_launch 50 = Some (Inr 0, Some t) \<and> \<not> s_failed t \<and>
    n < s_tick t \<and> e_signal stopping_world n"
proof -
  obtain t where t: "main_pair stopping_world example_config example_launch 50 = Some (Inr 0, Some t)"
    using stopping_main by blast
  from main_exit_zero [OF t] t show ?thesis by auto
qed


end
