(* ===== verification/Release_Profiles.thy ===== *)
theory Release_Profiles
  imports Repo_Env Py_Regex
begin

text \<open>
  \<open>scripts/release_profiles.py\<close>: the release profiles of \<open>release/profiles.json\<close>, the choice of
  a profile by tag or by directory, the layered specification and the layered Helm values.
\<close>

section \<open>Profiles\<close>

abbreviation profile_error :: "string \<Rightarrow> exn" where
  "profile_error m \<equiv> Exn ProfileError m"

record profile =
  prof_name :: pyv
  tag_suffix :: pyv
  environment :: pyv
  signing_environment :: pyv
  layers :: "path list"

definition directory :: "profile \<Rightarrow> path" where
  "directory p = last (layers p)"

definition policy :: "profile \<Rightarrow> path" where
  "policy p = directory p @ [''allowlist-policy.json'']"

definition accepted_findings :: "profile \<Rightarrow> path" where
  "accepted_findings p = directory p @ [''accepted-lint-findings.json'']"

definition allowlist :: "profile \<Rightarrow> path" where
  "allowlist p = directory p @ [''allowlist.json'']"

definition release_values :: "profile \<Rightarrow> path" where
  "release_values p = directory p @ [''release-values.yaml'']"

definition spec_files :: "repo_env \<Rightarrow> profile \<Rightarrow> path list" where
  "spec_files env p = filter (is_file env) (map (\<lambda>l. l @ [''spec.yaml'']) (layers p))"

definition values_files :: "repo_env \<Rightarrow> profile \<Rightarrow> path list" where
  "values_files env p = filter (is_file env) (map (\<lambda>l. l @ [''values.yaml'']) (layers p))"

definition relative :: "repo_env \<Rightarrow> path \<Rightarrow> string res" where
  "relative env p = relative_to p (repo_root env)"

definition PROFILES :: "repo_env \<Rightarrow> path" where
  "PROFILES env = repo_root env @ [''release'', ''profiles.json'']"

definition PROFILE_SCHEMA :: string where
  "PROFILE_SCHEMA = ''confidential.ai/release-profiles/v1''"

text \<open>\<open>^[a-z][a-z0-9-]*$\<close> and \<open>^(?:-[a-z][a-z0-9]*)?$\<close>.\<close>

definition NAME :: rx where
  "NAME = RSeq (RChr is_lower) (RStar (RChr (\<lambda>c. is_lower c \<or> is_digit c \<or> c = CHR ''-'')))"

definition SUFFIX :: rx where
  "SUFFIX = rx_opt (rx_seqs [rx_lit ''-'', RChr is_lower, RStar (RChr (\<lambda>c. is_lower c \<or> is_digit c))])"

text \<open>\<open>v(?:0|[1-9][0-9]*)\.(?:0|[1-9][0-9]*)\.(?:0|[1-9][0-9]*)\<close>.\<close>

definition rx_numeric :: rx where
  "rx_numeric =
     RAlt (rx_lit ''0'') (RSeq (RChr (\<lambda>c. is_digit c \<and> c \<noteq> CHR ''0'')) (RStar (RChr is_digit)))"

definition VERSION :: rx where
  "VERSION = rx_seqs [rx_lit ''v'', rx_numeric, rx_lit ''.'', rx_numeric, rx_lit ''.'', rx_numeric]"

definition profile_fields :: "string list" where
  "profile_fields = [''name'', ''tagSuffix'', ''environment'', ''signingEnvironment'', ''layers'']"

definition resolve_layer :: "repo_env \<Rightarrow> pyv \<Rightarrow> path res" where
  "resolve_layer env layer =
     (case layer of PStr s \<Rightarrow> Inr (realpath env (join_path (repo_root env) s)) | _ \<Rightarrow> type_error)"

definition load_item :: "repo_env \<Rightarrow> pyv \<Rightarrow> profile res" where
  "load_item env item =
     bnd (raise_if (case item of PDict d \<Rightarrow> \<not> same_keys (dkeys d) profile_fields | _ \<Rightarrow> True)
            (profile_error ''a profile must hold exactly ['environment', 'layers', 'name', 'signingEnvironment', 'tagSuffix']'')) (\<lambda>_.
     bnd (jidx item ''name'') (\<lambda>nm.
     bnd (jidx item ''tagSuffix'') (\<lambda>suffix.
     bnd (raise_if (\<not> fullmatch NAME (py_str nm) \<or> \<not> fullmatch SUFFIX (py_str suffix))
            (profile_error (''profile '' @ py_repr nm @ '' has an invalid name or tag suffix''))) (\<lambda>_.
     bnd (jidx item ''layers'') (\<lambda>ls.
     bnd (raise_if (case ls of PList xs \<Rightarrow> xs = [] \<or> \<not> py_eq (hd xs) (PStr ''release'') | _ \<Rightarrow> True)
            (profile_error (''profile '' @ py_str nm @ '' must start from the release layer''))) (\<lambda>_.
     bnd (jiter ls) (\<lambda>xs.
     bnd (mapM (resolve_layer env) xs) (\<lambda>resolved.
     bnd (raise_if (list_ex (\<lambda>l. \<not> under (repo_root env @ [''release'']) l \<or> \<not> dir_exists env l) resolved)
            (profile_error (''profile '' @ py_str nm @ '' has a layer outside release/''))) (\<lambda>_.
     bnd (jidx item ''environment'') (\<lambda>e.
     bnd (jidx item ''signingEnvironment'') (\<lambda>se.
       Inr \<lparr>prof_name = nm, tag_suffix = suffix, environment = e, signing_environment = se,
            layers = resolved\<rparr>)))))))))))"

definition unique_or_raise :: "string \<Rightarrow> bool \<Rightarrow> unit res" where
  "unique_or_raise what ok =
     raise_if (\<not> ok) (profile_error (''the release profiles repeat a '' @ what))"

definition distinct_values :: "pyv list \<Rightarrow> bool res" where
  "distinct_values vs = bnd (py_set vs) (\<lambda>u. Inr (vs \<noteq> [] \<and> length u = length vs))"

definition load :: "repo_env \<Rightarrow> profile list res" where
  "load env =
     bnd (try_except (bnd (read_text env (PROFILES env)) loads) [OSError, JSONDecodeError]
            (\<lambda>e. Inl (profile_error (''cannot read '' @ path_str (PROFILES env) @ '': '' @ msg e)))) (\<lambda>document.
     bnd (if is_dict document then jget document ''schema'' else Inr PNone) (\<lambda>schema.
     bnd (raise_if (\<not> is_dict document \<or> \<not> py_eq schema (PStr PROFILE_SCHEMA))
            (profile_error (path_str (PROFILES env) @ '' has the wrong schema''))) (\<lambda>_.
     bnd (jgetd document ''profiles'' (PList [])) (\<lambda>v. bnd (jiter v) (\<lambda>items.
     bnd (mapM (load_item env) items) (\<lambda>profiles.
     bnd (distinct_values (map prof_name profiles)) (\<lambda>b1.
     bnd (unique_or_raise ''name'' b1) (\<lambda>_.
     bnd (distinct_values (map tag_suffix profiles)) (\<lambda>b2.
     bnd (unique_or_raise ''tag suffix'' b2) (\<lambda>_.
     bnd (unique_or_raise ''directory''
            (profiles \<noteq> [] \<and> length (remdups (map directory profiles)) = length profiles)) (\<lambda>_.
       Inr profiles)))))))))))"

section \<open>Tags\<close>

definition suffix_text :: "profile \<Rightarrow> string" where
  "suffix_text p = py_str (tag_suffix p)"

definition rx_transition :: rx where
  "rx_transition = rx_opt (rx_lit ''-transition'')"

text \<open>\<open>sorted(profiles, key=lambda p: len(p.tag_suffix), reverse=True)\<close> keeps the order of equals.\<close>

definition longest_suffix_first :: "profile list \<Rightarrow> profile list" where
  "longest_suffix_first ps = sort_key (\<lambda>p. - int (length (suffix_text p))) ps"

text \<open>\<open>len\<close> and \<open>re.escape\<close> of a suffix that is not a string raise \<open>TypeError\<close>.\<close>

definition load_suffixed :: "repo_env \<Rightarrow> profile list res" where
  "load_suffixed env =
     bnd (load env) (\<lambda>ps. if list_all (\<lambda>p. is_str (tag_suffix p)) ps then Inr ps else type_error)"

definition tag_pattern :: "repo_env \<Rightarrow> rx res" where
  "tag_pattern env =
     bnd (load_suffixed env) (\<lambda>ps.
       Inr (rx_seqs [VERSION, rx_transition, rx_alts (map (\<lambda>p. rx_lit (suffix_text p)) (longest_suffix_first ps))]))"

definition accepts_tag :: "string \<Rightarrow> profile \<Rightarrow> bool" where
  "accepts_tag tag p =
     (let version = take (length tag - length (suffix_text p)) tag
      in endswith tag (suffix_text p) \<and> fullmatch (RSeq VERSION rx_transition) version)"

definition for_tag :: "repo_env \<Rightarrow> string \<Rightarrow> profile res" where
  "for_tag env tag =
     bnd (load_suffixed env) (\<lambda>ps.
       case find (accepts_tag tag) (longest_suffix_first ps) of
         Some p \<Rightarrow> Inr p
       | None \<Rightarrow> Inl (profile_error (''no release profile accepts the tag '' @ str_repr tag)))"

definition workload_release :: "repo_env \<Rightarrow> string \<Rightarrow> string res" where
  "workload_release env tag =
     bnd (for_tag env tag) (\<lambda>_. Inr (str_replace_first ''-transition'' [] tag))"

definition set_release :: "repo_env \<Rightarrow> string \<Rightarrow> pyv \<Rightarrow> string \<Rightarrow> pyv res" where
  "set_release env release_id item field =
     bnd (jget item field) (\<lambda>v.
       case v of
         PStr s \<Rightarrow>
           bnd (workload_release env release_id) (\<lambda>r.
             case item of
               PDict d \<Rightarrow> Inr (PDict (dset field
                 (PStr (str_replace ''{release}'' (str_replace ''.'' ''-'' r) s)) d))
             | _ \<Rightarrow> type_error)
       | _ \<Rightarrow> Inr item)"

definition policy_for_release :: "repo_env \<Rightarrow> pyv \<Rightarrow> string \<Rightarrow> pyv res" where
  "policy_for_release env document release_id =
     bnd (loads (dumps json_default document)) (\<lambda>result.
     bnd (jgetd result ''workloads'' (PList [])) (\<lambda>v.
     bnd (jiter v) (\<lambda>items.
     bnd (mapM (\<lambda>item. foldM (set_release env release_id) item [''name'', ''controller'']) items) (\<lambda>items'.
       case (result, v) of
         (PDict d, PList _) \<Rightarrow>
           Inr (if ''workloads'' \<in> set (dkeys d) then PDict (dset ''workloads'' (PList items') d) else result)
       | _ \<Rightarrow> Inr result))))"

definition for_directory :: "repo_env \<Rightarrow> string \<Rightarrow> profile res" where
  "for_directory env p =
     (let dir = realpath env (join_path (repo_root env) p) in
      bnd (load env) (\<lambda>ps.
        case find (\<lambda>q. directory q = dir) ps of
          Some q \<Rightarrow> Inr q
        | None \<Rightarrow> Inl (profile_error (''no release profile has the directory '' @ p))))"

section \<open>Layers\<close>

definition read_spec_step :: "repo_env \<Rightarrow> pydict \<Rightarrow> path \<Rightarrow> pydict res" where
  "read_spec_step env spec f =
     bnd (try_except (bnd (read_text env f) (yaml_load env)) [OSError, YAMLError]
            (\<lambda>e. Inl (profile_error (''cannot read '' @ path_str f @ '': '' @ msg e)))) (\<lambda>layer.
       case layer of
         PDict d \<Rightarrow> Inr (dupdate spec d)
       | _ \<Rightarrow> Inl (profile_error (path_str f @ '' is not a mapping'')))"

definition read_spec :: "repo_env \<Rightarrow> profile \<Rightarrow> pydict res" where
  "read_spec env p = foldM (read_spec_step env) [] (spec_files env p)"

definition step_key :: "pyv \<Rightarrow> string \<Rightarrow> pyv" where
  "step_key current key =
     (case current of PDict d \<Rightarrow> (case map_of d key of None \<Rightarrow> PNone | Some v \<Rightarrow> v) | _ \<Rightarrow> PNone)"

definition key_value :: "repo_env \<Rightarrow> string list \<Rightarrow> path \<Rightarrow> pyv res" where
  "key_value env key_path f =
     bnd (bnd (read_text env f) (yaml_load env)) (\<lambda>v. Inr (foldl step_key (py_or v (PDict [])) key_path))"

definition owning_file :: "repo_env \<Rightarrow> path list \<Rightarrow> string list \<Rightarrow> path res" where
  "owning_file env files key_path =
     bnd (findM (\<lambda>f. bnd (key_value env key_path f) (\<lambda>v. Inr (v \<noteq> PNone))) (rev files)) (\<lambda>found.
       case found of
         Some f \<Rightarrow> Inr f
       | None \<Rightarrow> Inl (profile_error (''no layer file sets '' @ str_join ''.'' key_path @ '': '' @
           py_repr (PList (map (\<lambda>f. PStr (path_str f)) files)))))"

definition spec_layer :: "repo_env \<Rightarrow> profile \<Rightarrow> string \<Rightarrow> path res" where
  "spec_layer env p key = bnd (owning_file env (spec_files env p) [key]) (\<lambda>f. Inr (butlast f))"

definition node_manifest :: "repo_env \<Rightarrow> profile \<Rightarrow> path res" where
  "node_manifest env p = bnd (spec_layer env p ''c8s'') (\<lambda>l. Inr (l @ [''node-manifest.json'']))"

fun merge_values :: "pyv \<Rightarrow> pyv \<Rightarrow> pyv" where
  "merge_values (PDict base) (PDict layer) =
     PDict (dupdate base
       (map (\<lambda>(key, v). (key, case map_of base key of None \<Rightarrow> v | Some b \<Rightarrow> merge_values b v)) layer))"
| "merge_values base layer = layer"

definition read_values :: "repo_env \<Rightarrow> profile \<Rightarrow> pyv res" where
  "read_values env p =
     foldM (\<lambda>vs f. bnd (bnd (read_text env f) (yaml_load env)) (\<lambda>v.
       Inr (merge_values vs (py_or v (PDict []))))) (PDict []) (values_files env p)"

definition helm_values_args :: "repo_env \<Rightarrow> profile \<Rightarrow> path option \<Rightarrow> string list" where
  "helm_values_args env p overlay =
     concat (map (\<lambda>f. [''--values'', path_str f])
       (values_files env p @ (case overlay of None \<Rightarrow> [] | Some f \<Rightarrow> [f])))"

definition describe :: "repo_env \<Rightarrow> profile \<Rightarrow> pyv res" where
  "describe env p =
     bnd (relative env (directory p)) (\<lambda>dir.
     bnd (mapM (relative env) (values_files env p)) (\<lambda>vs.
       Inr (PDict [(''name'', prof_name p), (''directory'', PStr dir), (''environment'', environment p),
         (''signing_environment'', signing_environment p), (''values'', PList (map PStr vs))])))"

datatype resolve_target = Tag string | Release string

definition main_profiles :: "repo_env \<Rightarrow> resolve_target \<Rightarrow> bool \<Rightarrow> (int \<times> string \<times> string) res" where
  "main_profiles env target github =
     bnd (try_except (bnd (case target of Tag t \<Rightarrow> if t = [] then no_attribute else for_tag env t | Release r \<Rightarrow> for_directory env r) (\<lambda>p. Inr (Inr p)))
            [ProfileError] (\<lambda>e. Inr (Inl e))) (\<lambda>outcome.
       case outcome of
         Inl e \<Rightarrow> Inr (1, [], ''release-profiles: '' @ msg e @ [char_of (10 :: nat)])
       | Inr p \<Rightarrow>
           bnd (describe env p) (\<lambda>v. bnd (jitems v) (\<lambda>items.
             if github
             then bnd (mapM (\<lambda>(key, item).
                    bnd (case item of PList xs \<Rightarrow> bnd (mapM str_method xs) (\<lambda>ss. Inr (str_join '' '' ss))
                         | _ \<Rightarrow> Inr (py_str item)) (\<lambda>t. Inr (key @ ''='' @ t @ [char_of (10 :: nat)]))) items)
                  (\<lambda>ls. Inr (0, concat ls, []))
             else Inr (0, dumps json_indent2 v @ [char_of (10 :: nat)], []))))"

section \<open>Tags and profiles\<close>

lemma load_suffixed_load: "load_suffixed env = Inr ps \<Longrightarrow> load env = Inr ps \<and> list_all (\<lambda>p. is_str (tag_suffix p)) ps"
  by (auto simp: load_suffixed_def elim!: bndE split: if_splits)

lemma accepts_tag_iff:
  "accepts_tag tag p \<longleftrightarrow>
     (\<exists>v t. tag = v @ t @ suffix_text p \<and> fullmatch VERSION v \<and> fullmatch rx_transition t)"
proof -
  have "accepts_tag tag p \<longleftrightarrow> (\<exists>w. tag = w @ suffix_text p \<and> fullmatch (RSeq VERSION rx_transition) w)"
    by (auto simp: accepts_tag_def Let_def endswith_iff)
  then show ?thesis unfolding fullmatch_Seq by (metis append_assoc)
qed

lemma set_longest_suffix_first [simp]: "set (longest_suffix_first ps) = set ps"
  by (simp add: longest_suffix_first_def)

lemma find_sorted_longest:
  assumes "find P (longest_suffix_first ps) = Some p"
  shows "p \<in> set ps \<and> P p \<and> (\<forall>q \<in> set ps. P q \<longrightarrow> length (suffix_text q) \<le> length (suffix_text p))"
proof -
  let ?xs = "longest_suffix_first ps"
  from assms obtain i where i: "i < length ?xs" "P (?xs ! i)" "p = ?xs ! i" "\<forall>j<i. \<not> P (?xs ! j)"
    by (auto simp: find_Some_iff)
  have "length (suffix_text q) \<le> length (suffix_text p)" if q: "q \<in> set ps" "P q" for q
  proof -
    from q obtain j where j: "j < length ?xs" "q = ?xs ! j" by (metis in_set_conv_nth set_longest_suffix_first)
    with i q have "i \<le> j" by (meson not_le)
    moreover have "sorted (map (\<lambda>p. - int (length (suffix_text p))) ?xs)"
      by (simp add: longest_suffix_first_def)
    ultimately have "map (\<lambda>p. - int (length (suffix_text p))) ?xs ! i \<le> map (\<lambda>p. - int (length (suffix_text p))) ?xs ! j"
      using j by (intro sorted_nth_mono) auto
    with i j show ?thesis by simp
  qed
  moreover have "p \<in> set ps" using i by (metis nth_mem set_longest_suffix_first)
  ultimately show ?thesis using i by blast
qed

lemma for_tag_iff_accepts:
  assumes "load_suffixed env = Inr ps"
  shows "(\<exists>p. for_tag env tag = Inr p) \<longleftrightarrow> (\<exists>p \<in> set ps. accepts_tag tag p)"
proof -
  have "(\<exists>p. for_tag env tag = Inr p) \<longleftrightarrow> find (accepts_tag tag) (longest_suffix_first ps) \<noteq> None"
    using assms by (auto simp: for_tag_def split: option.splits)
  then show ?thesis by (simp add: find_None_iff Bex_def)
qed

lemma fullmatch_tag_pattern:
  "fullmatch (rx_seqs [VERSION, rx_transition, rx_alts (map (\<lambda>p. rx_lit (suffix_text p)) ps)]) tag \<longleftrightarrow>
     (\<exists>p \<in> set ps. accepts_tag tag p)"
proof -
  have "fullmatch (rx_seqs [VERSION, rx_transition, rx_alts (map (\<lambda>p. rx_lit (suffix_text p)) ps)]) tag \<longleftrightarrow>
      (\<exists>u v. \<exists>p \<in> set ps. tag = u @ v @ suffix_text p \<and> fullmatch VERSION u \<and> fullmatch rx_transition v)"
    by (auto simp: fullmatch_Seq fullmatch_alts) blast
  also have "\<dots> \<longleftrightarrow> (\<exists>p \<in> set ps. accepts_tag tag p)"
    unfolding accepts_tag_iff by blast
  finally show ?thesis .
qed

text \<open>
  C6: the pattern of \<open>tag_pattern\<close> matches exactly the tags that \<open>for_tag\<close> accepts, and \<open>for_tag\<close>
  returns a listed profile that accepts the tag with the longest suffix of all that accept it.
\<close>

theorem tag_pattern_for_tag:
  assumes "tag_pattern env = Inr pattern"
  shows "(fullmatch pattern tag \<longleftrightarrow> (\<exists>p. for_tag env tag = Inr p)) \<and>
    (\<forall>p. for_tag env tag = Inr p \<longrightarrow>
      (\<exists>ps. load env = Inr ps \<and> p \<in> set ps \<and> accepts_tag tag p \<and>
        (\<forall>q \<in> set ps. accepts_tag tag q \<longrightarrow> length (suffix_text q) \<le> length (suffix_text p))))"
proof -
  from assms obtain ps where ps: "load_suffixed env = Inr ps" 
    and pat: "pattern = rx_seqs [VERSION, rx_transition, rx_alts (map (\<lambda>p. rx_lit (suffix_text p)) (longest_suffix_first ps))]"
    by (auto simp: tag_pattern_def elim!: bndE)
  have "fullmatch pattern tag \<longleftrightarrow> (\<exists>p. for_tag env tag = Inr p)"
    unfolding pat fullmatch_tag_pattern for_tag_iff_accepts [OF ps] by simp
  moreover have "\<exists>ps. load env = Inr ps \<and> p \<in> set ps \<and> accepts_tag tag p \<and>
        (\<forall>q \<in> set ps. accepts_tag tag q \<longrightarrow> length (suffix_text q) \<le> length (suffix_text p))"
    if "for_tag env tag = Inr p" for p
  proof -
    from that ps have "find (accepts_tag tag) (longest_suffix_first ps) = Some p"
      by (auto simp: for_tag_def split: option.splits)
    from find_sorted_longest [OF this] load_suffixed_load [OF ps] show ?thesis by blast
  qed
  ultimately show ?thesis by blast
qed

section \<open>Transition releases\<close>

definition suffix_shape :: "string \<Rightarrow> bool" where
  "suffix_shape s \<longleftrightarrow> s = [] \<or> hd s = CHR ''-''"

lemma load_profiles:
  assumes "load env = Inr ps"
  shows "\<exists>items. mapM (load_item env) items = Inr ps"
  using assms by (auto simp: load_def elim!: bndE)

lemma load_item_suffix: "load_item env item = Inr p \<Longrightarrow> fullmatch SUFFIX (suffix_text p)"
  by (auto simp: load_item_def suffix_text_def res_simps elim!: bndE)

lemma suffix_shape_SUFFIX: "fullmatch SUFFIX s \<Longrightarrow> suffix_shape s"
  by (auto simp: SUFFIX_def suffix_shape_def fullmatch_opt fullmatch_Seq)

lemma load_suffix_shape: "load env = Inr ps \<Longrightarrow> p \<in> set ps \<Longrightarrow> suffix_shape (suffix_text p)"
  using load_profiles mapM_member_rev load_item_suffix suffix_shape_SUFFIX by meson

lemma fullmatch_numeric: "fullmatch rx_numeric s \<Longrightarrow> list_all is_digit s \<and> s \<noteq> []"
  by (auto simp: rx_numeric_def fullmatch_Alt fullmatch_Seq fullmatch_chr fullmatch_star_class is_digit_def)

lemma VERSION_no_dash: "fullmatch VERSION v \<Longrightarrow> CHR ''-'' \<notin> set v \<and> v \<noteq> []"
  by (auto simp: VERSION_def fullmatch_Seq dest!: fullmatch_numeric)
    (auto simp: list_all_iff is_digit_def)

lemma dash_split:
  assumes "v @ s = v' @ s'" "CHR ''-'' \<notin> set v" "CHR ''-'' \<notin> set v'" "suffix_shape s" "suffix_shape s'"
  shows "v = v' \<and> s = s'"
proof -
  have "takeWhile (\<lambda>c. c \<noteq> CHR ''-'') (w @ t) = w" if "CHR ''-'' \<notin> set w" "suffix_shape t" for w t
    using that by (cases t) (auto simp: suffix_shape_def takeWhile_append)
  from this [of v s] this [of v' s'] assms show ?thesis by auto
qed

text \<open>The condition on the profiles under which the transition marker cannot be taken for a suffix.\<close>

definition no_transition_suffix :: "profile list \<Rightarrow> bool" where
  "no_transition_suffix ps = list_all (\<lambda>p. \<not> startswith (suffix_text p) ''-transition'') ps"

lemma accepts_tag_plain:
  assumes "load env = Inr ps" "no_transition_suffix ps" "fullmatch VERSION v" "q \<in> set ps" "p \<in> set ps"
  shows "accepts_tag (v @ suffix_text p) q \<longleftrightarrow> suffix_text q = suffix_text p"
    and "accepts_tag (v @ ''-transition'' @ suffix_text p) q \<longleftrightarrow> suffix_text q = suffix_text p"
proof -
  have shapes: "suffix_shape (suffix_text q)" "suffix_shape (suffix_text p)"
    using load_suffix_shape assms by blast+
  have no: "suffix_text q \<noteq> ''-transition'' @ s" "suffix_text p \<noteq> ''-transition'' @ s" for s
    using assms(2,4,5) by (auto simp: no_transition_suffix_def list_all_iff startswith_iff)
  have trans: "fullmatch rx_transition t \<longleftrightarrow> t = [] \<or> t = ''-transition''" for t
    by (auto simp: rx_transition_def fullmatch_opt)
  have split: "v = v' \<and> s = t @ suffix_text q"
    if "v @ s = v' @ t @ suffix_text q" "fullmatch VERSION v'" "fullmatch rx_transition t" "suffix_shape s" for v' t s
    using dash_split [of v s v' "t @ suffix_text q"] VERSION_no_dash [OF assms(3)] VERSION_no_dash [OF that(2)]
      that shapes(1) by (auto simp: suffix_shape_def trans)
  show "accepts_tag (v @ suffix_text p) q \<longleftrightarrow> suffix_text q = suffix_text p"
  proof
    assume "accepts_tag (v @ suffix_text p) q"
    then obtain v' t where "v @ suffix_text p = v' @ t @ suffix_text q" "fullmatch VERSION v'" "fullmatch rx_transition t"
      by (auto simp: accepts_tag_iff)
    with split shapes(2) have "suffix_text p = t @ suffix_text q" "fullmatch rx_transition t" by blast+
    with no trans show "suffix_text q = suffix_text p" by (metis append_Nil)
  next
    assume "suffix_text q = suffix_text p"
    then show "accepts_tag (v @ suffix_text p) q"
      using assms(3) trans unfolding accepts_tag_iff by (metis append_Nil)
  qed
  show "accepts_tag (v @ ''-transition'' @ suffix_text p) q \<longleftrightarrow> suffix_text q = suffix_text p"
  proof
    assume "accepts_tag (v @ ''-transition'' @ suffix_text p) q"
    then obtain v' t where "v @ ''-transition'' @ suffix_text p = v' @ t @ suffix_text q" "fullmatch VERSION v'" "fullmatch rx_transition t"
      unfolding accepts_tag_iff by blast
    with split [of "''-transition'' @ suffix_text p"] have "''-transition'' @ suffix_text p = t @ suffix_text q" "fullmatch rx_transition t"
      by (auto simp: suffix_shape_def)
    with no trans show "suffix_text q = suffix_text p" by (metis append_Nil same_append_eq)
  next
    assume "suffix_text q = suffix_text p"
    then show "accepts_tag (v @ ''-transition'' @ suffix_text p) q"
      using assms(3) trans unfolding accepts_tag_iff by metis
  qed
qed

lemma find_cong_set: "(\<And>x. x \<in> set xs \<Longrightarrow> P x = Q x) \<Longrightarrow> find P xs = find Q xs"
  by (induction xs) auto

lemma str_find_none_first:
  "CHR ''-'' \<notin> set v \<Longrightarrow> str_find (CHR ''-'' # m) (v @ s) = map_option ((+) (length v)) (str_find (CHR ''-'' # m) s)"
proof (induction v)
  case Nil
  show ?case by (cases "str_find (CHR ''-'' # m) s") auto
next
  case (Cons c v)
  then have "\<not> startswith (c # v @ s) (CHR ''-'' # m)" by (auto simp: startswith_def)
  with Cons show ?case by (cases "str_find (CHR ''-'' # m) s") auto
qed

lemma str_find_no_dash: "CHR ''-'' \<notin> set s \<Longrightarrow> str_find (CHR ''-'' # m) s = None"
  using str_find_none_first [of s m "[]"] by simp

lemma SUFFIX_no_inner_dash: "fullmatch SUFFIX s \<Longrightarrow> s = [] \<or> (\<exists>r. s = CHR ''-'' # r \<and> CHR ''-'' \<notin> set r)"
  by (auto simp: SUFFIX_def fullmatch_opt fullmatch_Seq fullmatch_chr fullmatch_star_class list_all_iff
      is_lower_def is_digit_def) force

lemma str_find_suffix:
  assumes "fullmatch SUFFIX s" "\<not> startswith s ''-transition''"
  shows "str_find ''-transition'' s = None"
proof (cases "s = []")
  case False
  with SUFFIX_no_inner_dash [OF assms(1)] obtain r where r: "s = CHR ''-'' # r" "CHR ''-'' \<notin> set r" by auto
  with assms(2) show ?thesis by (simp add: str_find_no_dash)
qed simp

lemma load_suffix_SUFFIX: "load env = Inr ps \<Longrightarrow> p \<in> set ps \<Longrightarrow> fullmatch SUFFIX (suffix_text p)"
  using load_profiles mapM_member_rev load_item_suffix by meson

lemma for_tag_transition:
  assumes "load_suffixed env = Inr ps" "no_transition_suffix ps" "fullmatch VERSION v" "p \<in> set ps"
  shows "\<exists>q. for_tag env (v @ suffix_text p) = Inr q \<and> for_tag env (v @ ''-transition'' @ suffix_text p) = Inr q \<and>
    suffix_text q = suffix_text p"
proof -
  have ps: "load env = Inr ps" using load_suffixed_load [OF assms(1)] by simp
  note acc = accepts_tag_plain [OF ps assms(2,3) _ assms(4)]
  let ?same = "\<lambda>q. suffix_text q = suffix_text p"
  have "find (accepts_tag (v @ suffix_text p)) (longest_suffix_first ps) = find ?same (longest_suffix_first ps)"
    "find (accepts_tag (v @ ''-transition'' @ suffix_text p)) (longest_suffix_first ps) = find ?same (longest_suffix_first ps)"
    by (rule find_cong_set; simp add: acc del: append_Cons)+
  moreover obtain q where "find ?same (longest_suffix_first ps) = Some q"
    using assms(4) by (cases "find ?same (longest_suffix_first ps)") (auto simp: find_None_iff)
  moreover have "?same q" using calculation(3) by (auto simp: find_Some_iff)
  ultimately show ?thesis using assms(1) by (auto simp: for_tag_def)
qed

lemma workload_release_transition:
  assumes "load_suffixed env = Inr ps" "no_transition_suffix ps" "fullmatch VERSION v" "p \<in> set ps"
  shows "workload_release env (v @ suffix_text p) = Inr (v @ suffix_text p)"
    and "workload_release env (v @ ''-transition'' @ suffix_text p) = Inr (v @ suffix_text p)"
proof -
  have ps: "load env = Inr ps" using load_suffixed_load [OF assms(1)] by simp
  have s: "str_find ''-transition'' (suffix_text p) = None"
    using load_suffix_SUFFIX [OF ps assms(4)] assms(2,4)
    by (intro str_find_suffix) (auto simp: no_transition_suffix_def list_all_iff)
  note find = str_find_none_first [of v "''transition''"] VERSION_no_dash [OF assms(3)]
  from for_tag_transition [OF assms] obtain q where q: "for_tag env (v @ suffix_text p) = Inr q"
    "for_tag env (v @ ''-transition'' @ suffix_text p) = Inr q" by blast
  show "workload_release env (v @ suffix_text p) = Inr (v @ suffix_text p)"
    using q s find by (simp add: workload_release_def str_replace_first_def)
  show "workload_release env (v @ ''-transition'' @ suffix_text p) = Inr (v @ suffix_text p)"
    using q find by (simp add: workload_release_def str_replace_first_def startswith_def)
qed


section \<open>Layered values\<close>

text \<open>The value at a path of keys, and that a document says nothing at a path.\<close>

fun value_at :: "pyv \<Rightarrow> string list \<Rightarrow> pyv option" where
  "value_at v [] = Some v"
| "value_at (PDict d) (k # ks) = (case map_of d k of None \<Rightarrow> None | Some w \<Rightarrow> value_at w ks)"
| "value_at v (k # ks) = None"

fun silent_at :: "pyv \<Rightarrow> string list \<Rightarrow> bool" where
  "silent_at (PDict d) (k # ks) = (case map_of d k of None \<Rightarrow> True | Some w \<Rightarrow> silent_at w ks)"
| "silent_at v ks = False"

lemma map_of_merge:
  assumes "dict_ok layer"
  shows "map_of (dupdate base (map (\<lambda>(k, v). (k, f k v)) layer)) key =
    (case map_of layer key of None \<Rightarrow> map_of base key | Some v \<Rightarrow> Some (f key v))"
proof -
  let ?l = "map (\<lambda>(k, v). (k, f k v)) layer"
  have "dict_ok ?l" using assms by (simp add: dict_ok_def comp_def case_prod_beta)
  then have "map_of (rev ?l) key = map_of ?l key" by (simp add: map_of_rev_ok)
  moreover have "map_of ?l key = map_option (f key) (map_of layer key)"
    by (induction layer) auto
  ultimately show ?thesis by (simp add: map_of_dupdate split: option.splits)
qed

lemma wf_pyv_lookup: "wf_pyv (PDict d) \<Longrightarrow> map_of d k = Some v \<Longrightarrow> wf_pyv v"
  by (auto simp: list_all_iff dest!: map_of_SomeD)

lemma merge_values_non_dict: "\<not> is_dict base \<or> \<not> is_dict layer \<Longrightarrow> merge_values base layer = layer"
  by (cases "(base, layer)" rule: merge_values.cases) auto

lemma value_at_merge_set:
  "wf_pyv layer \<Longrightarrow> value_at layer ks = Some x \<Longrightarrow> \<not> is_dict x \<Longrightarrow> value_at (merge_values base layer) ks = Some x"
proof (induction layer ks arbitrary: base rule: value_at.induct)
  case (1 v)
  then show ?case by (simp add: merge_values_non_dict)
next
  case (2 d k ks)
  show ?case
  proof (cases base)
    case (PDict b)
    from "2.prems" obtain w where w: "map_of d k = Some w" "value_at w ks = Some x"
      by (auto split: option.splits)
    have "value_at (merge_values bk w) ks = Some x" for bk
      using "2.IH" [OF w(1)] w wf_pyv_lookup "2.prems" by blast
    with w "2.prems"(1) show ?thesis by (simp add: PDict map_of_merge split: option.splits)
  qed (use "2.prems" in \<open>auto simp: merge_values_non_dict\<close>)
qed auto

lemma silent_at_none: "silent_at v ks \<Longrightarrow> value_at v ks = None"
  by (induction v ks rule: silent_at.induct) (auto split: option.splits)

lemma value_at_merge_silent:
  "wf_pyv layer \<Longrightarrow> silent_at layer ks \<Longrightarrow> value_at (merge_values base layer) ks = value_at base ks"
proof (induction layer ks arbitrary: base rule: silent_at.induct)
  case (1 d k ks)
  show ?case
  proof (cases base)
    case (PDict b)
    show ?thesis
    proof (cases "map_of d k")
      case None
      then show ?thesis using "1.prems" by (simp add: PDict map_of_merge)
    next
      case (Some w)
      with "1.prems" have w: "wf_pyv w" "silent_at w ks" using wf_pyv_lookup by auto
      from silent_at_none [OF w(2)] Some "1.prems"(1) "1.IH" [OF Some w] show ?thesis
        by (simp add: PDict map_of_merge split: option.splits)
    qed
  qed (use "1.prems" silent_at_none [OF "1.prems"(2)] in \<open>auto simp: merge_values_non_dict\<close>)
qed auto

text \<open>The documents of the values files of a profile, an empty file counting as an empty map.\<close>

definition values_layer :: "repo_env \<Rightarrow> path \<Rightarrow> pyv res" where
  "values_layer env f = bnd (bnd (read_text env f) (yaml_load env)) (\<lambda>v. Inr (py_or v (PDict [])))"

lemma foldM_merge:
  "mapM (values_layer env) fs = Inr docs \<Longrightarrow>
     foldM (\<lambda>vs f. bnd (bnd (read_text env f) (yaml_load env)) (\<lambda>v.
       Inr (merge_values vs (py_or v (PDict []))))) acc fs = Inr (foldl merge_values acc docs)"
  by (induction fs arbitrary: acc docs) (auto simp: values_layer_def elim!: bndE)

lemma foldl_merge_silent:
  "list_all wf_pyv docs \<Longrightarrow> list_all (\<lambda>d. silent_at d ks) docs \<Longrightarrow>
     value_at (foldl merge_values acc docs) ks = value_at acc ks"
  by (induction docs arbitrary: acc) (auto simp: value_at_merge_silent)

text \<open>
  C8: in the layered Helm values the last layer that sets a value wins: if a layer has a value that is
  not a map at a path of keys and no later layer says anything at that path, \<open>read_values\<close> returns
  values that have exactly that value there.
\<close>

theorem read_values_last_layer:
  assumes "mapM (values_layer env) (values_files env p) = Inr (before @ layer # after)"
    and "list_all wf_pyv (layer # after)"
    and "value_at layer ks = Some x" "\<not> is_dict x" "list_all (\<lambda>d. silent_at d ks) after"
  shows "\<exists>vs. read_values env p = Inr vs \<and> value_at vs ks = Some x"
proof -
  have "read_values env p = Inr (foldl merge_values (PDict []) (before @ layer # after))"
    unfolding read_values_def by (rule foldM_merge [OF assms(1)])
  then show ?thesis
    using assms(2-) by (simp add: foldl_merge_silent value_at_merge_set)
qed

section \<open>Layered specification\<close>

definition spec_layer_doc :: "repo_env \<Rightarrow> path \<Rightarrow> pydict \<Rightarrow> bool" where
  "spec_layer_doc env f d \<longleftrightarrow> bnd (read_text env f) (yaml_load env) = Inr (PDict d)"

lemma read_spec_step_ok:
  "read_spec_step env spec f = Inr spec' \<longleftrightarrow> (\<exists>d. spec_layer_doc env f d \<and> spec' = dupdate spec d)"
  by (auto simp: read_spec_step_def spec_layer_doc_def try_except_reraise elim!: bndE split: pyv.splits)

lemma read_spec_docs:
  "foldM (read_spec_step env) acc fs = Inr spec \<Longrightarrow>
     \<exists>docs. list_all2 (spec_layer_doc env) fs docs \<and> spec = foldl dupdate acc docs"
proof (induction fs arbitrary: acc)
  case (Cons f fs)
  then obtain d where "spec_layer_doc env f d" "foldM (read_spec_step env) (dupdate acc d) fs = Inr spec"
    by (auto simp: read_spec_step_ok elim!: bndE)
  with Cons.IH show ?case by (metis foldl_Cons list_all2_Cons)
qed simp

text \<open>PyYAML returns Python dictionaries: no key twice.\<close>

definition yaml_dicts :: "repo_env \<Rightarrow> bool" where
  "yaml_dicts env \<longleftrightarrow> (\<forall>t d. yaml_load env t = Inr (PDict d) \<longrightarrow> dict_ok d)"

lemma key_value_doc:
  "spec_layer_doc env f d \<Longrightarrow>
     key_value env [k] f = Inr (case map_of d k of None \<Rightarrow> PNone | Some v \<Rightarrow> v)"
  by (cases d) (auto simp: spec_layer_doc_def key_value_def step_key_def py_or_def)

lemma owning_file_docs:
  assumes "list_all2 (spec_layer_doc env) fs docs" "list_all dict_ok docs"
    and "map_of (foldl dupdate [] docs) k = Some v" "v \<noteq> PNone"
  shows "\<exists>f \<in> set fs. findM (\<lambda>f. bnd (key_value env [k] f) (\<lambda>v. Inr (v \<noteq> PNone))) (rev fs) = Inr (Some f) \<and>
    key_value env [k] f = Inr v"
  using assms
proof (induction docs arbitrary: fs rule: rev_induct)
  case (snoc d docs)
  from snoc.prems(1) obtain gs g where fs: "fs = gs @ [g]"
    and gs: "list_all2 (spec_layer_doc env) gs docs" "spec_layer_doc env g d"
    by (auto simp: list_all2_append2 list_all2_Cons2)
  from snoc.prems have look: "(case map_of d k of None \<Rightarrow> map_of (foldl dupdate [] docs) k | Some w \<Rightarrow> Some w) = Some v"
    by (simp add: map_of_dupdate map_of_rev_ok)
  show ?case
  proof (cases "map_of d k")
    case None
    with snoc.IH [OF gs(1)] snoc.prems look show ?thesis by (auto simp: fs key_value_doc [OF gs(2)])
  next
    case (Some w)
    with look snoc.prems show ?thesis by (auto simp: fs key_value_doc [OF gs(2)])
  qed
qed simp

text \<open>
  C9: the specification and the owner lookup agree: when the layered specification has a value
  (not null) for a key, \<open>owning_file\<close> finds a layer file, and that file is where the value comes from.
\<close>

theorem read_spec_owner:
  assumes "yaml_dicts env" "read_spec env p = Inr spec" "map_of spec k = Some v" "v \<noteq> PNone"
  shows "\<exists>f \<in> set (spec_files env p). owning_file env (spec_files env p) [k] = Inr f \<and>
    spec_layer env p k = Inr (butlast f) \<and> key_value env [k] f = Inr v"
proof -
  from read_spec_docs assms(2) obtain docs
    where docs: "list_all2 (spec_layer_doc env) (spec_files env p) docs" "spec = foldl dupdate [] docs"
    unfolding read_spec_def by blast
  have ok: "list_all dict_ok docs"
    using docs(1) assms(1)
    by (induction rule: list_all2_induct) (auto simp: spec_layer_doc_def yaml_dicts_def elim!: bndE)
  from owning_file_docs [OF docs(1) ok] assms(3,4) docs(2) obtain f where "f \<in> set (spec_files env p)"
    "findM (\<lambda>f. bnd (key_value env [k] f) (\<lambda>v. Inr (v \<noteq> PNone))) (rev (spec_files env p)) = Inr (Some f)"
    "key_value env [k] f = Inr v" by blast
  then show ?thesis by (auto simp: owning_file_def spec_layer_def)
qed

section \<open>Loaded profiles\<close>

lemma load_item_layers:
  assumes "load_item env item = Inr p"
  shows "layers p \<noteq> [] \<and> (\<forall>l \<in> set (layers p). under (repo_root env @ [''release'']) l \<and> dir_exists env l)"
proof -
  from assms obtain xs where xs: "xs \<noteq> []" "mapM (resolve_layer env) xs = Inr (layers p)"
    and l: "\<not> list_ex (\<lambda>l. \<not> under (repo_root env @ [''release'']) l \<or> \<not> dir_exists env l) (layers p)"
    by (auto simp: load_item_def res_simps elim!: bndE split: pyv.splits)
  from mapM_length [OF xs(2)] xs(1) l show ?thesis by (auto simp: list_ex_iff)
qed

lemma distinct_values_strs:
  assumes "distinct_values vs = Inr True" "list_all is_str vs"
  shows "distinct (map py_str vs)"
proof -
  from assms(2) have vs: "vs = map PStr (map py_str vs)"
    by (induction vs) (auto simp: is_str_iff)
  have "length (dedup vs) = length vs"
    using assms(1) by (auto simp: distinct_values_def py_set_def elim!: bndE split: if_splits)
  then show ?thesis using dedup_full_distinct_strs [of "map py_str vs"] vs by simp
qed

lemma distinct_remdups_length: "length (remdups xs) = length xs \<Longrightarrow> distinct xs"
  by (metis card_distinct length_remdups_card_conv)

text \<open>
  Loaded profiles are usable: there is at least one, their directories differ, their tag suffixes
  differ, and every layer of every profile is an existing directory inside \<open>release/\<close>.
\<close>

theorem load_valid:
  assumes "load_suffixed env = Inr ps"
  shows "ps \<noteq> [] \<and> distinct (map directory ps) \<and> distinct (map suffix_text ps) \<and>
    (\<forall>p \<in> set ps. layers p \<noteq> [] \<and> (\<forall>l \<in> set (layers p). under (repo_root env @ [''release'']) l \<and> dir_exists env l))"
proof -
  from load_suffixed_load [OF assms] have ps: "load env = Inr ps" "list_all is_str (map tag_suffix ps)"
    by (auto simp: list_all_iff)
  from ps(1) have d: "distinct_values (map tag_suffix ps) = Inr True" "ps \<noteq> []"
    "length (remdups (map directory ps)) = length (map directory ps)"
    by (auto simp: load_def unique_or_raise_def res_simps elim!: bndE)
  have "distinct (map suffix_text ps)"
    using distinct_values_strs [OF d(1) ps(2)] by (simp add: suffix_text_def [abs_def] comp_def)
  moreover have "layers p \<noteq> [] \<and> (\<forall>l \<in> set (layers p). under (repo_root env @ [''release'']) l \<and> dir_exists env l)"
    if "p \<in> set ps" for p
    using load_profiles [OF ps(1)] mapM_member_rev that load_item_layers by meson
  ultimately show ?thesis using d(2) distinct_remdups_length [OF d(3)] by blast
qed

section \<open>A concrete checkout\<close>

definition example_profile_item :: "string \<Rightarrow> string \<Rightarrow> pyv" where
  "example_profile_item n s = PDict [(''name'', PStr n), (''tagSuffix'', PStr s), (''environment'', PStr n),
     (''signingEnvironment'', PStr n), (''layers'', PList [PStr ''release'', PStr (''release/'' @ n)])]"

definition example_profiles_doc :: pyv where
  "example_profiles_doc = PDict [(''schema'', PStr PROFILE_SCHEMA),
     (''profiles'', PList [example_profile_item ''prod'' [], example_profile_item ''staging'' ''-staging''])]"

definition example_env :: repo_env where
  "example_env =
     \<lparr>repo_root = [''repo''],
      file_bytes = map_of
        [([''repo'', ''release'', ''profiles.json''], dumps json_default example_profiles_doc),
         ([''repo'', ''release'', ''spec.yaml''], ''base spec''),
         ([''repo'', ''release'', ''staging'', ''spec.yaml''], ''staging spec''),
         ([''repo'', ''release'', ''values.yaml''], ''base values''),
         ([''repo'', ''release'', ''staging'', ''values.yaml''], ''staging values'')],
      dir_exists = (\<lambda>_. True), realpath = (\<lambda>p. p),
      yaml_load = (\<lambda>t. Inr (
        if t = ''base spec'' then PDict [(''c8s'', PStr ''v1''), (''chart'', PStr ''1.0'')]
        else if t = ''staging spec'' then PDict [(''c8s'', PStr ''v2'')]
        else if t = ''base values'' then PDict [(''router'', PDict [(''replicas'', PInt 1), (''port'', PInt 80)])]
        else PDict [(''router'', PDict [(''replicas'', PInt 3)])]))\<rparr>"

definition example_profile :: "string \<Rightarrow> string \<Rightarrow> profile" where
  "example_profile n s = \<lparr>prof_name = PStr n, tag_suffix = PStr s, environment = PStr n,
     signing_environment = PStr n, layers = [[''repo'', ''release''], [''repo'', ''release'', n]]\<rparr>"

lemma example_doc_read: "bnd (decode_utf8 (dumps json_default example_profiles_doc)) loads = Inr example_profiles_doc"
  by (subst read_dumps) (simp_all add: example_profiles_doc_def example_profile_item_def PROFILE_SCHEMA_def
      dict_ok_def json_default_def opts_ok_def is_jws_def)

lemma example_items:
  "load_item example_env (example_profile_item ''prod'' []) = Inr (example_profile ''prod'' [])"
  "load_item example_env (example_profile_item ''staging'' ''-staging'') = Inr (example_profile ''staging'' ''-staging'')"
  by (simp_all add: load_item_def example_profile_item_def profile_fields_def same_keys_def dkeys_def NAME_def SUFFIX_def
      rx_eval is_lower_def is_digit_def resolve_layer_def join_path_def path_is_absolute_def path_parts_def
      startswith_def example_env_def under_def example_profile_def)

lemma example_load: "load example_env = Inr [example_profile ''prod'' [], example_profile ''staging'' ''-staging'']"
proof -
  have "bnd (read_text example_env (PROFILES example_env)) loads = Inr example_profiles_doc"
    using example_doc_read by (simp add: read_text_def read_bytes_def PROFILES_def example_env_def)
  then show ?thesis
    unfolding load_def
    by (simp add: example_profiles_doc_def)
      (simp add: example_items example_profile_def distinct_values_def py_set_def unique_or_raise_def directory_def)
qed

lemma example_load_suffixed:
  "load_suffixed example_env = Inr [example_profile ''prod'' [], example_profile ''staging'' ''-staging'']"
  by (simp add: load_suffixed_def example_load) (simp add: example_profile_def)

lemma example_version: "fullmatch VERSION ''v1.2.3''"
  by (simp add: VERSION_def rx_numeric_def rx_eval is_digit_def)

theorem tag_pattern_for_tag_witness:
  "\<exists>pattern. tag_pattern example_env = Inr pattern \<and>
     (fullmatch pattern ''v1.2.3-staging'' \<longleftrightarrow> (\<exists>p. for_tag example_env ''v1.2.3-staging'' = Inr p)) \<and>
     (\<forall>p. for_tag example_env ''v1.2.3-staging'' = Inr p \<longrightarrow>
       (\<exists>ps. load example_env = Inr ps \<and> p \<in> set ps \<and> accepts_tag ''v1.2.3-staging'' p \<and>
         (\<forall>q \<in> set ps. accepts_tag ''v1.2.3-staging'' q \<longrightarrow> length (suffix_text q) \<le> length (suffix_text p))))"
proof -
  obtain pattern where "tag_pattern example_env = Inr pattern"
    by (simp add: tag_pattern_def example_load_suffixed)
  then show ?thesis using tag_pattern_for_tag [of example_env pattern "''v1.2.3-staging''"] by blast
qed


theorem load_valid_witness:
  "load_suffixed example_env = Inr [example_profile ''prod'' [], example_profile ''staging'' ''-staging''] \<and>
   distinct (map suffix_text [example_profile ''prod'' [], example_profile ''staging'' ''-staging''])"
  using load_valid [OF example_load_suffixed] example_load_suffixed by blast

lemma example_values_layers:
  "mapM (values_layer example_env) (values_files example_env (example_profile ''staging'' ''-staging'')) =
     Inr ([] @ PDict [(''router'', PDict [(''replicas'', PInt 1), (''port'', PInt 80)])] #
       [PDict [(''router'', PDict [(''replicas'', PInt 3)])]])"
  by (simp add: values_files_def is_file_def example_env_def example_profile_def values_layer_def read_text_def
      read_bytes_def decode_utf8_ascii py_or_def)

theorem read_values_last_layer_witness:
  "\<exists>vs. read_values example_env (example_profile ''staging'' ''-staging'') = Inr vs \<and>
     value_at vs [''router'', ''port''] = Some (PInt 80)"
  using read_values_last_layer [OF example_values_layers, of "[''router'', ''port'']" "PInt 80"]
  by (simp add: dict_ok_def)

theorem read_spec_owner_witness:
  "\<exists>spec. read_spec example_env (example_profile ''staging'' ''-staging'') = Inr spec \<and>
     map_of spec ''c8s'' = Some (PStr ''v2'') \<and>
     (\<exists>f \<in> set (spec_files example_env (example_profile ''staging'' ''-staging'')).
        spec_layer example_env (example_profile ''staging'' ''-staging'') ''c8s'' = Inr (butlast f))"
proof -
  let ?p = "example_profile ''staging'' ''-staging''"
  have "read_spec example_env ?p = Inr [(''c8s'', PStr ''v2''), (''chart'', PStr ''1.0'')]"
    by (simp add: read_spec_def read_spec_step_def spec_files_def is_file_def example_env_def example_profile_def
        read_text_def read_bytes_def decode_utf8_ascii dupdate_def)
  moreover have "yaml_dicts example_env"
    by (auto simp: yaml_dicts_def example_env_def dict_ok_def split: if_splits)
  ultimately show ?thesis
    using read_spec_owner [of example_env ?p "[(''c8s'', PStr ''v2''), (''chart'', PStr ''1.0'')]" "''c8s''" "PStr ''v2''"]
    by auto
qed

end
