(* ===== verification/C8s_Release.thy ===== *)
theory C8s_Release
  imports Release_Profiles Sha256
begin

text \<open>
  \<open>scripts/c8s_release.py\<close>: the channels of c8s release tags, the check of a tag and of its signed
  release statement, and the allowlist seed that the statement lists.

  The GitHub and Cosign command lines are arguments: \<open>gh_api\<close> answers \<open>gh api\<close>, \<open>gh_download\<close>
  gives the files that \<open>gh release download\<close> writes, and \<open>cosign_blob\<close> answers \<open>cosign verify-blob\<close>
  for the bytes of a bundle and a statement, an identity and an issuer.
\<close>

section \<open>Tags\<close>

record completed =
  returncode :: int
  stdout :: string
  stderr :: string

definition rx_positive :: rx where
  "rx_positive = RSeq (RChr (\<lambda>c. is_digit c \<and> c \<noteq> CHR ''0'')) (RStar (RChr is_digit))"

definition c8s_TAG :: rx where
  "c8s_TAG = rx_seqs [rx_lit ''v'', rx_numeric, rx_lit ''.'', rx_numeric, rx_lit ''.'', rx_numeric,
     rx_opt (RSeq (rx_lit ''-beta.'') rx_positive)]"

text \<open>The groups of a match: no number holds a dot or a letter.\<close>

definition tag_numbers :: "string \<Rightarrow> nat list \<times> string" where
  "tag_numbers tag =
     (case str_partition ''-beta.'' (drop 1 tag) of
        (numbers, _, beta) \<Rightarrow> (map nat_of_digits (split_char (CHR ''.'') numbers), beta))"

definition c8s_version :: "string \<Rightarrow> nat list res" where
  "c8s_version tag =
     (if fullmatch c8s_TAG tag
      then (case tag_numbers tag of
              (numbers, beta) \<Rightarrow>
                Inr (numbers @ (if beta \<noteq> [] then [0, nat_of_digits beta] else [1, 0])))
      else Inl (Exn ValueError (''invalid C8s release tag: '' @ tag)))"

definition channel :: "string \<Rightarrow> bool \<Rightarrow> string res" where
  "channel tag allow_beta =
     bnd (c8s_version tag) (\<lambda>_.
       if contains ''-beta.'' tag
       then bnd (raise_if (\<not> allow_beta) (Exn ValueError ''C8s beta requires explicit opt-in'')) (\<lambda>_. Inr ''beta'')
       else Inr ''main'')"

definition signer :: "string \<Rightarrow> bool \<Rightarrow> string res" where
  "signer tag allow_beta =
     bnd (channel tag allow_beta) (\<lambda>branch.
       Inr (''https://github.com/confidential-dot-ai/C8s/.github/workflows/semver-tag.yml@refs/heads/'' @ branch))"

section \<open>The signed statement\<close>

definition C8S_REPOSITORY :: string where
  "C8S_REPOSITORY = ''confidential-dot-ai/c8s''"

definition C8S_SIGNED_REPOSITORY :: string where
  "C8S_SIGNED_REPOSITORY = ''confidential-dot-ai/C8s''"

definition C8S_STATEMENT :: string where
  "C8S_STATEMENT = ''release-statement.json''"

definition C8S_BUNDLE :: string where
  "C8S_BUNDLE = ''release-statement.sigstore.json''"

definition C8S_SIGNER_ISSUER :: string where
  "C8S_SIGNER_ISSUER = ''https://token.actions.githubusercontent.com''"

record release_tools =
  gh_api :: "string \<Rightarrow> completed res"
  gh_download :: "string \<Rightarrow> string list \<Rightarrow> (completed \<times> (string \<Rightarrow> string option)) res"
  cosign_found :: bool
  cosign_blob :: "string option \<Rightarrow> string \<Rightarrow> string \<Rightarrow> string option \<Rightarrow> completed res"

abbreviation release_error :: "string \<Rightarrow> exn" where
  "release_error m \<equiv> Exn ReleaseError m"

definition statement_fields :: "string list" where
  "statement_fields = [''repository'', ''tag'', ''commit'', ''allowlistSeeds'']"

definition statement_names :: "string \<Rightarrow> pyv \<Rightarrow> bool" where
  "statement_names tag statement =
     (case statement of
        PDict d \<Rightarrow>
          sub_keys (dkeys d) statement_fields \<and>
          map_of d ''repository'' = Some (PStr C8S_SIGNED_REPOSITORY) \<and> map_of d ''tag'' = Some (PStr tag) \<and>
          (case map_of d ''commit'' of Some (PStr _) \<Rightarrow> True | _ \<Rightarrow> False)
      | _ \<Rightarrow> False)"

definition read_statement :: "string \<Rightarrow> string option \<Rightarrow> pyv res" where
  "read_statement tag content =
     try_except (case content of
         None \<Rightarrow> Inl (Exn FileNotFoundError [])
       | Some b \<Rightarrow> bnd (decode_utf8 b) loads)
       [OSError, ValueError]
       (\<lambda>e. Inl (release_error (''the c8s '' @ tag @ '' release statement is not JSON: '' @ msg e)))"

text \<open>The result is the statement together with the downloaded files.\<close>

definition signed_statement ::
  "release_tools \<Rightarrow> string \<Rightarrow> bool \<Rightarrow> string list \<Rightarrow> (pyv \<times> (string \<Rightarrow> string option)) res" where
  "signed_statement t tag allow_beta assets =
     bnd (raise_if (\<not> cosign_found t)
            (release_error (''the c8s '' @ tag @ '' release is signed, but cosign is not installed''))) (\<lambda>_.
     bnd (gh_download t tag ([C8S_STATEMENT, C8S_BUNDLE] @ assets)) (\<lambda>(download, files).
     bnd (raise_if (returncode download \<noteq> 0)
            (release_error (''cannot download the c8s '' @ tag @ '' release statement: '' @ str_strip (stderr download)))) (\<lambda>_.
     bnd (signer tag allow_beta) (\<lambda>identity.
     bnd (cosign_blob t (files C8S_BUNDLE) identity C8S_SIGNER_ISSUER (files C8S_STATEMENT)) (\<lambda>checked.
     bnd (raise_if (returncode checked \<noteq> 0)
            (release_error (''the c8s '' @ tag @ '' release signature does not verify: '' @ str_strip (stderr checked)))) (\<lambda>_.
     bnd (read_statement tag (files C8S_STATEMENT)) (\<lambda>statement.
     bnd (raise_if (\<not> statement_names tag statement)
            (release_error (''the signed c8s '' @ tag @ '' statement '' @ py_str statement @ '' does not name '' @
               C8S_SIGNED_REPOSITORY @ '' '' @ tag))) (\<lambda>_.
       Inr (statement, files)))))))))"

section \<open>Checking a tag\<close>

definition api :: "release_tools \<Rightarrow> string \<Rightarrow> pyv res" where
  "api t p =
     bnd (gh_api t (''repos/'' @ C8S_REPOSITORY @ ''/'' @ p)) (\<lambda>result.
     bnd (raise_if (returncode result \<noteq> 0)
            (release_error (''gh api '' @ p @ '' failed: '' @ str_strip (stderr result)))) (\<lambda>_.
       loads (stdout result)))"

text \<open>The commit of a tag, through the tag object of an annotated tag.\<close>

definition tag_commit :: "release_tools \<Rightarrow> string \<Rightarrow> (pyv \<times> pyv) res" where
  "tag_commit t tag =
     bnd (bnd (api t (''git/ref/tags/'' @ tag)) (\<lambda>r. jidx r ''object'')) (\<lambda>reference.
     bnd (jidx reference ''type'') (\<lambda>kind.
     bnd (if kind = PStr ''tag''
          then bnd (jidx reference ''sha'') (\<lambda>sha. api t (''git/tags/'' @ py_str sha)) else Inr PNone) (\<lambda>tag_object.
     bnd (if truthy tag_object then bnd (jidx tag_object ''object'') (\<lambda>object. jidx object ''sha'')
          else jidx reference ''sha'') (\<lambda>commit.
       Inr (commit, tag_object)))))"

definition status_in :: "pyv \<Rightarrow> bool res" where
  "status_in comparison = bnd (jget comparison ''status'') (\<lambda>s. in_strs s [''ahead'', ''identical''])"

definition check_commit_on :: "release_tools \<Rightarrow> string \<Rightarrow> string \<Rightarrow> pyv \<Rightarrow> unit res" where
  "check_commit_on t tag branch commit =
     bnd (bnd (bnd (api t (''commits/'' @ py_str commit)) (\<lambda>c. jidx c ''commit'')) (\<lambda>c. jidx c ''verification'')) (\<lambda>verification.
     bnd (jget verification ''verified'') (\<lambda>verified.
     bnd (if truthy verified then Inr ()
          else bnd (jget verification ''reason'') (\<lambda>reason.
            Inl (release_error (''c8s '' @ tag @ '' commit '' @ py_str commit @ '' has no verified signature: '' @ py_str reason)))) (\<lambda>_.
     bnd (bnd (api t (''compare/'' @ py_str commit @ ''...'' @ branch)) status_in) (\<lambda>on_branch.
     bnd (raise_if (\<not> on_branch)
            (release_error (''c8s '' @ tag @ '' commit '' @ py_str commit @ '' is not on c8s '' @ branch))) (\<lambda>_.
       if branch = ''beta''
       then raise_ifM (bnd (api t (''compare/'' @ py_str commit @ ''...main'')) status_in)
              (release_error ''a beta tag must name a commit on beta and not on main'')
       else Inr ())))))"

definition tag_signature :: "pyv \<Rightarrow> pyv res" where
  "tag_signature tag_object =
     bnd (jgetd (py_or tag_object (PDict [])) ''verification'' (PDict [])) (\<lambda>v.
       jgetd v ''reason'' (PStr ''lightweight''))"

definition beta_needs_assets :: exn where
  "beta_needs_assets = release_error ''a beta requires a signed prerelease with both statement assets''"

text \<open>The statement assets of a release, in a fixed order.\<close>

definition statement_assets :: "pyv \<Rightarrow> string list res" where
  "statement_assets release_data =
     bnd (jgetd release_data ''assets'' (PList [])) (\<lambda>assets.
     bnd (bnd (jiter assets) (mapM (\<lambda>asset. jidx asset ''name''))) (\<lambda>names.
     bnd (py_set names) (\<lambda>names.
       Inr (filter (\<lambda>n. PStr n \<in> set names) [C8S_STATEMENT, C8S_BUNDLE]))))"

definition verify_assets :: "release_tools \<Rightarrow> string \<Rightarrow> bool \<Rightarrow> string \<Rightarrow> pyv \<Rightarrow> string \<Rightarrow> string res" where
  "verify_assets t tag allow_beta branch commit content =
     bnd (loads content) (\<lambda>release_data.
     bnd (if branch = ''beta''
          then bnd (jget release_data ''prerelease'') (\<lambda>p.
            raise_if (p \<noteq> PBool True) (release_error ''a beta release must be marked prerelease''))
          else Inr ()) (\<lambda>_.
     bnd (statement_assets release_data) (\<lambda>present.
       if present = []
       then bnd (raise_if (branch = ''beta'') beta_needs_assets) (\<lambda>_. Inr ''absent'')
       else bnd (raise_if (length present \<noteq> 2)
                  (release_error (''the c8s '' @ tag @ '' release has '' @ py_str (PList (map PStr present)) @
                     '' but needs both '' @ C8S_STATEMENT @ '' and '' @ C8S_BUNDLE))) (\<lambda>_.
            bnd (signed_statement t tag allow_beta []) (\<lambda>(statement, _).
            bnd (jidx statement ''commit'') (\<lambda>named.
            bnd (raise_if (\<not> py_eq named commit)
                   (release_error (''the signed c8s '' @ tag @ '' statement does not name commit '' @ py_str commit))) (\<lambda>_.
              Inr ''verified'')))))))"

definition release_signature :: "release_tools \<Rightarrow> string \<Rightarrow> bool \<Rightarrow> string \<Rightarrow> pyv \<Rightarrow> string res" where
  "release_signature t tag allow_beta branch commit =
     bnd (gh_api t (''repos/'' @ C8S_REPOSITORY @ ''/releases/tags/'' @ tag)) (\<lambda>release.
       if returncode release \<noteq> 0 \<and> contains ''HTTP 404'' (stderr release)
       then bnd (raise_if (branch = ''beta'') beta_needs_assets) (\<lambda>_. Inr ''absent'')
       else bnd (raise_if (returncode release \<noteq> 0)
                  (release_error (''cannot read the c8s '' @ tag @ '' release: '' @ str_strip (stderr release)))) (\<lambda>_.
            verify_assets t tag allow_beta branch commit (stdout release)))"

definition verify_c8s_tag :: "release_tools \<Rightarrow> string \<Rightarrow> bool \<Rightarrow> pydict res" where
  "verify_c8s_tag t tag allow_beta =
     bnd (try_except (channel tag allow_beta) [ValueError] (\<lambda>e. Inl (release_error (msg e)))) (\<lambda>branch.
     bnd (tag_commit t tag) (\<lambda>(commit, tag_object).
     bnd (check_commit_on t tag branch commit) (\<lambda>_.
     bnd (tag_signature tag_object) (\<lambda>tag_signature.
     bnd (release_signature t tag allow_beta branch commit) (\<lambda>signature.
       Inr [(''tag'', PStr tag), (''commit'', commit), (''commitSignature'', PStr ''verified''),
            (''onMain'', PBool (branch = ''main'')), (''branch'', PStr branch),
            (''tagSignature'', tag_signature), (''releaseSignature'', PStr signature)])))))"

section \<open>The seed\<close>

definition seed_asset :: "string \<Rightarrow> string" where
  "seed_asset platform = ''allowlist-seed-'' @ platform @ ''.json''"

definition allowlist_seed :: "release_tools \<Rightarrow> string \<Rightarrow> pyv \<Rightarrow> string \<Rightarrow> pyv res" where
  "allowlist_seed t tag commit platform =
     bnd (signed_statement t tag (contains ''-beta.'' tag) [seed_asset platform]) (\<lambda>(statement, files).
     bnd (case files (seed_asset platform) of
            None \<Rightarrow> Inl (Exn FileNotFoundError []) | Some b \<Rightarrow> Inr b) (\<lambda>data.
     bnd (jidx statement ''commit'') (\<lambda>named.
     bnd (raise_if (\<not> py_eq named commit)
            (release_error (''the signed c8s '' @ tag @ '' statement does not name commit '' @ py_str commit))) (\<lambda>_.
     bnd (bnd (jgetd statement ''allowlistSeeds'' (PDict [])) (\<lambda>seeds. jget seeds platform)) (\<lambda>listed.
     bnd (raise_if (\<not> py_eq listed (PDict [(''asset'', PStr (seed_asset platform)), (''sha256'', PStr (sha256_hex data))]))
            (release_error (''the c8s '' @ tag @ '' '' @ seed_asset platform @
               '' is not the seed the signed release statement lists: '' @ py_str listed))) (\<lambda>_.
       loads_bytes data))))))"

section \<open>Versions\<close>

lemma nat_of_digits_snoc: "nat_of_digits (s @ [c]) = 10 * nat_of_digits s + (code c - 48)"
  by (simp add: nat_of_digits_def)

lemma char_of_48: "char_of (48 :: nat) = CHR ''0''"
  by (rule char_of_eq_iff [THEN iffD2]) simp

lemma nat_of_digits_pos: "list_all is_digit s \<Longrightarrow> s \<noteq> [] \<Longrightarrow> hd s \<noteq> CHR ''0'' \<Longrightarrow> 0 < nat_of_digits s"
proof (induction s rule: rev_induct)
  case (snoc c s)
  show ?case
  proof (cases "s = []")
    case True
    have "code c \<noteq> 48"
    proof
      assume "code c = 48"
      then have "c = char_of (48 :: nat)" by (metis char_of_char)
      then show False using snoc.prems(3) True char_of_48 by simp
    qed
    then show ?thesis using snoc.prems True by (auto simp: nat_of_digits_def is_digit_def)
  next
    case False
    then show ?thesis using snoc by (simp add: nat_of_digits_snoc)
  qed
qed simp

lemma digit_char: "is_digit c \<Longrightarrow> char_of (48 + (code c - 48)) = c \<and> code c - 48 < 10"
  by (auto simp: is_digit_def)

lemma str_of_nat_of_digits:
  assumes "list_all is_digit s" "s \<noteq> []" "hd s \<noteq> CHR ''0'' \<or> length s = 1"
  shows "str_of_nat (nat_of_digits s) = s"
  using assms
proof (induction s rule: rev_induct)
  case (snoc c s)
  have d: "char_of (48 + (code c - 48)) = c" "code c - 48 < 10" using snoc.prems(1) digit_char by auto
  show ?case
  proof (cases "s = []")
    case True
    then show ?thesis using d by (subst str_of_nat.simps) (simp add: nat_of_digits_def)
  next
    case False
    then have h: "hd s \<noteq> CHR ''0''" using snoc.prems(3) by auto
    have s: "str_of_nat (nat_of_digits s) = s" using snoc False h by simp
    have "0 < nat_of_digits s" using nat_of_digits_pos snoc.prems(1) False h by simp
    then show ?thesis using d s by (subst str_of_nat.simps) (simp add: nat_of_digits_snoc)
  qed
qed simp

lemma str_of_nat_hd_digit: "is_digit (hd (str_of_nat n))"
  using str_of_nat_digits [of n] by (cases "str_of_nat n") auto

lemma fullmatch_positive: "fullmatch rx_positive s \<longleftrightarrow> (\<exists>n > 0. s = str_of_nat n)"
proof -
  have "fullmatch rx_positive s \<longleftrightarrow> s \<noteq> [] \<and> hd s \<noteq> CHR ''0'' \<and> list_all is_digit s"
  proof (cases s)
    case (Cons x xs)
    then show ?thesis unfolding rx_positive_def fullmatch_Seq fullmatch_chr fullmatch_star_class
      by (auto intro: exI [of _ "[x]"])
  qed (simp add: rx_positive_def fullmatch_Seq fullmatch_chr)
  also have "\<dots> \<longleftrightarrow> (\<exists>n > 0. s = str_of_nat n)"
    using str_of_nat_of_digits [of s] nat_of_digits_pos [of s] str_of_nat_digits hd_str_of_nat
    by (metis less_numeral_extra(3) neq0_conv str_of_nat_nonempty)
  finally show ?thesis .
qed

lemma fullmatch_numeric_iff: "fullmatch rx_numeric s \<longleftrightarrow> (\<exists>n. s = str_of_nat n)"
proof -
  have "fullmatch rx_numeric s \<longleftrightarrow> s = str_of_nat 0 \<or> fullmatch rx_positive s"
    by (simp add: rx_numeric_def rx_positive_def fullmatch_Alt str_of_nat.simps [of 0] char_of_48)
  then show ?thesis unfolding fullmatch_positive by (metis neq0_conv)
qed

definition version_tag :: "nat \<Rightarrow> nat \<Rightarrow> nat \<Rightarrow> nat option \<Rightarrow> string" where
  "version_tag a b c beta = ''v'' @ str_of_nat a @ ''.'' @ str_of_nat b @ ''.'' @ str_of_nat c @
     (case beta of None \<Rightarrow> [] | Some k \<Rightarrow> ''-beta.'' @ str_of_nat k)"

lemma fullmatch_Seq_lit: "fullmatch (RSeq (rx_lit p) r) s \<longleftrightarrow> (\<exists>t. s = p @ t \<and> fullmatch r t)"
  by (simp add: fullmatch_Seq)

lemma fullmatch_Seq_numeric:
  "fullmatch (RSeq rx_numeric r) s \<longleftrightarrow> (\<exists>n t. s = str_of_nat n @ t \<and> fullmatch r t)"
  by (auto simp: fullmatch_Seq fullmatch_numeric_iff)

lemma fullmatch_SeqI: "fullmatch r u \<Longrightarrow> fullmatch t v \<Longrightarrow> fullmatch (RSeq r t) (u @ v)"
  by (auto simp: fullmatch_Seq)

lemma fullmatch_TAG:
  "fullmatch c8s_TAG tag \<longleftrightarrow> (\<exists>a b c beta. tag = version_tag a b c beta \<and> beta \<noteq> Some 0)"
proof
  assume "fullmatch c8s_TAG tag"
  then obtain a b c r where tag: "tag = ''v'' @ str_of_nat a @ ''.'' @ str_of_nat b @ ''.'' @ str_of_nat c @ r"
    and r: "fullmatch (rx_opt (RSeq (rx_lit ''-beta.'') rx_positive)) r"
    by (auto simp: c8s_TAG_def fullmatch_Seq_lit fullmatch_Seq_numeric)
  from r have "r = [] \<or> (\<exists>k > 0. r = ''-beta.'' @ str_of_nat k)"
    by (auto simp: fullmatch_opt fullmatch_Seq_lit fullmatch_positive)
  then show "\<exists>a b c beta. tag = version_tag a b c beta \<and> beta \<noteq> Some 0"
  proof (elim disjE exE conjE)
    assume "r = []"
    then have "tag = version_tag a b c None" using tag by (simp add: version_tag_def)
    then show ?thesis by blast
  next
    fix k assume "r = ''-beta.'' @ str_of_nat k" "0 < k"
    then have "tag = version_tag a b c (Some k) \<and> Some k \<noteq> Some 0" using tag by (simp add: version_tag_def)
    then show ?thesis by blast
  qed
next
  assume "\<exists>a b c beta. tag = version_tag a b c beta \<and> beta \<noteq> Some 0"
  then show "fullmatch c8s_TAG tag"
    unfolding c8s_TAG_def version_tag_def rx_seqs.simps
    by (elim exE conjE, hypsubst, intro fullmatch_SeqI)
      (auto simp: fullmatch_numeric_iff fullmatch_opt fullmatch_positive fullmatch_Seq_lit split: option.splits)
qed

lemma split_char_none: "c \<notin> set a \<Longrightarrow> split_char c a = [a]"
  by (induction a) auto

lemma split_char_cons: "c \<notin> set a \<Longrightarrow> split_char c (a @ c # b) = a # split_char c b"
  by (induction a) auto

lemma str_find_skip: "x \<notin> set a \<Longrightarrow> str_find (x # p) (a @ b) = map_option (\<lambda>i. length a + i) (str_find (x # p) b)"
proof (induction a)
  case Nil
  show ?case by (cases "str_find (x # p) b") simp_all
next
  case (Cons y a)
  then have "\<not> startswith (y # a @ b) (x # p)" by (auto simp: startswith_def)
  then show ?case using Cons by (cases "str_find (x # p) b") simp_all
qed

lemma str_partition_first: "x \<notin> set a \<Longrightarrow> str_partition (x # p) (a @ (x # p) @ b) = (a, x # p, b)"
  using str_find_skip [of x a p "(x # p) @ b"] by (simp add: str_partition_def startswith_def)

lemma str_partition_none: "x \<notin> set s \<Longrightarrow> str_partition (x # p) s = (s, [], [])"
  using str_find_skip [of x s p "[]"] by (simp add: str_partition_def)

lemma not_digit_str_of_nat: "\<not> is_digit c \<Longrightarrow> c \<notin> set (str_of_nat n)"
  using str_of_nat_digits [of n] by (auto simp: list_all_iff)

lemma tag_numbers_version_tag:
  "tag_numbers (version_tag a b c beta) = ([a, b, c], case beta of None \<Rightarrow> [] | Some k \<Rightarrow> str_of_nat k)"
proof -
  let ?n = "str_of_nat a @ ''.'' @ str_of_nat b @ ''.'' @ str_of_nat c"
  have dot: "CHR ''.'' \<notin> set (str_of_nat n)" "CHR ''-'' \<notin> set (str_of_nat n)" for n
    by (rule not_digit_str_of_nat; simp add: is_digit_def)+
  have "str_partition ''-beta.'' (?n @ (case beta of None \<Rightarrow> [] | Some k \<Rightarrow> ''-beta.'' @ str_of_nat k)) =
      (?n, if beta = None then [] else ''-beta.'', case beta of None \<Rightarrow> [] | Some k \<Rightarrow> str_of_nat k)"
  proof (cases beta)
    case None
    then show ?thesis using str_partition_none [of "CHR ''-''" ?n "''beta.''"] dot by simp
  next
    case (Some k)
    then show ?thesis using str_partition_first [of "CHR ''-''" ?n "''beta.''" "str_of_nat k"] dot by simp
  qed
  moreover have "map nat_of_digits (split_char (CHR ''.'') ?n) = [a, b, c]"
    using dot split_char_none by (simp add: split_char_cons)
  ultimately show ?thesis by (simp add: tag_numbers_def version_tag_def)
qed

text \<open>
  C27: Tags and versions correspond one to one.  A tag has a version exactly when it is the printed form of
  three numbers without leading zeros and, for a beta, a positive number; the version is those numbers.
  So printing a version and reading it back gives the version, and two tags with one version are equal.
\<close>

theorem c8s_version_roundtrip:
  "c8s_version tag = Inr v \<longleftrightarrow>
     (\<exists>a b c beta. tag = version_tag a b c beta \<and> beta \<noteq> Some 0 \<and>
        v = [a, b, c] @ (case beta of None \<Rightarrow> [1, 0] | Some k \<Rightarrow> [0, k]))"
proof -
  have "c8s_version (version_tag a b c beta) = Inr ([a, b, c] @ (case beta of None \<Rightarrow> [1, 0] | Some k \<Rightarrow> [0, k]))"
    if beta: "beta \<noteq> Some 0" for a b c beta
    using fullmatch_TAG [of "version_tag a b c beta"] beta
    by (auto simp: c8s_version_def tag_numbers_version_tag split: option.splits)
  moreover have "\<exists>a b c beta. tag = version_tag a b c beta \<and> beta \<noteq> Some 0" if "c8s_version tag = Inr v"
    using that fullmatch_TAG by (auto simp: c8s_version_def split: if_splits)
  ultimately show ?thesis by fastforce
qed

section \<open>What a verified statement and seed are\<close>

text \<open>
  The files of a download in which Cosign accepted the statement for the release workflow of the tag's
  channel, and the statement's bytes, which name the tag and a commit.
\<close>

definition attested :: "release_tools \<Rightarrow> string \<Rightarrow> bool \<Rightarrow> (string \<Rightarrow> string option) \<Rightarrow> pydict \<Rightarrow> string \<Rightarrow> bool" where
  "attested t tag allow_beta files statement commit \<longleftrightarrow>
     (\<exists>branch checked bytes.
        channel tag allow_beta = Inr branch \<and> files C8S_STATEMENT = Some bytes \<and>
        cosign_blob t (files C8S_BUNDLE)
          (''https://github.com/confidential-dot-ai/C8s/.github/workflows/semver-tag.yml@refs/heads/'' @ branch)
          C8S_SIGNER_ISSUER (Some bytes) = Inr checked \<and> returncode checked = 0 \<and>
        loads bytes = Inr (PDict statement) \<and>
        map_of statement ''repository'' = Some (PStr C8S_SIGNED_REPOSITORY) \<and>
        map_of statement ''tag'' = Some (PStr tag) \<and> map_of statement ''commit'' = Some (PStr commit))"

lemma statement_names_iff:
  "statement_names tag v \<longleftrightarrow>
     (\<exists>d c. v = PDict d \<and> sub_keys (dkeys d) statement_fields \<and>
        map_of d ''repository'' = Some (PStr C8S_SIGNED_REPOSITORY) \<and> map_of d ''tag'' = Some (PStr tag) \<and>
        map_of d ''commit'' = Some (PStr c))"
  by (cases v) (auto simp: statement_names_def split: option.splits pyv.splits)

lemma decode_utf8_same: "decode_utf8 b = Inr t \<Longrightarrow> t = b"
  by (auto simp: decode_utf8_def split: option.splits if_splits)

lemma read_statement_Inr:
  "read_statement tag content = Inr v \<Longrightarrow> \<exists>b. content = Some b \<and> loads b = Inr v"
  by (auto simp: read_statement_def try_except_eq_Inr bnd_eq_Inr dest: decode_utf8_same split: option.splits)

lemma signed_statement_attested:
  assumes "signed_statement t tag allow_beta assets = Inr (st, files)"
  shows "\<exists>download d commit. gh_download t tag ([C8S_STATEMENT, C8S_BUNDLE] @ assets) = Inr (download, files) \<and>
    returncode download = 0 \<and> st = PDict d \<and> attested t tag allow_beta files d commit"
proof -
  obtain download identity checked where
    g: "gh_download t tag ([C8S_STATEMENT, C8S_BUNDLE] @ assets) = Inr (download, files)" "returncode download = 0"
    "signer tag allow_beta = Inr identity"
    "cosign_blob t (files C8S_BUNDLE) identity C8S_SIGNER_ISSUER (files C8S_STATEMENT) = Inr checked"
    "returncode checked = 0" "read_statement tag (files C8S_STATEMENT) = Inr st" "statement_names tag st"
    using assms unfolding signed_statement_def
    by (elim bndE) (simp add: raise_if_eq_Inr split: prod.splits; elim bndE conjE; simp add: raise_if_eq_Inr)
  obtain branch where b: "channel tag allow_beta = Inr branch"
    "identity = ''https://github.com/confidential-dot-ai/C8s/.github/workflows/semver-tag.yml@refs/heads/'' @ branch"
    using g(3) by (auto simp: signer_def elim!: bndE)
  obtain bytes where bytes: "files C8S_STATEMENT = Some bytes" "loads bytes = Inr st"
    using read_statement_Inr [OF g(6)] by blast
  obtain d commit where d: "st = PDict d" "map_of d ''repository'' = Some (PStr C8S_SIGNED_REPOSITORY)"
    "map_of d ''tag'' = Some (PStr tag)" "map_of d ''commit'' = Some (PStr commit)"
    using g(7) by (auto simp: statement_names_iff)
  have "attested t tag allow_beta files d commit"
    unfolding attested_def using b bytes d g(4,5) by auto
  then show ?thesis using g(1,2) d(1) by blast
qed

lemma seed_signed:
  assumes "allowlist_seed t tag commit platform = Inr seed"
  shows "\<exists>files statement c data listed.
    attested t tag (contains ''-beta.'' tag) files statement c \<and> commit = PStr c \<and>
    files (seed_asset platform) = Some data \<and>
    bnd (jgetd (PDict statement) ''allowlistSeeds'' (PDict [])) (\<lambda>s. jget s platform) = Inr listed \<and>
    py_eq listed (PDict [(''asset'', PStr (seed_asset platform)), (''sha256'', PStr (sha256_hex data))]) \<and>
    loads_bytes data = Inr seed"
proof -
  obtain st files data named listed where
    s: "signed_statement t tag (contains ''-beta.'' tag) [seed_asset platform] = Inr (st, files)"
    "files (seed_asset platform) = Some data" "jidx st ''commit'' = Inr named" "py_eq named commit"
    "bnd (jgetd st ''allowlistSeeds'' (PDict [])) (\<lambda>s. jget s platform) = Inr listed"
    "py_eq listed (PDict [(''asset'', PStr (seed_asset platform)), (''sha256'', PStr (sha256_hex data))])"
    "loads_bytes data = Inr seed"
    using assms unfolding allowlist_seed_def
    by (elim bndE) (simp add: raise_if_eq_Inr bnd_eq_Inr split: prod.splits option.splits; elim exE conjE; simp)
  obtain d c where d: "st = PDict d" "attested t tag (contains ''-beta.'' tag) files d c"
    using signed_statement_attested [OF s(1)] by blast
  have "named = PStr c" using d s(3) by (auto simp: attested_def)
  then have "commit = PStr c" using s(4) by simp
  then show ?thesis using d s by blast
qed

text \<open>
  C26: The allowlist seed is the signed one.  If \<open>allowlist_seed\<close> returns a seed, it is the JSON of the
  downloaded asset whose SHA-256 a statement lists; Cosign accepted that statement's bytes for the release
  workflow of the tag's channel, and it names this tag and the requested commit.
\<close>

theorem allowlist_seed_signed:
  assumes "allowlist_seed t tag commit platform = Inr seed"
  shows "\<exists>files statement c data listed.
    attested t tag (contains ''-beta.'' tag) files statement c \<and> commit = PStr c \<and>
    files (seed_asset platform) = Some data \<and>
    bnd (jgetd (PDict statement) ''allowlistSeeds'' (PDict [])) (\<lambda>s. jget s platform) = Inr listed \<and>
    py_eq listed (PDict [(''asset'', PStr (seed_asset platform)), (''sha256'', PStr (sha256_hex data))]) \<and>
    loads_bytes data = Inr seed"
  using assms by (rule seed_signed)

lemma check_commit_on_Inr:
  assumes "check_commit_on t tag branch commit = Inr ()"
  shows "\<exists>answer verification verified comparison.
    api t (''commits/'' @ py_str commit) = Inr answer \<and>
    bnd (jidx answer ''commit'') (\<lambda>c. jidx c ''verification'') = Inr verification \<and>
    jget verification ''verified'' = Inr verified \<and> truthy verified \<and>
    api t (''compare/'' @ py_str commit @ ''...'' @ branch) = Inr comparison \<and> status_in comparison = Inr True \<and>
    (branch = ''beta'' \<longrightarrow> (\<exists>with_main. api t (''compare/'' @ py_str commit @ ''...main'') = Inr with_main \<and>
       status_in with_main = Inr False))"
  using assms unfolding check_commit_on_def
  by (elim bndE) (auto simp: raise_if_eq_Inr raise_ifM_eq_Inr bnd_eq_Inr split: if_splits)

lemma signature_values:
  assumes "release_signature t tag allow_beta branch commit = Inr signature"
  shows "signature = ''verified'' \<or> (signature = ''absent'' \<and> branch \<noteq> ''beta'')"
  using assms unfolding release_signature_def verify_assets_def
  by (auto simp: raise_if_eq_Inr bnd_eq_Inr split: if_splits)

lemma signature_verified:
  assumes "release_signature t tag allow_beta branch commit = Inr ''verified''"
  shows "\<exists>files statement c. attested t tag allow_beta files statement c \<and> commit = PStr c"
proof -
  obtain st files named where s: "signed_statement t tag allow_beta [] = Inr (st, files)"
    "jidx st ''commit'' = Inr named" "py_eq named commit"
    using assms unfolding release_signature_def verify_assets_def
    by (auto simp: raise_if_eq_Inr bnd_eq_Inr split: if_splits prod.splits)
  obtain d c where d: "st = PDict d" "attested t tag allow_beta files d c"
    using signed_statement_attested [OF s(1)] by blast
  then have "named = PStr c" using s(2) by (auto simp: attested_def)
  then show ?thesis using d s(3) by auto
qed


section \<open>An example release\<close>

definition example_seed :: pyv where
  "example_seed = PDict [(''schema'', PStr ''c8s.allowlist/v1''), (''workloads'', PDict [])]"

definition example_data :: string where
  "example_data = dumps json_default example_seed"

definition example_statement :: pydict where
  "example_statement = [(''repository'', PStr C8S_SIGNED_REPOSITORY), (''tag'', PStr ''v0.66.0''),
     (''commit'', PStr ''0a1b''), (''allowlistSeeds'', PDict [(''tdx'', PDict
        [(''asset'', PStr (seed_asset ''tdx'')), (''sha256'', PStr (sha256_hex example_data))])])]"

definition example_files :: "string \<Rightarrow> string option" where
  "example_files = map_of [(C8S_STATEMENT, dumps json_default (PDict example_statement)), (C8S_BUNDLE, ''{}''),
     (seed_asset ''tdx'', example_data)]"

definition example_answers :: "(string \<times> pyv) list" where
  "example_answers =
     [(''git/ref/tags/v0.66.0'', PDict [(''object'', PDict [(''type'', PStr ''commit''), (''sha'', PStr ''0a1b'')])]),
      (''commits/0a1b'', PDict [(''commit'', PDict [(''verification'', PDict [(''verified'', PBool True)])])]),
      (''compare/0a1b...main'', PDict [(''status'', PStr ''ahead'')]),
      (''releases/tags/v0.66.0'', PDict [(''assets'', PList
         [PDict [(''name'', PStr C8S_STATEMENT)], PDict [(''name'', PStr C8S_BUNDLE)]])])]"

definition example_tools :: release_tools where
  "example_tools = \<lparr>
     gh_api = (\<lambda>p. Inr (case map_of example_answers (drop (length (''repos/'' @ C8S_REPOSITORY @ ''/'')) p) of
        Some v \<Rightarrow> \<lparr>returncode = 0, stdout = dumps json_default v, stderr = []\<rparr>
      | None \<Rightarrow> \<lparr>returncode = 1, stdout = [], stderr = ''HTTP 404''\<rparr>)),
     gh_download = (\<lambda>_ _. Inr (\<lparr>returncode = 0, stdout = [], stderr = []\<rparr>, example_files)),
     cosign_found = True,
     cosign_blob = (\<lambda>_ _ _ _. Inr \<lparr>returncode = 0, stdout = [], stderr = []\<rparr>)\<rparr>"

lemma json_default_reads:
  assumes "json_ok json_default v"
  shows "loads (dumps json_default v) = Inr v" "decode_utf8 (dumps json_default v) = Inr (dumps json_default v)"
    "loads_bytes (dumps json_default v) = Inr v"
proof -
  have o: "sort_keys json_default = False" "ensure_ascii json_default = True" by (simp_all add: json_default_def)
  show l: "loads (dumps json_default v) = Inr v" using loads_dumps [OF _ assms] o by simp
  have a: "is_ascii (dumps json_default v)" using assms o by (simp add: dumps_def is_ascii_dump)
  then show d: "decode_utf8 (dumps json_default v) = Inr (dumps json_default v)" by (rule decode_utf8_ascii)
  show "loads_bytes (dumps json_default v) = Inr v" 
  proof -
    have "\<not> startswith (dumps json_default v) byte_order_mark" using l by (auto simp: loads_def)
    moreover have "code_points (dumps json_default v) \<noteq> None" using d by (auto simp: decode_utf8_def split: option.splits)
    ultimately show ?thesis using l by (auto simp: loads_bytes_def Let_def)
  qed
qed

lemma hex_is_ascii: "list_all is_hex s \<Longrightarrow> is_ascii s"
  by (auto simp: is_ascii_def list_all_iff is_hex_def is_digit_def)

lemma example_json:
  "json_ok json_default example_seed" "json_ok json_default (PDict example_statement)"
  "v \<in> snd ` set example_answers \<Longrightarrow> json_ok json_default v"
  using hex_is_ascii [OF sha256_hex_shape(2)]
  by (auto simp: example_seed_def example_statement_def example_answers_def dict_ok_def is_ascii_def seed_asset_def
      C8S_SIGNED_REPOSITORY_def C8S_STATEMENT_def C8S_BUNDLE_def)

lemma example_tag: "c8s_version ''v0.66.0'' = Inr [0, 66, 0, 1, 0]"
proof -
  have t: "''v0.66.0'' = version_tag 0 66 0 None" by (simp add: version_tag_def str_of_nat.simps char_of_def bit_0)
  show ?thesis unfolding t using fullmatch_TAG [of "version_tag 0 66 0 None"]
    by (auto simp: c8s_version_def tag_numbers_version_tag)
qed

lemma example_channel: "channel ''v0.66.0'' b = Inr ''main''"
  by (simp add: channel_def example_tag contains_def startswith_def)

lemma example_signed:
  "signed_statement example_tools ''v0.66.0'' b assets = Inr (PDict example_statement, example_files)"
proof -
  have f: "example_files C8S_STATEMENT = Some (dumps json_default (PDict example_statement))"
    by (simp add: example_files_def)
  have r: "read_statement ''v0.66.0'' (example_files C8S_STATEMENT) = Inr (PDict example_statement)"
    by (simp add: read_statement_def f json_default_reads [OF example_json(2)])
  have n: "statement_names ''v0.66.0'' (PDict example_statement)"
    by (simp add: statement_names_def example_statement_def sub_keys_def dkeys_def statement_fields_def)
  show ?thesis
    using r n by (simp add: signed_statement_def example_tools_def signer_def example_channel)
qed

lemma allowlist_seed_signed_witness:
  "allowlist_seed example_tools ''v0.66.0'' (PStr ''0a1b'') ''tdx'' = Inr example_seed \<and>
   (\<exists>files statement c. attested example_tools ''v0.66.0'' False files statement c \<and> c = ''0a1b'')"
proof -
  have c: "\<not> contains ''-beta.'' ''v0.66.0''" by (simp add: contains_def startswith_def)
  have f: "example_files (seed_asset ''tdx'') = Some example_data"
    by (simp add: example_files_def C8S_STATEMENT_def C8S_BUNDLE_def seed_asset_def)
  have s: "bnd (jgetd (PDict example_statement) ''allowlistSeeds'' (PDict [])) (\<lambda>s. jget s ''tdx'') =
      Inr (PDict [(''asset'', PStr (seed_asset ''tdx'')), (''sha256'', PStr (sha256_hex example_data))])"
    "jidx (PDict example_statement) ''commit'' = Inr (PStr ''0a1b'')"
    by (simp_all add: example_statement_def)
  have l: "loads_bytes example_data = Inr example_seed"
    unfolding example_data_def by (rule json_default_reads [OF example_json(1)])
  have seed: "allowlist_seed example_tools ''v0.66.0'' (PStr ''0a1b'') ''tdx'' = Inr example_seed"
    using f l s by (simp add: allowlist_seed_def example_signed)
  from allowlist_seed_signed [OF this] c seed show ?thesis by auto
qed

lemma example_api:
  "(p, v) \<in> set example_answers \<Longrightarrow> api example_tools p = Inr v"
proof -
  assume pv: "(p, v) \<in> set example_answers"
  have "distinct (map fst example_answers)" by (simp add: example_answers_def)
  then have "map_of example_answers p = Some v" using pv by simp
  moreover have "json_ok json_default v" using pv by (intro example_json(3)) force
  ultimately show ?thesis by (simp add: api_def example_tools_def json_default_reads)
qed


end
