(* ===== verification/Allowlist_Rules.thy ===== *)
theory Allowlist_Rules
  imports C8s_Release
begin

text \<open>
  \<open>scripts/generate-release-allowlist.py\<close>, lines 98 to 437: the rules of one container of the release
  allowlist. What the image, the pod specification, Kubernetes, c8s and the NVIDIA CDI record give is
  combined into the exact environment and the exact mounts of the container.

  A name that keys a dictionary (of a container, of a variable) is a string; another name raises
  \<open>TypeError\<close> here, where Python raises it at the latest when it sorts the names.
\<close>

abbreviation generation_error :: "string \<Rightarrow> exn" where
  "generation_error m \<equiv> Exn GenerationError m"

section \<open>Output of processes\<close>

text \<open>
  \<open>bytes.decode("utf-8", errors="replace")\<close>: a byte sequence that is the beginning of no character, up
  to the first byte that cannot continue it, becomes U+FFFD.
\<close>

definition lead_conts :: "nat \<Rightarrow> nat" where
  "lead_conts a =
     (if 194 \<le> a \<and> a < 224 then 1 else if 224 \<le> a \<and> a < 240 then 2
      else if 240 \<le> a \<and> a \<le> 244 then 3 else 0)"

definition is_cont :: "char \<Rightarrow> bool" where
  "is_cont c = (128 \<le> code c \<and> code c < 192)"

definition second_ok :: "nat \<Rightarrow> char \<Rightarrow> bool" where
  "second_ok a c =
     (is_cont c \<and> (a = 224 \<longrightarrow> 160 \<le> code c) \<and> (a = 237 \<longrightarrow> code c < 160) \<and>
      (a = 240 \<longrightarrow> 144 \<le> code c) \<and> (a = 244 \<longrightarrow> code c < 144))"

definition good_conts :: "nat \<Rightarrow> string \<Rightarrow> nat" where
  "good_conts a s =
     (case take (lead_conts a) s of
        [] \<Rightarrow> 0
      | c # t \<Rightarrow> if second_ok a c then Suc (length (takeWhile is_cont t)) else 0)"

function decode_replace :: "string \<Rightarrow> string" where
  "decode_replace [] = []"
| "decode_replace (c # s) =
     (if code c < 128 then c # decode_replace s
      else let n = good_conts (code c) s in
        (if 0 < n \<and> n = lead_conts (code c) then c # take n s
         else [char_of (239 :: nat), char_of (191 :: nat), char_of (189 :: nat)]) @ decode_replace (drop n s))"
  by pat_completeness auto
termination
  by (relation "measure length") auto

text \<open>\<open>run\<close> on the result of a process: its output, or the error with the command and its output.\<close>

definition run :: "string list \<Rightarrow> completed \<Rightarrow> string res" where
  "run cmd result =
     (if returncode result \<noteq> 0
      then Inl (generation_error (''command failed: '' @ str_join '' '' cmd @ '': '' @
             str_strip (decode_replace (stderr result @ stdout result))))
      else Inr (stdout result))"

definition display_path :: "repo_env \<Rightarrow> path \<Rightarrow> string" where
  "display_path env p =
     (if under (repo_root env) p \<and> p \<noteq> repo_root env
      then str_join ''/'' (drop (length (repo_root env)) p) else path_str p)"

definition read_json :: "repo_env \<Rightarrow> path \<Rightarrow> pyv res" where
  "read_json env p =
     try_except (bnd (read_text env p) loads) [OSError, JSONDecodeError]
       (\<lambda>e. Inl (generation_error (''cannot read '' @ display_path env p @ '': '' @ msg e)))"

section \<open>Versions of c8s\<close>

definition rx_digits :: rx where
  "rx_digits = rx_plus (RChr is_digit)"

definition rx_feature_release :: rx where
  "rx_feature_release = rx_seqs [rx_lit ''v'', rx_digits, rx_lit ''.'', rx_digits, rx_lit ''.'', rx_digits,
     rx_opt (RAlt (RSeq (rx_lit ''-beta.'') rx_positive)
       (rx_seqs [rx_lit ''-0.'', rx_rep 14 (RChr is_digit), rx_lit ''-'', rx_rep 12 (RChr is_hex)]))]"

text \<open>The three groups: the digits before the first hyphen, separated by dots.\<close>

definition release_numbers :: "string \<Rightarrow> nat list" where
  "release_numbers release =
     map nat_of_digits (split_char (CHR ''.'') (takeWhile (\<lambda>c. c \<noteq> CHR ''-'') (drop 1 release)))"

definition c8s_at_least :: "pyv \<Rightarrow> nat list \<Rightarrow> bool res" where
  "c8s_at_least release version =
     (if release = PNone then Inr False
      else bnd (arg_text release) (\<lambda>r.
        if fullmatch rx_feature_release r then Inr (version \<le> release_numbers r)
        else Inl (generation_error (''unsupported c8s release: '' @ r))))"

definition feature_release :: "pyv \<Rightarrow> pyv res" where
  "feature_release c8s =
     (case c8s of PDict _ \<Rightarrow> bnd (jidx c8s ''release'') (jgetd c8s ''baseRelease'') | _ \<Rightarrow> no_attribute)"

definition split_image :: "pyv \<Rightarrow> (string \<times> string) res" where
  "split_image img =
     (case (case img of PStr s \<Rightarrow> oci_groups s | _ \<Rightarrow> None) of
        None \<Rightarrow> Inl (generation_error (''a rendered image is not digest-pinned: '' @ py_repr img))
      | Some groups \<Rightarrow> Inr groups)"

section \<open>Controllers\<close>

definition controller_kinds :: "string list" where
  "controller_kinds = [''Deployment'', ''StatefulSet'', ''DaemonSet'']"

definition add_controller :: "pydict \<Rightarrow> pyv \<Rightarrow> pydict res" where
  "add_controller d item =
     bnd (jget item ''kind'') (\<lambda>k.
     bnd (in_strs k controller_kinds) (\<lambda>b.
       if b
       then bnd (jidx item ''kind'') (\<lambda>kind.
            bnd (bnd (jidx item ''metadata'') (\<lambda>m. jidx m ''name'')) (\<lambda>name.
              Inr (dset (py_str kind @ ''/'' @ py_str name) item d)))
       else Inr d))"

definition controllers :: "pyv list \<Rightarrow> pydict res" where
  "controllers documents = foldM add_controller [] documents"

definition pod_template :: "pyv \<Rightarrow> pyv res" where
  "pod_template controller = bnd (jidx controller ''spec'') (\<lambda>spec. jidx spec ''template'')"

definition pod_spec :: "pyv \<Rightarrow> pyv res" where
  "pod_spec controller = bnd (pod_template controller) (\<lambda>t. jidx t ''spec'')"

definition container_label :: "pyv \<Rightarrow> pyv \<Rightarrow> string res" where
  "container_label controller container =
     bnd (jidx controller ''kind'') (\<lambda>kind.
     bnd (bnd (jidx controller ''metadata'') (\<lambda>m. jidx m ''name'')) (\<lambda>name.
     bnd (jidx container ''name'') (\<lambda>cname.
       Inr (py_str kind @ ''/'' @ py_str name @ '' container '' @ py_str cname))))"

section \<open>Environment\<close>

definition image_env_item :: "pydict \<Rightarrow> pyv \<Rightarrow> pydict res" where
  "image_env_item env item =
     bnd (str_method item) (\<lambda>s.
       case str_partition ''='' s of (name, separator, v) \<Rightarrow>
         if separator = [] \<or> name = []
         then Inl (generation_error (''an image ENV entry is malformed: '' @ str_repr s))
         else Inr (dset name (PStr v) env))"

definition image_env_list :: "pyv \<Rightarrow> pydict res" where
  "image_env_list vs = bnd (jiter vs) (foldM image_env_item [])"

definition kubernetes_env :: "pyv \<Rightarrow> pydict" where
  "kubernetes_env service_host =
     (let address = PStr (''tcp://'' @ py_str service_host @ '':443'') in
      [(''KUBERNETES_SERVICE_HOST'', service_host),
       (''KUBERNETES_SERVICE_PORT'', PStr ''443''),
       (''KUBERNETES_SERVICE_PORT_HTTPS'', PStr ''443''),
       (''KUBERNETES_PORT'', address),
       (''KUBERNETES_PORT_443_TCP'', address),
       (''KUBERNETES_PORT_443_TCP_PROTO'', PStr ''tcp''),
       (''KUBERNETES_PORT_443_TCP_PORT'', PStr ''443''),
       (''KUBERNETES_PORT_443_TCP_ADDR'', service_host)])"

definition VAR_NAME :: rx where
  "VAR_NAME = RSeq (RChr (\<lambda>c. is_upper c \<or> is_lower c \<or> c = CHR ''_''))
     (RStar (RChr (\<lambda>c. is_upper c \<or> is_lower c \<or> is_digit c \<or> c = CHR ''_'')))"

definition dollar :: char where
  "dollar = CHR 0x24"

text \<open>
  The loop of \<open>expand\<close>: the pieces of the output after the position \<open>index\<close>.
\<close>

function expand_from :: "string \<Rightarrow> pydict \<Rightarrow> nat \<Rightarrow> pyv list" where
  "expand_from v known index =
     (if index < length v
      then
        (if v ! index = dollar \<and> index + 1 < length v \<and> v ! (index + 1) = dollar
         then PStr [dollar] # expand_from v known (index + 2)
         else case (if v ! index = dollar \<and> index + 1 < length v \<and> v ! (index + 1) = CHR ''(''
                    then str_find '')'' (drop (index + 2) v) else None) of
             Some n \<Rightarrow>
               (let name = take n (drop (index + 2) v) in
                if fullmatch VAR_NAME name
                then (case map_of known name of
                        None \<Rightarrow> PStr (take (n + 3) (drop index v)) | Some w \<Rightarrow> w)
                     # expand_from v known (index + n + 3)
                else PStr [v ! index] # expand_from v known (index + 1))
           | None \<Rightarrow> PStr [v ! index] # expand_from v known (index + 1))
      else [])"
  by pat_completeness auto
termination
  by (relation "measure (\<lambda>(v, known, index). length v - index)") auto

declare expand_from.simps [simp del]

definition expand :: "string \<Rightarrow> pydict \<Rightarrow> string res" where
  "expand v known = bnd (mapM arg_text (expand_from v known 0)) (\<lambda>output. Inr (concat output))"

text \<open>\<open>int(v)\<close>: a string holds a sign and at most 4300 digits between white space.\<close>

definition int_of_text :: "string \<Rightarrow> int res" where
  "int_of_text s =
     (let t = str_strip s;
          digits = (if startswith t ''-'' \<or> startswith t ''+'' then drop 1 t else t);
          groups = split_char (CHR ''_'') digits
      in if list_all (\<lambda>g. g \<noteq> [] \<and> list_all is_digit g) groups \<and> length (concat groups) \<le> 4300
         then Inr ((if startswith t ''-'' then -1 else 1) * int (nat_of_digits (concat groups)))
         else Inl (Exn ValueError (''invalid literal for int() with base 10: '' @ str_repr s)))"

definition py_int :: "pyv \<Rightarrow> int res" where
  "py_int v =
     (case v of
        PInt i \<Rightarrow> Inr i
      | PBool b \<Rightarrow> Inr (if b then 1 else 0)
      | PStr s \<Rightarrow> int_of_text s
      | PFloat (Flt q) \<Rightarrow> Inr (if q < 0 then - \<lfloor>- q\<rfloor> else \<lfloor>q\<rfloor>)
      | PFloat NotANumber \<Rightarrow> Inl (Exn ValueError [])
      | PFloat _ \<Rightarrow> Inl (Exn OverflowError [])
      | _ \<Rightarrow> type_error)"

definition pod_name :: "pyv \<Rightarrow> pyv res" where
  "pod_name controller =
     bnd (jidx controller ''kind'') (\<lambda>kind.
     bnd (bnd (jidx controller ''metadata'') (\<lambda>m. jidx m ''name'')) (\<lambda>name.
     bnd (pod_spec controller) (\<lambda>pod.
     bnd (jget pod ''hostname'') (\<lambda>hostname.
       if truthy hostname then Inr hostname
       else bnd (if kind = PStr ''StatefulSet''
                 then bnd (bnd (jidx controller ''spec'') (\<lambda>s. jgetd s ''replicas'' (PInt 1))) (\<lambda>r.
                      bnd (py_int r) (\<lambda>n. Inr (n = 1)))
                 else Inr False) (\<lambda>single.
         if single then Inr (PStr (py_str name @ ''-0''))
         else Inl (generation_error (py_str kind @ ''/'' @ py_str name @
           '' has a random pod name, so HOSTNAME is not exact; set spec.template.spec.hostname'')))))))"

definition requests_gpu :: "pyv \<Rightarrow> bool res" where
  "requests_gpu container =
     bnd (jgetd container ''resources'' (PDict [])) (\<lambda>resources.
       anyM (\<lambda>field. bnd (jgetd resources field (PDict [])) (jin ''nvidia.com/gpu'')) [''limits'', ''requests''])"

definition env_item_value :: "pyv \<Rightarrow> pyv \<Rightarrow> string \<Rightarrow> pydict \<Rightarrow> pyv \<Rightarrow> pyv res" where
  "env_item_value controller pol label defined item =
     bnd (jidx item ''name'') (\<lambda>name.
     bnd (jin ''value'' item) (\<lambda>has_value.
       if has_value
       then bnd (jidx item ''value'') (\<lambda>v. bnd (expand (py_str v) defined) (\<lambda>s. Inr (PStr s)))
       else bnd (jin ''valueFrom'' item) (\<lambda>b.
         bnd (if b then bnd (jidx item ''valueFrom'') (jin ''fieldRef'') else Inr False) (\<lambda>has_field.
           if has_field
           then bnd (bnd (jidx item ''valueFrom'') (\<lambda>f. bnd (jidx f ''fieldRef'') (\<lambda>r. jidx r ''fieldPath''))) (\<lambda>field.
             if field = PStr ''metadata.name'' then pod_name controller
             else if field = PStr ''metadata.namespace''
             then bnd (jidx pol ''chart'') (\<lambda>c. jidx c ''namespace'')
             else Inl (generation_error (label @ '': env '' @ py_str name @ '' reads '' @ py_str field @
                    '', which differs per node or pod'')))
           else Inl (generation_error (label @ '': env '' @ py_str name @
                  '' has a value the release does not pin''))))))"

definition env_item :: "pyv \<Rightarrow> pyv \<Rightarrow> string \<Rightarrow> pydict \<times> pydict \<Rightarrow> pyv \<Rightarrow> (pydict \<times> pydict) res" where
  "env_item controller pol label st item =
     (case st of (defined, env) \<Rightarrow>
        bnd (env_item_value controller pol label defined item) (\<lambda>v.
        bnd (bnd (jidx item ''name'') arg_text) (\<lambda>name.
          Inr (dset name v defined, dset name v env))))"

text \<open>The variables that the image, the pod name and the \<open>kubernetes\<close> Service give.\<close>

definition base_env :: "pyv \<Rightarrow> pyv \<Rightarrow> string \<Rightarrow> pydict \<Rightarrow> pyv \<Rightarrow> pydict res" where
  "base_env controller container label image_env pol =
     bnd (jidx container ''image'') (\<lambda>img.
     bnd (in_strs img (dkeys image_env)) (\<lambda>known.
     bnd (raise_if (\<not> known)
            (generation_error (label @ '': the image configuration has no record for '' @ py_str img))) (\<lambda>_.
     bnd (bnd (dget image_env img PNone) (\<lambda>r. bnd (jidx r ''env'') image_env_list)) (\<lambda>env.
     bnd (pod_name controller) (\<lambda>hostname.
     bnd (bnd (jidx pol ''kubernetes'') (\<lambda>k. jidx k ''serviceHost'')) (\<lambda>service_host.
       Inr (dupdate (dset ''HOSTNAME'' hostname env) (kubernetes_env service_host))))))))"

definition no_cdi_record :: "string \<Rightarrow> exn" where
  "no_cdi_record label = generation_error (label @ '': requests GPUs, and the NVIDIA CDI record is absent'')"

definition cdi_env :: "pyv \<Rightarrow> string \<Rightarrow> pyv option \<Rightarrow> pydict \<Rightarrow> pydict res" where
  "cdi_env container label cdi env =
     bnd (requests_gpu container) (\<lambda>gpu.
       if gpu
       then (case cdi of
               None \<Rightarrow> Inl (no_cdi_record label)
             | Some c \<Rightarrow> bnd (bnd (jidx c ''env'') jitems) (\<lambda>e. Inr (dupdate env e)))
       else Inr env)"

definition container_env :: "pyv \<Rightarrow> pyv \<Rightarrow> pydict \<Rightarrow> pyv \<Rightarrow> pyv option \<Rightarrow> pydict res" where
  "container_env controller container image_env pol cdi =
     bnd (container_label controller container) (\<lambda>label.
     bnd (pod_spec controller) (\<lambda>pod.
     bnd (jgetd pod ''enableServiceLinks'' (PBool True)) (\<lambda>links.
     bnd (raise_if (links \<noteq> PBool False) (generation_error (label @ '': enableServiceLinks must be false''))) (\<lambda>_.
     bnd (base_env controller container label image_env pol) (\<lambda>env.
     bnd (jget container ''envFrom'') (\<lambda>env_from.
     bnd (raise_if (truthy env_from)
            (generation_error (label @ '': envFrom values are not pinned by the release''))) (\<lambda>_.
     bnd (bnd (jgetd container ''env'' (PList [])) jiter) (\<lambda>items.
     bnd (foldM (env_item controller pol label) ([], env) items) (\<lambda>(_, env').
     bnd (cdi_env container label cdi env') (\<lambda>env''.
       Inr (sort_items env'')))))))))))"

section \<open>Process\<close>

definition effective_process :: "pydict \<Rightarrow> pyv \<Rightarrow> pydict res" where
  "effective_process container config =
     bnd (jget (PDict container) ''command'') (\<lambda>cmd.
     bnd (jget (PDict container) ''args'') (\<lambda>args.
     bnd (if truthy cmd then Inr (dset ''args'' (py_or args (PList [])) (dset ''command'' cmd container))
          else bnd (jget config ''entrypoint'') (\<lambda>entrypoint.
               bnd (if truthy entrypoint then Inr ()
                    else bnd (jidx (PDict container) ''name'') (\<lambda>name.
                      Inl (generation_error (''container '' @ py_str name @
                        '': the image has no ENTRYPOINT and the pod sets no command'')))) (\<lambda>_.
               bnd (if truthy args then Inr args else bnd (jget config ''cmd'') (\<lambda>c. Inr (py_or c (PList [])))) (\<lambda>a.
                 Inr (dset ''args'' a (dset ''command'' entrypoint container)))))) (\<lambda>merged.
     bnd (jidx (PDict merged) ''args'') (\<lambda>a.
       Inr (if truthy a then merged else ddel ''args'' merged)))))"

section \<open>Mounts\<close>

definition DATA_ROOT :: string where
  "DATA_ROOT = ''/mnt/c8s-data/''"

definition data_rule :: "pyv \<Rightarrow> string \<Rightarrow> pyv res" where
  "data_rule destination label =
     bnd (str_method destination) (\<lambda>d.
       if startswith d DATA_ROOT
       then Inr (PDict [(''destination'', PStr d), (''kind'', PStr ''data'')])
       else Inl (generation_error (label @ '': a data mount at '' @ d @ '' must be below '' @ DATA_ROOT @
              '' for an exact rule'')))"

definition empty_dir_rule :: "pyv \<Rightarrow> pyv" where
  "empty_dir_rule destination = PDict [(''destination'', destination), (''kind'', PStr ''emptyDir'')]"

definition volume_item :: "pyv \<Rightarrow> (pyv \<times> pyv) res" where
  "volume_item volume =
     bnd (jidx volume ''name'') (\<lambda>name. if hashable name then Inr (name, volume) else type_error)"

text \<open>The dictionary of the volumes by name: the last volume of a name counts.\<close>

definition find_volume :: "(pyv \<times> pyv) list \<Rightarrow> pyv \<Rightarrow> pyv option res" where
  "find_volume volumes name =
     (if hashable name then Inr (map_option snd (find (\<lambda>(k, _). py_eq k name) (rev volumes))) else type_error)"

definition data_volume_keys :: "string list" where
  "data_volume_keys =
     [''configMap'', ''secret'', ''projected'', ''downwardAPI'', ''persistentVolumeClaim'', ''csi'']"

definition host_rule :: "pyv \<Rightarrow> pyv \<Rightarrow> pyv \<Rightarrow> pyv res" where
  "host_rule mount destination volume =
     bnd (bnd (jidx volume ''hostPath'') (\<lambda>h. jidx h ''path'')) (\<lambda>source.
     bnd (jget mount ''readOnly'') (\<lambda>read_only.
       Inr (PDict ([(''destination'', destination), (''kind'', PStr ''host''), (''source'', source)] @
              (if truthy read_only then [(''readOnly'', PBool True)] else [])))))"

definition mount_rule :: "string \<Rightarrow> (pyv \<times> pyv) list \<Rightarrow> pyv \<Rightarrow> pyv res" where
  "mount_rule label volumes mount =
     bnd (jidx mount ''name'') (\<lambda>name.
     bnd (find_volume volumes name) (\<lambda>found.
     bnd (jidx mount ''mountPath'') (\<lambda>destination.
       case found of
         None \<Rightarrow> Inl (generation_error (label @ '': mount '' @ py_str name @ '' names no pod volume''))
       | Some volume \<Rightarrow>
           bnd (jget mount ''subPath'') (\<lambda>sub. bnd (jget mount ''subPathExpr'') (\<lambda>sub_expr.
           if truthy sub \<or> truthy sub_expr then data_rule destination label
           else bnd (jin ''emptyDir'' volume) (\<lambda>empty_dir.
             if empty_dir then Inr (empty_dir_rule destination)
             else bnd (jin ''hostPath'' volume) (\<lambda>host.
               if host then host_rule mount destination volume
               else bnd (anyM (\<lambda>key. jin key volume) data_volume_keys) (\<lambda>data.
                 if data then data_rule destination label
                 else Inl (generation_error (label @ '': mount '' @ py_str name @
                        '' has a volume type the release cannot classify'')))))))))) "

definition CLAIMS_SOCKET_CONSUMERS :: "string list" where
  "CLAIMS_SOCKET_CONSUMERS = [''c8s-cert'', ''c8s-secret'', ''c8s-volume'', ''cds-attest'']"

definition CLAIMS_SOCKET_PLATFORM_SINCE :: "nat list" where
  "CLAIMS_SOCKET_PLATFORM_SINCE = [0, 50, 0]"

definition PER_POD_MESH_SINCE :: "nat list" where
  "PER_POD_MESH_SINCE = [0, 64, 0]"

definition claims_socket_rule :: pyv where
  "claims_socket_rule = PDict [(''destination'', PStr ''/run/c8s/workload-claims''), (''kind'', PStr ''host''),
     (''source'', PStr ''/var/run/nri-image-policy''), (''readOnly'', PBool True)]"

definition cert_rules :: "pyv \<Rightarrow> pyv \<Rightarrow> pyv list res" where
  "cert_rules annotations release =
     bnd (c8s_at_least release PER_POD_MESH_SINCE) (\<lambda>mesh.
       if mesh then Inr []
       else bnd (jgetd annotations ''confidential.ai/c8s-cert-dir'' (PStr ''/etc/c8s/certs'')) (\<lambda>d.
              Inr [empty_dir_rule d]))"

definition secret_rules :: "pyv \<Rightarrow> pyv list res" where
  "secret_rules annotations =
     bnd (jget annotations ''confidential.ai/c8s-secrets'') (\<lambda>secrets.
       if truthy secrets
       then bnd (jgetd annotations ''confidential.ai/c8s-secret-dir'' (PStr ''/run/c8s/secrets'')) (\<lambda>d.
              Inr [empty_dir_rule d])
       else Inr [])"

definition volume_rules :: "pyv \<Rightarrow> string \<Rightarrow> pyv list res" where
  "volume_rules annotations label =
     bnd (jget annotations ''confidential.ai/c8s-volumes'') (\<lambda>volumes.
       if truthy volumes
       then bnd (bnd (jgetd annotations ''confidential.ai/c8s-volume-dir'' (PStr ''/run/c8s/volumes'')) str_method) (\<lambda>d.
            bnd (str_method volumes) (\<lambda>encoded.
              mapM (\<lambda>entry. data_rule (PStr (str_rstrip (CHR ''/'') d @ ''/'' @ fst (str_partition ''='' entry))) label)
                (split_char (CHR '','') encoded)))
       else Inr [])"

definition socket_rules :: "pyv \<Rightarrow> pyv \<Rightarrow> pyv list res" where
  "socket_rules container release =
     bnd (c8s_at_least release [0, 44, 6]) (\<lambda>mounted.
     bnd (if mounted then bnd (c8s_at_least release CLAIMS_SOCKET_PLATFORM_SINCE) (\<lambda>b. Inr (\<not> b)) else Inr False) (\<lambda>listed.
     bnd (if listed then bnd (jidx container ''name'') (\<lambda>n. in_strs n CLAIMS_SOCKET_CONSUMERS) else Inr False) (\<lambda>consumer.
       Inr (if consumer then [claims_socket_rule] else []))))"

text \<open>What c8s adds to every container of an opted-in pod.\<close>

definition c8s_rules :: "pyv \<Rightarrow> pyv \<Rightarrow> string \<Rightarrow> pyv \<Rightarrow> pyv list res" where
  "c8s_rules annotations container label release =
     bnd (jin ''confidential.ai/cw'' annotations) (\<lambda>opted_in.
       if opted_in
       then bnd (cert_rules annotations release) (\<lambda>certs.
            bnd (secret_rules annotations) (\<lambda>secrets.
            bnd (volume_rules annotations label) (\<lambda>volumes.
            bnd (socket_rules container release) (\<lambda>sockets.
              Inr (certs @ secrets @ volumes @ sockets)))))
       else Inr [])"

definition cdi_rules :: "pyv \<Rightarrow> string \<Rightarrow> pyv option \<Rightarrow> pyv list res" where
  "cdi_rules container label cdi =
     bnd (requests_gpu container) (\<lambda>gpu.
       if gpu
       then (case cdi of None \<Rightarrow> Inl (no_cdi_record label) | Some c \<Rightarrow> bnd (jidx c ''mounts'') jiter)
       else Inr [])"

definition order_rules :: "string \<Rightarrow> pyv list \<Rightarrow> pyv list res" where
  "order_rules label rules =
     bnd (mapM (\<lambda>rule. jidx rule ''destination'') rules) (\<lambda>destinations.
     bnd (py_set destinations) (\<lambda>distinct_destinations.
     bnd (raise_if (length distinct_destinations \<noteq> length destinations)
            (generation_error (label @ '': two mounts share one destination''))) (\<lambda>_.
       py_sorted (zip destinations rules))))"

definition container_mounts :: "pyv \<Rightarrow> pyv \<Rightarrow> pyv option \<Rightarrow> pyv \<Rightarrow> pyv list res" where
  "container_mounts controller container cdi release =
     bnd (container_label controller container) (\<lambda>label.
     bnd (pod_template controller) (\<lambda>template.
     bnd (jidx template ''spec'') (\<lambda>pod.
     bnd (bnd (jgetd template ''metadata'' (PDict [])) (\<lambda>m. jgetd m ''annotations'' (PDict []))) (\<lambda>annotations.
     bnd (bnd (bnd (jgetd pod ''volumes'' (PList [])) jiter) (mapM volume_item)) (\<lambda>volumes.
     bnd (bnd (bnd (jgetd container ''volumeMounts'' (PList [])) jiter) (mapM (mount_rule label volumes))) (\<lambda>mounts.
     bnd (c8s_rules annotations container label release) (\<lambda>added.
     bnd (cdi_rules container label cdi) (\<lambda>devices.
       order_rules label (mounts @ added @ devices)))))))))"

section \<open>The CDI record\<close>

definition bad_cdi_mount :: "pyv \<Rightarrow> bool res" where
  "bad_cdi_mount rule =
     orsM [bnd (jget rule ''kind'') (\<lambda>v. Inr (v \<noteq> PStr ''nodeRootFile'')),
           bnd (jget rule ''readOnly'') (\<lambda>v. Inr (v \<noteq> PBool True)),
           bnd (jget rule ''source'') (\<lambda>v. Inr (\<not> truthy v)),
           bnd (jget rule ''destination'') (\<lambda>v. Inr (\<not> truthy v))]"

definition read_cdi :: "repo_env \<Rightarrow> pyv \<Rightarrow> string \<Rightarrow> pyv option res" where
  "read_cdi env pol node_image =
     bnd (jget pol ''cdi'') (\<lambda>cdi.
       if cdi = PNone then Inr None
       else bnd (bnd (jidx cdi ''input'') arg_text) (\<lambda>f.
         let p = join_path (repo_root env) f in
         if \<not> is_file env p then Inr None
         else bnd (read_json env p) (\<lambda>v.
              bnd (jget v ''driverVersion'') (\<lambda>driver.
              bnd (jidx cdi ''driverVersion'') (\<lambda>pinned.
              bnd (raise_if (\<not> py_eq driver pinned)
                     (generation_error (f @ '' records a different driver version''))) (\<lambda>_.
              bnd (bnd (jgetd v ''nodeImages'' (PList [])) (jin node_image)) (\<lambda>holds.
              bnd (raise_if (\<not> holds)
                     (generation_error (f @ '' does not hold for the node image '' @ node_image))) (\<lambda>_.
              bnd (bnd (jidx v ''mounts'') jiter) (\<lambda>mounts.
              bnd (for_each (\<lambda>rule. raise_ifM (bad_cdi_mount rule)
                     (generation_error (f @ '' has a mount that is not a read-only nodeRootFile rule''))) mounts) (\<lambda>_.
                Inr (Some v)))))))))))"

section \<open>Injected containers and exits\<close>

definition argv0 :: "pyv \<Rightarrow> pyv res" where
  "argv0 container =
     bnd (jgetd container ''command'' (PDict [])) (\<lambda>cmd.
     bnd (jget cmd ''policy'') (\<lambda>pol.
     bnd (if pol = PStr ''exact'' then bnd (jget cmd ''argv'') (\<lambda>a. Inr (truthy a)) else Inr False) (\<lambda>b.
       if b then bnd (jidx cmd ''argv'') (\<lambda>a. jnth a 0) else Inr PNone)))"

definition INJECTED_ENTRYPOINTS :: "string list" where
  "INJECTED_ENTRYPOINTS = [''get-cert'', ''get-secret'', ''get-volume'', ''/c8s'']"

definition INJECTED_NAMES :: "string list" where
  "INJECTED_NAMES = [''c8s-cert'', ''c8s-cert-wait'', ''c8s-secret'', ''c8s-volume'']"

definition INJECTED_MODES :: "string list" where
  "INJECTED_MODES = [''get-cert'', ''probe-file'', ''get-secret'', ''get-volume'']"

definition is_carved_out :: "pyv \<Rightarrow> string list \<Rightarrow> pyv \<Rightarrow> bool res" where
  "is_carved_out container core_digests release =
     bnd (bnd (jget container ''image'') split_image) (\<lambda>(_, digest).
     bnd (bnd (jget container ''command'') (\<lambda>c. Inr (py_or c (PList [])))) (\<lambda>cmd.
     bnd (c8s_at_least release [0, 41, 0]) (\<lambda>by_name.
       if by_name
       then bnd (bnd (jget container ''args'') (\<lambda>a. py_add cmd (py_or a (PList [])))) (\<lambda>argv.
         if digest \<notin> set core_digests then Inr False
         else bnd (bnd (jget container ''name'') (\<lambda>n. in_strs n INJECTED_NAMES)) (\<lambda>named.
           if \<not> named then Inr False
           else bnd (jlen argv) (\<lambda>n.
             if n < 2 then Inr False
             else bnd (jnth argv 0) (\<lambda>program.
               if program \<noteq> PStr ''/c8s'' then Inr False
               else bnd (jnth argv 1) (\<lambda>mode. in_strs mode INJECTED_MODES)))))
       else if digest \<in> set core_digests \<and> truthy cmd
       then bnd (jnth cmd 0) (\<lambda>program. Inr (program \<in> PStr ` set INJECTED_ENTRYPOINTS))
       else Inr False)))"

definition egress_exit :: "pyv \<Rightarrow> pyv \<Rightarrow> (pyv \<times> pyv) res" where
  "egress_exit item alias =
     bnd (jidx alias ''ip'') (\<lambda>ip.
     bnd (bnd (jidx item ''egress'') (\<lambda>e. jidx e ''port'')) (\<lambda>port.
       let cidr = PStr (py_str ip @ ''/32'') in Inr (cidr, PDict [(''cidr'', cidr), (''port'', port)])))"

text \<open>All exits of an item have one port, so their order is that of the addresses.\<close>

definition declared_egress :: "pyv \<Rightarrow> pyv \<Rightarrow> pyv list res" where
  "declared_egress controller item =
     bnd (jin ''egress'' item) (\<lambda>declared.
       if \<not> declared then Inr []
       else bnd (bnd (pod_spec controller) (\<lambda>pod. jgetd pod ''hostAliases'' (PList []))) (\<lambda>aliases.
         if truthy aliases then bnd (bnd (jiter aliases) (mapM (egress_exit item))) py_sorted
         else bnd (jidx item ''controller'') (\<lambda>c.
           Inl (generation_error (py_str c @ '': declares egress, and its pod has no hostAliases address'')))))"

section \<open>Expansion of variables\<close>

text \<open>The expansion of what is left of the text, without positions.\<close>

function expansion :: "pydict \<Rightarrow> string \<Rightarrow> pyv list" where
  "expansion known [] = []"
| "expansion known (c # s) =
     (if c = dollar \<and> s \<noteq> [] \<and> hd s = dollar then PStr [dollar] # expansion known (tl s)
      else case (if c = dollar \<and> s \<noteq> [] \<and> hd s = CHR ''('' then str_find '')'' (tl s) else None) of
          Some n \<Rightarrow>
            (if fullmatch VAR_NAME (take n (tl s))
             then (case map_of known (take n (tl s)) of
                     None \<Rightarrow> PStr (take (n + 3) (c # s)) | Some w \<Rightarrow> w)
                  # expansion known (drop (n + 1) (tl s))
             else PStr [c] # expansion known s)
        | None \<Rightarrow> PStr [c] # expansion known s)"
  by pat_completeness auto
termination
  by (relation "measure (\<lambda>(known, s). length s)") auto

declare expansion.simps(2) [simp del]

lemma expand_from_expansion: "expand_from v known index = expansion known (drop index v)"
proof (induction v known index rule: expand_from.induct)
  case (1 v known index)
  show ?case
  proof (cases "index < length v")
    case False
    then show ?thesis by (simp add: expand_from.simps)
  next
    case True
    then have d: "drop index v = v ! index # drop (Suc index) v" by (simp add: Cons_nth_drop_Suc)
    have h: "drop (Suc index) v \<noteq> [] \<longleftrightarrow> index + 1 < length v"
      "index + 1 < length v \<Longrightarrow> hd (drop (Suc index) v) = v ! (index + 1)"
      by (auto simp: hd_drop_conv_nth)
    have t: "tl (drop (Suc index) v) = drop (index + 2) v" by (simp add: drop_Suc tl_drop)
    show ?thesis
      unfolding d using 1 True h
      by (subst expand_from.simps, subst expansion.simps(2))
        (auto simp: t d Let_def numeral_3_eq_3 add.commute add.left_commute split: option.split)
  qed
qed


datatype piece = Chars string | Dollar | Var string

fun written :: "piece \<Rightarrow> string" where
  "written (Chars s) = s"
| "written Dollar = [dollar, dollar]"
| "written (Var name) = [dollar, CHR ''(''] @ name @ '')''"

fun meaning :: "pydict \<Rightarrow> piece \<Rightarrow> string res" where
  "meaning known (Chars s) = Inr s"
| "meaning known Dollar = Inr [dollar]"
| "meaning known (Var name) =
     (case map_of known name of None \<Rightarrow> Inr (written (Var name)) | Some w \<Rightarrow> arg_text w)"

fun piece_ok :: "piece \<Rightarrow> bool" where
  "piece_ok (Chars s) = (dollar \<notin> set s)"
| "piece_ok Dollar = True"
| "piece_ok (Var name) = fullmatch VAR_NAME name"

lemma VAR_NAME_chars: "fullmatch VAR_NAME name \<Longrightarrow> CHR '')'' \<notin> set name"
  by (auto simp: VAR_NAME_def fullmatch_Seq fullmatch_chr fullmatch_star_class list_all_iff is_upper_def
      is_lower_def is_digit_def dest!: bspec [where x = "CHR '')''"])

lemma expansion_chars: "dollar \<notin> set s \<Longrightarrow> expansion known (s @ t) = map (\<lambda>c. PStr [c]) s @ expansion known t"
  by (induction s) (auto simp: expansion.simps(2))

lemma expansion_dollar: "expansion known (dollar # dollar # t) = PStr [dollar] # expansion known t"
  by (simp add: expansion.simps(2))

lemma expansion_var:
  assumes "fullmatch VAR_NAME name"
  shows "expansion known ([dollar, CHR ''(''] @ name @ '')'' @ t) =
    (case map_of known name of None \<Rightarrow> PStr (written (Var name)) | Some w \<Rightarrow> w) # expansion known t"
  using assms str_find_char_first [OF VAR_NAME_chars [OF assms], of t]
  by (simp add: expansion.simps(2) dollar_def numeral_3_eq_3 split: option.split)

lemma concat_texts: "bnd (mapM arg_text (map (\<lambda>c. PStr [c]) s @ vs)) (\<lambda>output. Inr (concat output)) =
    bnd (mapM arg_text vs) (\<lambda>output. Inr (s @ concat output))"
  by (induction s) (auto simp: bnd_def split: sum.splits)

lemma expansion_pieces:
  "list_all piece_ok ps \<Longrightarrow>
     bnd (mapM arg_text (expansion known (concat (map written ps)))) (\<lambda>output. Inr (concat output)) =
     bnd (mapM (meaning known) ps) (\<lambda>output. Inr (concat output))"
proof (induction ps)
  case (Cons p ps)
  then show ?case
  proof (cases p)
    case (Chars s)
    have "bnd (mapM arg_text (expansion known (concat (map written (p # ps))))) (\<lambda>output. Inr (concat output)) =
        bnd (mapM arg_text (expansion known (concat (map written ps)))) (\<lambda>output. Inr (s @ concat output))"
      using Cons.prems Chars by (simp add: expansion_chars concat_texts)
    with Cons Chars show ?thesis by (simp add: bnd_def split: sum.splits)
  next
    case Dollar
    with Cons show ?thesis by (simp add: expansion_dollar bnd_def split: sum.splits)
  next
    case (Var name)
    with Cons expansion_var [of name known "concat (map written ps)"] show ?thesis
      by (auto simp: bnd_def split: sum.splits option.splits)
  qed
qed simp

text \<open>
  C32: The loop of \<open>expand\<close> implements the kubelet's substitution.  On a text written as pieces, which are
  characters other than the dollar sign, escaped dollar signs and references to variables, the loop over
  positions returns the concatenation of the meanings of the pieces: the characters, one dollar sign, and
  the value of the variable, or the reference as written when the variable is unknown.  A value that is
  not a string raises \<open>TypeError\<close>.
\<close>

theorem expand_refines_substitution:
  assumes "list_all piece_ok ps"
  shows "expand (concat (map written ps)) known =
    bnd (mapM (meaning known) ps) (\<lambda>output. Inr (concat output))"
  using expansion_pieces [OF assms] by (simp add: expand_def expand_from_expansion)

theorem expand_refines_substitution_witness:
  "expand [dollar, CHR ''('', CHR ''A'', CHR '')'', CHR ''/'', dollar, dollar] [(''A'', PStr ''x'')] = Inr (''x/'' @ [dollar])"
  using expand_refines_substitution [of "[Var ''A'', Chars ''/'', Dollar]" "[(''A'', PStr ''x'')]"]
  by (simp add: dollar_def VAR_NAME_def rx_eval is_upper_def)

section \<open>What the environment of a container is\<close>

text \<open>A value the release pins: the expanded text of the item, the pod name or the namespace.\<close>

definition pinned :: "pyv \<Rightarrow> pyv \<Rightarrow> pyv \<Rightarrow> pyv \<Rightarrow> bool" where
  "pinned controller pol item v \<longleftrightarrow>
     (\<exists>w known s. jidx item ''value'' = Inr w \<and> expand (py_str w) known = Inr s \<and> v = PStr s) \<or>
     pod_name controller = Inr v \<or> bnd (jidx pol ''chart'') (\<lambda>c. jidx c ''namespace'') = Inr v"

lemma env_item_value_pinned: "env_item_value controller pol label defined item = Inr v \<Longrightarrow> pinned controller pol item v"
  unfolding pinned_def by (fastforce simp: env_item_value_def elim!: bndE split: if_splits)

lemma env_item_Inr:
  "env_item controller pol label (defined, env) item = Inr (defined', env') \<longleftrightarrow>
     (\<exists>v name. env_item_value controller pol label defined item = Inr v \<and> jidx item ''name'' = Inr (PStr name) \<and>
        defined' = dset name v defined \<and> env' = dset name v env)"
  by (auto simp: env_item_def bnd_eq_Inr res_simps)

lemma map_of_dset_upd: "map_of (dset k v d) = (map_of d)(k \<mapsto> v)"
  by (auto simp: map_of_dset fun_eq_iff)

lemma env_items:
  assumes "foldM (env_item controller pol label) (defined, env) items = Inr (defined', env')"
    and "map_of env = m ++ map_of defined" "dict_ok env"
    and "\<forall>x v. map_of defined x = Some v \<longrightarrow> P x v"
    and "\<And>item x v. item \<in> set items \<Longrightarrow> jidx item ''name'' = Inr (PStr x) \<Longrightarrow> pinned controller pol item v \<Longrightarrow> P x v"
  shows "map_of env' = m ++ map_of defined' \<and> dict_ok env' \<and> (\<forall>x v. map_of defined' x = Some v \<longrightarrow> P x v)"
  using assms
proof (induction items arbitrary: defined env)
  case (Cons item items)
  obtain v name where i: "env_item_value controller pol label defined item = Inr v" "jidx item ''name'' = Inr (PStr name)"
    "foldM (env_item controller pol label) (dset name v defined, dset name v env) items = Inr (defined', env')"
    using Cons.prems(1) by (auto elim!: bndE simp: env_item_Inr)
  have "P name v" using Cons.prems(5) [of item] env_item_value_pinned [OF i(1)] i(2) by simp
  moreover have "map_of (dset name v env) = m ++ map_of (dset name v defined)"
    unfolding map_of_dset_upd Cons.prems(2) by simp
  ultimately show ?case
  proof (intro Cons.IH [OF i(3)])
    show "dict_ok (dset name v env)" using Cons.prems(3) by (rule dict_ok_dset)
    show "\<forall>x w. map_of (dset name v defined) x = Some w \<longrightarrow> P x w"
      using Cons.prems(4) \<open>P name v\<close> by (auto simp: map_of_dset)
    show "P x w" if "it \<in> set items" "jidx it ''name'' = Inr (PStr x)" "pinned controller pol it w" for it x w
      using Cons.prems(5) [of it] that by simp
  qed
qed simp

text \<open>What \<open>cdi["env"]\<close> adds to a container that requests GPUs.\<close>

definition device_env :: "pyv \<Rightarrow> pyv option \<Rightarrow> pydict \<Rightarrow> bool" where
  "device_env container cdi e \<longleftrightarrow>
     (requests_gpu container = Inr True \<and> (\<exists>c. cdi = Some c \<and> bnd (jidx c ''env'') jitems = Inr e)) \<or>
     (requests_gpu container = Inr False \<and> e = [])"

lemma map_of_dupdate_add: "map_of (dupdate d e) = map_of d ++ map_of (rev e)"
  by (auto simp: fun_eq_iff map_of_dupdate map_add_def split: option.splits)

lemma cdi_env_Inr:
  "cdi_env container label cdi env = Inr env' \<Longrightarrow> \<exists>e. device_env container cdi e \<and> env' = dupdate env e"
  by (fastforce simp: cdi_env_def device_env_def dupdate_def elim!: bndE split: if_splits option.splits)

lemma kubernetes_env_ok: "dict_ok (kubernetes_env h)"
  by (simp add: kubernetes_env_def dict_ok_def Let_def)

lemma image_env_list_ok: "image_env_list vs = Inr env \<Longrightarrow> dict_ok env"
proof -
  have "foldM image_env_item d items = Inr env \<Longrightarrow> dict_ok d \<Longrightarrow> dict_ok env" for d items
    by (induction items arbitrary: d)
      (auto simp: image_env_item_def dict_ok_dset elim!: bndE split: if_splits prod.splits)
  then show "image_env_list vs = Inr env \<Longrightarrow> dict_ok env"
    by (auto simp: image_env_list_def dict_ok_def elim!: bndE)
qed

lemma base_env_Inr:
  assumes "base_env controller container label image_env pol = Inr env"
  shows "\<exists>img config vs from_image hostname host. jidx container ''image'' = Inr (PStr img) \<and>
    map_of image_env img = Some config \<and> jidx config ''env'' = Inr vs \<and> image_env_list vs = Inr from_image \<and>
    pod_name controller = Inr hostname \<and> bnd (jidx pol ''kubernetes'') (\<lambda>k. jidx k ''serviceHost'') = Inr host \<and>
    map_of env = map_of from_image ++ [''HOSTNAME'' \<mapsto> hostname] ++ map_of (kubernetes_env host) \<and> dict_ok env"
proof -
  obtain i r vs from_image hostname host where b: "jidx container ''image'' = Inr i" "in_strs i (dkeys image_env) = Inr True"
    "dget image_env i PNone = Inr r" "jidx r ''env'' = Inr vs" "image_env_list vs = Inr from_image"
    "pod_name controller = Inr hostname" "bnd (jidx pol ''kubernetes'') (\<lambda>k. jidx k ''serviceHost'') = Inr host"
    "env = dupdate (dset ''HOSTNAME'' hostname from_image) (kubernetes_env host)"
    using assms unfolding base_env_def by (auto simp: raise_if_eq_Inr elim!: bndE)
  obtain img where "i = PStr img" "img \<in> set (dkeys image_env)"
    using b(2) by (auto simp: in_strs_def split: if_splits)
  then have "map_of image_env img = Some r"
    using b(3) by (auto simp: dget_def dkeys_def split: option.splits dest: map_of_eq_None_iff [THEN iffD1])
  moreover have "map_of env = map_of from_image ++ [''HOSTNAME'' \<mapsto> hostname] ++ map_of (kubernetes_env host)"
    unfolding b(8) map_of_dupdate_add map_of_rev_ok [OF kubernetes_env_ok] map_of_dset_upd by simp
  moreover have "dict_ok env"
    unfolding b(8) by (intro dict_ok_dupdate dict_ok_dset image_env_list_ok [OF b(5)])
  ultimately show ?thesis using b \<open>i = PStr img\<close> by auto
qed

lemma map_of_sort_items: "dict_ok d \<Longrightarrow> map_of (sort_items d) = map_of d"
  using dict_ok_sort_items [of d] by (simp add: dict_ok_def map_of_inject_set)

lemma sort_items_keys: "dict_ok d \<Longrightarrow> sorted (dkeys (sort_items d)) \<and> distinct (dkeys (sort_items d))"
  using dict_ok_sort_items [of d] by (simp add: dict_ok_def dkeys_def) (simp add: sort_items_def)


text \<open>An example: a deployment with one container.\<close>

definition example_container :: pyv where
  "example_container = PDict [(''name'', PStr ''app''), (''image'', PStr ''app''),
     (''env'', PList [PDict [(''name'', PStr ''PORT''), (''value'', PStr ''80'')]])]"

definition example_controller :: pyv where
  "example_controller = PDict [(''kind'', PStr ''Deployment''), (''metadata'', PDict [(''name'', PStr ''web'')]),
     (''spec'', PDict [(''template'', PDict [(''spec'', PDict [(''hostname'', PStr ''web''),
        (''enableServiceLinks'', PBool False), (''containers'', PList [example_container])])])])]"

definition example_image_env :: pydict where
  "example_image_env = [(''app'', PDict [(''env'', PList [PStr ''PATH=/bin'']), (''entrypoint'', PList [PStr ''/app''])])]"

definition example_policy :: pyv where
  "example_policy = PDict [(''kubernetes'', PDict [(''serviceHost'', PStr ''10.0.0.1'')])]"

lemma example_container_env:
  "\<exists>env. container_env example_controller example_container example_image_env example_policy None = Inr env"
  by (simp add: container_env_def container_label_def pod_spec_def pod_template_def base_env_def pod_name_def
      image_env_list_def image_env_item_def env_item_def env_item_value_def expand_def expand_from_expansion
      expansion.simps(2) cdi_env_def requests_gpu_def jget_def in_strs_def dget_def dkeys_def example_controller_def example_container_def
      example_image_env_def example_policy_def str_partition_def startswith_def str_of_int_def dollar_def)


section \<open>What the mounts of a container are\<close>

definition dir_rule_of :: "pyv \<Rightarrow> bool" where
  "dir_rule_of rule \<longleftrightarrow> (\<exists>d. rule = empty_dir_rule d)"

lemma dir_rule_of_empty [simp]: "dir_rule_of (empty_dir_rule d)"
  by (auto simp: dir_rule_of_def)

definition data_rule_of :: "pyv \<Rightarrow> bool" where
  "data_rule_of rule \<longleftrightarrow>
     (\<exists>d. startswith d DATA_ROOT \<and> rule = PDict [(''destination'', PStr d), (''kind'', PStr ''data'')])"

text \<open>A host rule of a mount: the pod has a \<open>hostPath\<close> volume of the name, and the rule has its path.\<close>

definition host_rule_of :: "pyv list \<Rightarrow> pyv list \<Rightarrow> pyv \<Rightarrow> bool" where
  "host_rule_of mounts volumes rule \<longleftrightarrow>
     (\<exists>mount \<in> set mounts. \<exists>volume \<in> set volumes. \<exists>destination vname mname.
        jidx mount ''name'' = Inr mname \<and> jidx volume ''name'' = Inr vname \<and> py_eq vname mname \<and>
        jidx mount ''mountPath'' = Inr destination \<and> jin ''hostPath'' volume = Inr True \<and>
        host_rule mount destination volume = Inr rule)"

definition socket_rule_of :: "pyv \<Rightarrow> pyv \<Rightarrow> bool" where
  "socket_rule_of release rule \<longleftrightarrow>
     rule = claims_socket_rule \<and> c8s_at_least release [0, 44, 6] = Inr True \<and>
     c8s_at_least release CLAIMS_SOCKET_PLATFORM_SINCE = Inr False"

definition device_rule_of :: "pyv \<Rightarrow> pyv option \<Rightarrow> pyv \<Rightarrow> bool" where
  "device_rule_of container cdi rule \<longleftrightarrow>
     requests_gpu container = Inr True \<and>
     (\<exists>c ds. cdi = Some c \<and> bnd (jidx c ''mounts'') jiter = Inr ds \<and> rule \<in> set ds)"

lemma data_rule_Inr: "data_rule d label = Inr rule \<Longrightarrow> data_rule_of rule"
  by (auto simp: data_rule_def data_rule_of_def elim!: bndE split: if_splits)

lemma find_member: "find P xs = Some x \<Longrightarrow> x \<in> set xs \<and> P x"
  by (induction xs) (auto split: if_splits)

lemma mount_rule_Inr:
  assumes "mount_rule label named mount = Inr rule" "mapM volume_item volumes = Inr named" "mount \<in> set mounts"
  shows "dir_rule_of rule \<or> data_rule_of rule \<or> host_rule_of mounts volumes rule"
proof -
  have "\<exists>name found destination. jidx mount ''name'' = Inr name \<and> find_volume named name = Inr (Some found) \<and>
      jidx mount ''mountPath'' = Inr destination \<and> (dir_rule_of rule \<or> data_rule_of rule \<or>
      jin ''hostPath'' found = Inr True \<and> host_rule mount destination found = Inr rule)"
    using assms(1) unfolding mount_rule_def
    by (auto elim!: bndE split: option.splits if_splits dest!: data_rule_Inr)
  then obtain name found destination where
    m: "jidx mount ''name'' = Inr name" "find_volume named name = Inr (Some found)"
      "jidx mount ''mountPath'' = Inr destination"
    and r: "dir_rule_of rule \<or> data_rule_of rule \<or>
      jin ''hostPath'' found = Inr True \<and> host_rule mount destination found = Inr rule" by blast
  obtain vname where v: "(vname, found) \<in> set named" "py_eq vname name"
    using m(2) by (auto simp: find_volume_def split: if_splits dest!: find_member)
  obtain volume where "volume \<in> set volumes" "volume_item volume = Inr (vname, found)"
    using mapM_member_rev [OF assms(2) v(1)] by blast
  then have "found \<in> set volumes" "jidx found ''name'' = Inr vname"
    by (auto simp: volume_item_def elim!: bndE split: if_splits)
  then show ?thesis using r m v assms(3) unfolding host_rule_of_def by blast
qed

lemma volume_rules_Inr: "volume_rules annotations label = Inr rules \<Longrightarrow> rule \<in> set rules \<Longrightarrow> data_rule_of rule"
  by (auto simp: volume_rules_def elim!: bndE split: if_splits dest!: mapM_member_rev dest: data_rule_Inr)

lemma socket_rules_Inr: "socket_rules container release = Inr rules \<Longrightarrow> rule \<in> set rules \<Longrightarrow> socket_rule_of release rule"
  by (auto simp: socket_rules_def socket_rule_of_def elim!: bndE split: if_splits)

lemma dir_rules_Inr:
  "cert_rules annotations release = Inr rules \<Longrightarrow> rule \<in> set rules \<Longrightarrow> dir_rule_of rule"
  "secret_rules annotations = Inr rules \<Longrightarrow> rule \<in> set rules \<Longrightarrow> dir_rule_of rule"
  by (auto simp: cert_rules_def secret_rules_def elim!: bndE split: if_splits)

lemma c8s_rules_Inr:
  assumes "c8s_rules annotations container label release = Inr rules" "rule \<in> set rules"
  shows "dir_rule_of rule \<or> data_rule_of rule \<or> socket_rule_of release rule"
proof -
  obtain a b c d where "cert_rules annotations release = Inr a" "secret_rules annotations = Inr b"
    "volume_rules annotations label = Inr c" "socket_rules container release = Inr d" "rule \<in> set (a @ b @ c @ d)"
    using assms unfolding c8s_rules_def by (auto elim!: bndE split: if_splits)
  then show ?thesis using dir_rules_Inr volume_rules_Inr socket_rules_Inr by (metis Un_iff set_append)
qed

lemma cdi_rules_Inr:
  "cdi_rules container label cdi = Inr rules \<Longrightarrow> rule \<in> set rules \<Longrightarrow> device_rule_of container cdi rule"
  by (auto simp: cdi_rules_def device_rule_of_def elim!: bndE split: if_splits option.splits)

lemma length_dedup: "length (dedup xs) \<le> length xs"
proof (induction xs)
  case (Cons x xs)
  then show ?case using length_filter_le [of "\<lambda>y. \<not> py_eq x y" "dedup xs"] by (simp del: length_filter_le)
qed simp

lemma dedup_length_eq: "length (dedup xs) = length xs \<Longrightarrow> dedup xs = xs \<and> sorted_wrt (\<lambda>x y. \<not> py_eq x y) xs"
proof (induction xs)
  case (Cons x xs)
  let ?f = "filter (\<lambda>y. \<not> py_eq x y) (dedup xs)"
  have "length ?f \<le> length (dedup xs)" by (rule length_filter_le)
  with Cons.prems length_dedup [of xs] have l: "length (dedup xs) = length xs" "length ?f = length (dedup xs)" by simp_all
  then have "?f = dedup xs" by (metis filter_True length_filter_less linorder_neq_iff)
  with Cons.IH [OF l(1)] show ?case by (auto simp: filter_id_conv)
qed simp

lemma count_insort: "length (filter P (insort_key f x xs)) = length (filter P (x # xs))"
  by (induction xs) auto

lemma count_sort: "length (filter P (sort_key f xs)) = length (filter P xs)"
  by (induction xs) (auto simp: count_insort)

lemma py_sorted_count: "py_sorted xs = Inr ys \<Longrightarrow> length (filter P ys) = length (filter P (map snd xs))"
  by (auto simp: py_sorted_def filter_map count_sort split: if_splits)

text \<open>The ordered rules are the rules, and no two of them have one destination.\<close>

lemma order_rules_Inr:
  assumes "order_rules label rules = Inr ordered"
  shows "set ordered = set rules \<and> length ordered = length rules \<and>
    (\<forall>d. length (filter (\<lambda>r. jidx r ''destination'' = Inr (PStr d)) ordered) \<le> 1)"
proof -
  obtain ds where d: "mapM (\<lambda>rule. jidx rule ''destination'') rules = Inr ds" "list_all hashable ds"
    "length (dedup ds) = length ds" "py_sorted (zip ds rules) = Inr ordered"
    using assms unfolding order_rules_def py_set_def by (auto simp: raise_if_eq_Inr elim!: bndE split: if_splits)
  have l: "length ds = length rules" using d(1) by (rule mapM_length)
  have f: "length (filter (\<lambda>r. jidx r ''destination'' = Inr (PStr x)) rules) \<le> 1" for x
    using d(1) dedup_length_eq [OF d(3), THEN conjunct2]
  proof (induction rules arbitrary: ds)
    case (Cons r rules)
    obtain v vs where v: "jidx r ''destination'' = Inr v" "mapM (\<lambda>rule. jidx rule ''destination'') rules = Inr vs" "ds = v # vs"
      using Cons.prems(1) by (auto elim!: bndE)
    with Cons.prems(2) have w: "sorted_wrt (\<lambda>x y. \<not> py_eq x y) vs" "\<forall>u \<in> set vs. \<not> py_eq v u" by simp_all
    have "jidx r' ''destination'' \<noteq> Inr (PStr x)" if "v = PStr x" "r' \<in> set rules" for r'
      using mapM_member [OF v(2) that(2)] w(2) that(1) by auto
    then have "v = PStr x \<Longrightarrow> filter (\<lambda>r. jidx r ''destination'' = Inr (PStr x)) rules = []"
      by (simp add: filter_empty_conv)
    then show ?case using Cons.IH [OF v(2) w(1)] v(1) by auto
  qed simp
  show ?thesis
    using py_sorted_set [OF d(4)] py_sorted_length [OF d(4)] py_sorted_count [OF d(4)] f l
    by (simp add: set_zip_rightD map_snd_zip flip: list.set_map)
qed


lemma example_container_mounts: "container_mounts example_controller example_container None (PStr ''v0.66.0'') = Inr []"
  by (simp add: container_mounts_def container_label_def pod_template_def example_controller_def example_container_def
      c8s_rules_def cdi_rules_def requests_gpu_def order_rules_def py_set_def py_sorted_def)


end
