(* ===== verification/Py_Path.thy ===== *)
theory Py_Path
  imports Repo_Env
begin

text \<open>
  \<open>posixpath.normpath\<close>: empty and dot components go, a double dot removes the component before it, and
  exactly two leading slashes stay.
\<close>

definition leading_slashes :: "string \<Rightarrow> nat" where
  "leading_slashes s =
     (if startswith s ''//'' \<and> \<not> startswith s ''///'' then 2 else if startswith s ''/'' then 1 else 0)"

definition norm_step :: "bool \<Rightarrow> string list \<Rightarrow> string \<Rightarrow> string list" where
  "norm_step rooted comps c =
     (if c = [] \<or> c = ''.'' then comps
      else if c \<noteq> ''..'' \<or> (\<not> rooted \<and> comps = []) \<or> (comps \<noteq> [] \<and> last comps = ''..'') then comps @ [c]
      else butlast comps)"

definition normpath :: "string \<Rightarrow> string" where
  "normpath s =
     (let comps = foldl (norm_step (0 < leading_slashes s)) [] (split_char (CHR ''/'') s);
          r = replicate (leading_slashes s) (CHR ''/'') @ str_join ''/'' comps
      in if s = [] \<or> r = [] then ''.'' else r)"

end
