(* ===== verification/Stack_Snapshots.thy ===== *)
theory Stack_Snapshots
  imports Pair_Events Allowlist_Rules Py_Path "HOL-Library.Product_Lexorder"
begin

text \<open>
  \<open>images/sglang/pair_diagnostics.py\<close>: the collector of code-only stack snapshots.  The greeting of a worker,
  the reader of its stack text, the request of a snapshot and its export.  The threads of the collector are
  interleaved actions on one state, where a received chunk is one action; what the kernel answers (peer credentials,
  received bytes, files, the clock) comes with the action.
\<close>

section \<open>The catalog of code locations\<close>

definition ROOTS :: "(string \<times> string) list" where
  "ROOTS =
     [(''/opt/sglang/python/sglang'', ''sglang''),
      (''/opt/dsv41/lib/python3.12/site-packages/torch'', ''torch''),
      (''/opt/dsv41/lib/python3.12/site-packages/uvicorn'', ''uvicorn''),
      (''/opt/dsv41/lib/python3.12/site-packages/zmq'', ''zmq''),
      (''/usr/lib/python3.12'', ''python'')]"

text \<open>What \<open>lstat\<close> tells of a file: whether it is regular, its owner and its permission bits.\<close>

record lstat_info =
  i_regular :: bool
  i_uid :: nat
  i_mode :: nat

definition writable_by_others :: "nat \<Rightarrow> bool" where
  "writable_by_others mode = (bit mode 4 \<or> bit mode 1)"

definition catalogued :: "lstat_info \<Rightarrow> bool" where
  "catalogued info = (i_regular info \<and> i_uid info = 0 \<and> \<not> writable_by_others (i_mode info))"

text \<open>
  \<open>installed d\<close> is \<open>None\<close> when \<open>d\<close> is no directory, and otherwise the relative paths that \<open>rglob("*.py")\<close>
  yields, each with the answer of \<open>lstat\<close> (\<open>None\<close> for an \<open>OSError\<close>).
\<close>

type_synonym installed = "string \<Rightarrow> (string \<times> lstat_info option) list option"

definition catalog_entry :: "string \<Rightarrow> string \<Rightarrow> string \<times> lstat_info option \<Rightarrow> (string \<times> string) option" where
  "catalog_entry root_dir label f =
     (case snd f of
        Some info \<Rightarrow> if catalogued info then Some (root_dir @ ''/'' @ fst f, label @ ''/'' @ fst f) else None
      | None \<Rightarrow> None)"

definition code_catalog :: "installed \<Rightarrow> (string \<times> string) list" where
  "code_catalog installed =
     foldl (\<lambda>result r. case r of (root_dir, label) \<Rightarrow>
        (case installed root_dir of
           None \<Rightarrow> result
         | Some fs \<Rightarrow> dupdate result (List.map_filter (catalog_entry root_dir label) fs))) [] ROOTS"

definition required_locations :: "string list" where
  "required_locations =
     [''sglang/srt/managers/scheduler.py'',
      ''sglang/srt/layers/engram_staging.py'',
      ''sglang/srt/distributed/parallel_state.py'',
      ''sglang/srt/distributed/device_communicators/pynccl_wrapper.py'',
      ''torch/distributed/distributed_c10d.py'']"

definition verify_catalog :: "installed \<Rightarrow> unit res" where
  "verify_catalog installed =
     raise_if (\<not> set required_locations \<subseteq> set (map snd (code_catalog installed)))
       (Exn RuntimeError ''required diagnostic code locations are missing'')"

section \<open>Stack text\<close>

definition rx_hex :: rx where
  "rx_hex = rx_plus (RChr (\<lambda>c. is_digit c \<or> c \<in> set ''abcdefABCDEF''))"

definition HEADER :: rx where
  "HEADER =
     RSeq (RAlt (rx_lit ''Current thread'') (rx_lit ''Thread''))
       (RSeq (rx_lit '' 0x'') (RSeq rx_hex (RSeq (RStar (RChr (\<lambda>c. c \<noteq> CHR 0x0A))) (rx_lit '':''))))"

definition path_text :: "char \<Rightarrow> bool" where
  "path_text c = (c \<noteq> dquote \<and> c \<noteq> CHR 0x0D \<and> c \<noteq> CHR 0x0A)"

definition frame_open :: string where
  "frame_open = ''  File '' @ [dquote]"

definition frame_line :: string where
  "frame_line = dquote # '', line ''"

definition FRAME :: rx where
  "FRAME =
     RSeq (rx_lit frame_open) (RSeq (rx_plus (RChr path_text)) (RSeq (rx_lit frame_line)
       (RSeq (rx_plus (RChr is_digit)) (RSeq (rx_lit '' in '') (RStar (RChr (\<lambda>c. c \<noteq> CHR 0x0D \<and> c \<noteq> CHR 0x0A)))))))"

text \<open>The groups of a frame line: the path ends at the quote, the number at the first character that is no digit.\<close>

definition frame_path :: "string \<Rightarrow> string" where
  "frame_path line = takeWhile (\<lambda>c. c \<noteq> dquote) (drop (length frame_open) line)"

definition frame_number :: "string \<Rightarrow> string" where
  "frame_number line =
     takeWhile is_digit (drop (length frame_open + length (frame_path line) + length frame_line) line)"

section \<open>State\<close>

type_synonym rank_key = "string \<times> int"

type_synonym row = "bool \<times> int \<times> string \<times> int"

text \<open>
  The attributes of \<open>StackSnapshots\<close> that change; a \<open>defaultdict\<close> is a total function.  \<open>sn_readers\<close> holds the
  connections that took a slot of the semaphore.
\<close>

record snapshots =
  sn_peers :: "rank_key \<Rightarrow> (int \<times> nat) option"
  sn_frames :: "rank_key \<Rightarrow> row list"
  sn_rejected :: "rank_key \<Rightarrow> nat"
  sn_requested :: bool
  sn_active :: bool
  sn_acks :: "rank_key list"
  sn_readers :: "nat list"
  sn_stop :: bool

definition new_snapshots :: snapshots where
  "new_snapshots =
     \<lparr>sn_peers = (\<lambda>_. None), sn_frames = (\<lambda>_. []), sn_rejected = (\<lambda>_. 0), sn_requested = False, sn_active = False,
      sn_acks = [], sn_readers = [], sn_stop = False\<rparr>"

definition reject :: "rank_key \<Rightarrow> snapshots \<Rightarrow> snapshots" where
  "reject key s = s\<lparr>sn_rejected := (sn_rejected s)(key := Suc (sn_rejected s key))\<rparr>"

text \<open>The local variables of \<open>_read\<close> once the greeting is over.\<close>

record reader =
  rd_key :: rank_key
  rd_buffer :: string
  rd_total :: nat
  rd_thread :: int
  rd_current :: bool

definition new_reader :: "rank_key \<Rightarrow> reader" where
  "new_reader key = \<lparr>rd_key = key, rd_buffer = [], rd_total = 0, rd_thread = -1, rd_current = False\<rparr>"

section \<open>Greeting\<close>

text \<open>
  One iteration of a loop that reads byte by byte: a byte, a timeout, or the end of the stream.  A list of
  outcomes stands for the iterations the clock leaves before the deadline.
\<close>

datatype recv_byte = Got char | Timed_Out | Closed

text \<open>The bytes read and the outcomes left, or \<open>None\<close> when the stream ended.\<close>

fun read_bytewise :: "(string \<Rightarrow> bool) \<Rightarrow> recv_byte list \<Rightarrow> string \<Rightarrow> (string \<times> recv_byte list) option" where
  "read_bytewise room [] acc = Some (acc, [])"
| "read_bytewise room (r # rs) acc =
     (if CHR 0x0A \<in> set acc \<or> \<not> room acc then Some (acc, r # rs)
      else (case r of
              Got c \<Rightarrow> read_bytewise room rs (acc @ [c])
            | Timed_Out \<Rightarrow> read_bytewise room rs acc
            | Closed \<Rightarrow> None))"

text \<open>What a new connection brings: the credentials of the peer, its bytes, and its rank file.\<close>

record connection =
  cn_pid :: int
  cn_uid :: nat
  cn_recv :: "recv_byte list"
  cn_size :: "rank_key \<Rightarrow> nat res"
  cn_text :: "rank_key \<Rightarrow> string res"

definition hello_key :: "rank_key list \<Rightarrow> pyv \<Rightarrow> rank_key option res" where
  "hello_key ranks hello =
     (case hello of
        PDict d \<Rightarrow>
          if \<not> same_keys (dkeys d) [''role'', ''rank''] then Inr None
          else (case (map_of d ''role'', map_of d ''rank'') of
                  (Some (PStr role), Some (PInt rank)) \<Rightarrow>
                    Inr (if (role, rank) \<in> set ranks then Some (role, rank) else None)
                | _ \<Rightarrow> Inr None)
      | _ \<Rightarrow> Inr None)"

definition rank_file_matches :: "connection \<Rightarrow> rank_key \<Rightarrow> bool res" where
  "rank_file_matches c key =
     bnd (cn_size c key) (\<lambda>size.
       if size > 1024 then Inr False
       else bnd (bnd (bnd (cn_text c key) loads) (\<lambda>v. jget v ''pid'')) (\<lambda>p. Inr (py_eq p (PInt (cn_pid c)))))"

definition greeting_body :: "nat \<Rightarrow> rank_key list \<Rightarrow> connection \<Rightarrow> rank_key option res" where
  "greeting_body uid ranks c =
     (if cn_uid c \<noteq> uid then Inr None
      else (case read_bytewise (\<lambda>b. length b \<le> 256) (cn_recv c) [] of
              None \<Rightarrow> Inr None
            | Some (header, rest) \<Rightarrow>
                bnd (bnd (loads_bytes header) (hello_key ranks)) (\<lambda>k.
                  case k of
                    None \<Rightarrow> Inr None
                  | Some key \<Rightarrow>
                      bnd (rank_file_matches c key) (\<lambda>ok.
                        if \<not> ok then Inr None
                        else (case read_bytewise (\<lambda>b. length b < 16) rest [] of
                                None \<Rightarrow> Inr None
                              | Some (ready, _) \<Rightarrow> Inr (if ready = ''ready'' @ [CHR 0x0A] then Some key else None))))))"

text \<open>The greeting with the handler of \<open>_read\<close>: these classes end the reader without a word, others escape.\<close>

definition greeting :: "nat \<Rightarrow> rank_key list \<Rightarrow> connection \<Rightarrow> rank_key option res" where
  "greeting uid ranks c =
     try_except (greeting_body uid ranks c) [OSError, ValueError, TypeError, KeyError] (\<lambda>_. Inr None)"

section \<open>Reading\<close>

definition frame_row :: "(string \<times> string) list \<Rightarrow> reader \<Rightarrow> string \<Rightarrow> row option" where
  "frame_row catalog r line =
     (let number = (if length (frame_number line) \<le> 7 then int (nat_of_digits (frame_number line)) else 0) in
      case map_of catalog (normpath (frame_path line)) of
        None \<Rightarrow> None
      | Some location \<Rightarrow>
          if \<not> (1 \<le> number \<and> number \<le> 1000000) \<or> rd_thread r < 0 then None
          else Some (rd_current r, rd_thread r, location, number))"

definition add_row :: "rank_key \<Rightarrow> row \<Rightarrow> snapshots \<Rightarrow> snapshots" where
  "add_row key row s =
     (if length (sn_frames s key) < 2048
      then s\<lparr>sn_frames := (sn_frames s)(key := sn_frames s key @ [row])\<rparr>
      else reject key s)"

definition read_line :: "(string \<times> string) list \<Rightarrow> string \<Rightarrow> reader \<times> snapshots \<Rightarrow> reader \<times> snapshots" where
  "read_line catalog raw st =
     (case st of (r, s) \<Rightarrow>
        if length raw > 2048 then (r, reject (rd_key r) s)
        else let line = decode_replace raw in
          if fullmatch HEADER line
          then (r\<lparr>rd_thread := rd_thread r + 1, rd_current := startswith line ''Current thread''\<rparr>, s)
          else if \<not> fullmatch FRAME line then (r, s)
          else (case frame_row catalog r line of
                  None \<Rightarrow> (r, reject (rd_key r) s)
                | Some row \<Rightarrow> (r, add_row (rd_key r) row s)))"

text \<open>The loop over the complete lines of the buffer; what is left has no newline.\<close>

function read_lines :: "(string \<times> string) list \<Rightarrow> string \<Rightarrow> reader \<times> snapshots \<Rightarrow> string \<times> reader \<times> snapshots" where
  "read_lines catalog buf st =
     (if CHR 0x0A \<notin> set buf then (buf, st)
      else read_lines catalog (tl (dropWhile (\<lambda>c. c \<noteq> CHR 0x0A) buf))
             (read_line catalog (takeWhile (\<lambda>c. c \<noteq> CHR 0x0A) buf) st))"
  by pat_completeness auto
termination
  by (relation "measure (\<lambda>(_, buf, _). length buf)") (auto simp: dropWhile_eq_drop intro: diff_less length_pos_if_in_set)

definition read_chunk :: "(string \<times> string) list \<Rightarrow> string \<Rightarrow> reader \<times> snapshots \<Rightarrow> reader \<times> snapshots" where
  "read_chunk catalog data st =
     (case st of (r, s) \<Rightarrow>
        if \<not> sn_active s then (r, s)
        else let r = r\<lparr>rd_total := rd_total r + length data\<rparr> in
          if rd_total r > 262144 then (r, reject (rd_key r) s)
          else (case read_lines catalog (rd_buffer r @ data) (r, s) of (left, r, s) \<Rightarrow>
            if length left > 2048 then (r\<lparr>rd_buffer := []\<rparr>, reject (rd_key r) s)
            else (r\<lparr>rd_buffer := left\<rparr>, s)))"

section \<open>The collector\<close>

text \<open>The shared state and the readers that are past their greeting, by connection.\<close>

type_synonym collector = "snapshots \<times> (nat \<Rightarrow> reader option)"

text \<open>
  What the collector does to the outside: a signal to a worker (a wake-up byte on its connection follows it), or a call
  of \<open>emit\<close>.
\<close>

datatype effect = Signal int | Emit string string pydict

definition slots :: "rank_key list \<Rightarrow> nat" where
  "slots ranks = max 1 (card (set ranks) * 2)"

text \<open>\<open>_accept\<close>: a connection with no free slot is closed at once.\<close>

definition accept_connection :: "rank_key list \<Rightarrow> nat \<Rightarrow> collector \<Rightarrow> collector" where
  "accept_connection ranks c st =
     (case st of (s, rs) \<Rightarrow>
        if sn_stop s \<or> length (sn_readers s) \<ge> slots ranks then (s, rs) else (s\<lparr>sn_readers := c # sn_readers s\<rparr>, rs))"

text \<open>The end of \<open>_read\<close>: the peer goes when it is this connection's, and the slot is free again.\<close>

definition end_reader :: "nat \<Rightarrow> collector \<Rightarrow> collector" where
  "end_reader c st =
     (case st of (s, rs) \<Rightarrow>
        (case rs c of
           None \<Rightarrow> (s\<lparr>sn_readers := remove1 c (sn_readers s)\<rparr>, rs)
         | Some r \<Rightarrow>
             let own = (case sn_peers s (rd_key r) of Some (_, d) \<Rightarrow> d = c | None \<Rightarrow> False) in
             (s\<lparr>sn_peers := (if own then (sn_peers s)(rd_key r := None) else sn_peers s),
                sn_readers := remove1 c (sn_readers s)\<rparr>, rs(c := None))))"

definition register :: "nat \<Rightarrow> rank_key list \<Rightarrow> nat \<Rightarrow> connection \<Rightarrow> collector \<Rightarrow> collector" where
  "register uid ranks c conn st =
     (case st of (s, rs) \<Rightarrow>
        (case greeting uid ranks conn of
           Inr (Some key) \<Rightarrow>
             if sn_peers s key \<noteq> None then end_reader c (s, rs)
             else (s\<lparr>sn_peers := (sn_peers s)(key := Some (cn_pid conn, c))\<rparr>, rs(c := Some (new_reader key)))
         | _ \<Rightarrow> end_reader c (s, rs)))"

definition receive_data :: "(string \<times> string) list \<Rightarrow> nat \<Rightarrow> string \<Rightarrow> collector \<Rightarrow> collector" where
  "receive_data catalog c data st =
     (case st of (s, rs) \<Rightarrow>
        (case rs c of
           None \<Rightarrow> (s, rs)
         | Some r \<Rightarrow>
             if sn_stop s \<or> data = [] then end_reader c (s, rs)
             else (case read_chunk catalog data (r, s) of (r, s) \<Rightarrow> (s, rs(c := Some r)))))"

definition signal_peer :: "snapshots \<Rightarrow> (rank_key \<Rightarrow> int option) \<Rightarrow> rank_key \<Rightarrow> effect list" where
  "signal_peer s known key =
     (case sn_peers s key of
        Some (pid, _) \<Rightarrow> if known key = Some pid then [Signal pid] else []
      | None \<Rightarrow> [])"

definition sorted_ranks :: "rank_key list \<Rightarrow> rank_key list" where
  "sorted_ranks ranks = sort (remdups ranks)"

definition request :: "rank_key list \<Rightarrow> (rank_key \<Rightarrow> int option) \<Rightarrow> snapshots \<Rightarrow> snapshots \<times> effect list" where
  "request ranks known s =
     (if sn_requested s then (s, [])
      else (s\<lparr>sn_requested := True, sn_active := True\<rparr>, concat (map (signal_peer s known) (sorted_ranks ranks))))"

definition acknowledge :: "rank_key list \<Rightarrow> pyv \<Rightarrow> pyv \<Rightarrow> snapshots \<Rightarrow> snapshots" where
  "acknowledge ranks role rank s =
     (case (role, rank) of
        (PStr a, PInt n) \<Rightarrow> if (a, n) \<in> set ranks then s\<lparr>sn_acks := List.insert (a, n) (sn_acks s)\<rparr> else s
      | _ \<Rightarrow> s)"

definition frame_event :: "rank_key \<Rightarrow> nat \<times> row \<Rightarrow> effect" where
  "frame_event key x =
     (case (key, x) of ((role, rank), (index, (_, thread, location, line))) \<Rightarrow>
        Emit ''stack_frame'' role
          [(''rank'', PInt rank), (''thread'', PInt thread), (''frame'', PInt (int index)),
           (''location'', PStr location), (''line'', PInt line)])"

definition rank_events :: "snapshots \<Rightarrow> rank_key \<Rightarrow> effect list" where
  "rank_events s key =
     (let rows = sort_key (\<lambda>row. \<not> fst row) (sn_frames s key) in
      map (frame_event key) (enumerate 0 (take 128 rows)) @
      [Emit (if rows \<noteq> [] then ''stack_dump_complete'' else ''stack_dump_unavailable'') (fst key)
         [(''rank'', PInt (snd key)), (''count'', PInt (int (min (length rows) 128))),
          (''rejected'', PInt (int (sn_rejected s key + (length rows - 128))))]] @
      (if key \<notin> set (sn_acks s) then [Emit ''nccl_snapshot_unavailable'' (fst key) [(''rank'', PInt (snd key)), (''code'', PInt 1)]]
       else []))"

definition finish_snapshot :: "rank_key list \<Rightarrow> snapshots \<Rightarrow> snapshots \<times> effect list" where
  "finish_snapshot ranks s =
     (s\<lparr>sn_active := False, sn_frames := (\<lambda>_. [])\<rparr>, concat (map (rank_events s) (sorted_ranks ranks)))"

text \<open>\<open>close\<close>: the readers end by themselves, as the stop flag is set and their connections are shut down.\<close>

definition close_snapshots :: "snapshots \<Rightarrow> snapshots" where
  "close_snapshots s = s\<lparr>sn_stop := True\<rparr>"

text \<open>One action of one of the threads.  The thread of \<open>_finish\<close> runs once, after the request that started it.\<close>

datatype action =
    Accept nat
  | Greet nat connection
  | Receive nat string
  | Hang_Up nat
  | Request "rank_key \<Rightarrow> int option"
  | Acknowledge pyv pyv
  | Finish
  | Shut_Down

fun collect :: "nat \<Rightarrow> rank_key list \<Rightarrow> (string \<times> string) list \<Rightarrow> action \<Rightarrow> collector \<Rightarrow> collector \<times> effect list" where
  "collect uid ranks catalog (Accept c) st = (accept_connection ranks c st, [])"
| "collect uid ranks catalog (Greet c conn) (s, rs) =
     (if c \<in> set (sn_readers s) \<and> rs c = None then register uid ranks c conn (s, rs) else (s, rs), [])"
| "collect uid ranks catalog (Receive c data) st = (receive_data catalog c data st, [])"
| "collect uid ranks catalog (Hang_Up c) st = (end_reader c st, [])"
| "collect uid ranks catalog (Request known) (s, rs) =
     (case request ranks known s of (s, es) \<Rightarrow> ((s, rs), es))"
| "collect uid ranks catalog (Acknowledge role rank) (s, rs) = ((acknowledge ranks role rank s, rs), [])"
| "collect uid ranks catalog Finish (s, rs) =
     (if sn_active s then (case finish_snapshot ranks s of (s, es) \<Rightarrow> ((s, rs), es)) else ((s, rs), []))"
| "collect uid ranks catalog Shut_Down (s, rs) = ((close_snapshots s, rs), [])"

fun collect_all :: "nat \<Rightarrow> rank_key list \<Rightarrow> (string \<times> string) list \<Rightarrow> action list \<Rightarrow> collector \<Rightarrow> collector \<times> effect list" where
  "collect_all uid ranks catalog [] st = (st, [])"
| "collect_all uid ranks catalog (a # as) st =
     (case collect uid ranks catalog a st of (st1, es) \<Rightarrow>
        case collect_all uid ranks catalog as st1 of (st2, fs) \<Rightarrow> (st2, es @ fs))"

section \<open>Invariants\<close>

definition row_ok :: "(string \<times> string) list \<Rightarrow> row \<Rightarrow> bool" where
  "row_ok catalog row =
     (case row of (_, thread, location, line) \<Rightarrow>
        0 \<le> thread \<and> thread < 262144 \<and> location \<in> set (map snd catalog) \<and> 1 \<le> line \<and> line \<le> 1000000)"

definition rows_ok :: "(string \<times> string) list \<Rightarrow> snapshots \<Rightarrow> bool" where
  "rows_ok catalog s \<longleftrightarrow> (\<forall>k. list_all (row_ok catalog) (sn_frames s k) \<and> length (sn_frames s k) \<le> 2048)"

text \<open>A reader has counted at most as many threads as it has consumed bytes.\<close>

definition reader_ok :: "reader \<Rightarrow> bool" where
  "reader_ok r \<longleftrightarrow> rd_thread r + 1 + int (length (rd_buffer r)) \<le> min (int (rd_total r)) 262144 \<and> -1 \<le> rd_thread r"

text \<open>What the reader leaves of the shared state.\<close>

definition reader_keeps :: "snapshots \<Rightarrow> snapshots \<Rightarrow> bool" where
  "reader_keeps s t \<longleftrightarrow>
     sn_peers t = sn_peers s \<and> sn_requested t = sn_requested s \<and> sn_active t = sn_active s \<and> sn_acks t = sn_acks s \<and>
     sn_readers t = sn_readers s \<and> sn_stop t = sn_stop s \<and> (\<forall>k. sn_rejected s k \<le> sn_rejected t k)"

lemma reader_keeps_refl [simp]: "reader_keeps s s"
  by (simp add: reader_keeps_def)

lemma reader_keeps_trans: "reader_keeps s t \<Longrightarrow> reader_keeps t u \<Longrightarrow> reader_keeps s u"
  unfolding reader_keeps_def by (metis le_trans)

lemma reject_keeps [simp]: "reader_keeps s (reject k s)" "rows_ok catalog (reject k s) = rows_ok catalog s"
  by (simp_all add: reader_keeps_def reject_def rows_ok_def)

lemma add_row_keeps: "reader_keeps s (add_row k row s)"
  by (auto simp: add_row_def reader_keeps_def reject_def)

lemma add_row_ok: "rows_ok catalog s \<Longrightarrow> row_ok catalog row \<Longrightarrow> rows_ok catalog (add_row k row s)"
  by (auto simp: add_row_def rows_ok_def Let_def reject_def)

lemma frame_row_ok: "frame_row catalog r line = Some row \<Longrightarrow> rd_thread r < 262144 \<Longrightarrow> row_ok catalog row"
  by (force simp: frame_row_def row_ok_def Let_def split: option.splits if_splits dest: map_of_SomeD)

lemma read_line_ok:
  assumes "read_line catalog raw (r, s) = (r', s')" "rows_ok catalog s" "rd_thread r < 262144"
  shows "rows_ok catalog s' \<and> reader_keeps s s' \<and> rd_key r' = rd_key r \<and> rd_total r' = rd_total r \<and>
    rd_thread r \<le> rd_thread r' \<and> rd_thread r' \<le> rd_thread r + 1"
  using assms
  by (auto simp: read_line_def Let_def add_row_keeps split: if_splits option.splits intro: add_row_ok frame_row_ok)

lemma read_lines_ok:
  assumes "read_lines catalog buf (r, s) = (left, r', s')" "rows_ok catalog s"
    "rd_thread r + 1 + int (length buf) \<le> n" "n \<le> 262144" "-1 \<le> rd_thread r"
  shows "rows_ok catalog s' \<and> reader_keeps s s' \<and> rd_key r' = rd_key r \<and> rd_total r' = rd_total r \<and>
    rd_thread r' + 1 + int (length left) \<le> n \<and> -1 \<le> rd_thread r'"
  using assms
proof (induction "length buf" arbitrary: buf r s rule: less_induct)
  case less
  show ?case
  proof (cases "CHR 0x0A \<in> set buf")
    case False
    then show ?thesis using less.prems by (simp add: read_lines.simps [of _ buf])
  next
    case True
    let ?nl = "\<lambda>c. c \<noteq> CHR 0x0A"
    obtain r1 s1 where l: "read_line catalog (takeWhile ?nl buf) (r, s) = (r1, s1)" by fastforce
    have rest: "length (tl (dropWhile ?nl buf)) < length buf"
      using True by (auto simp: dropWhile_eq_drop intro: diff_less length_pos_if_in_set)
    have "rd_thread r < 262144" using less.prems True by (cases buf) auto
    note ok = read_line_ok [OF l less.prems(2) this]
    have "read_lines catalog (tl (dropWhile ?nl buf)) (r1, s1) = (left, r', s')"
      using less.prems(1) True l by (simp add: read_lines.simps [of _ buf])
    from less.hyps [OF rest this] show ?thesis using ok less.prems rest reader_keeps_trans by auto
  qed
qed

lemma read_chunk_ok:
  assumes "read_chunk catalog data (r, s) = (r', s')" "rows_ok catalog s" "reader_ok r"
  shows "rows_ok catalog s' \<and> reader_keeps s s' \<and> rd_key r' = rd_key r \<and> reader_ok r'"
proof (cases "\<not> sn_active s \<or> rd_total r + length data > 262144")
  case True
  then show ?thesis using assms by (auto simp: read_chunk_def reader_ok_def Let_def split: if_splits)
next
  case False
  let ?r = "r\<lparr>rd_total := rd_total r + length data\<rparr>"
  obtain left r1 s1 where l: "read_lines catalog (rd_buffer r @ data) (?r, s) = (left, r1, s1)" by (metis prod_cases3)
  have "rd_thread ?r + 1 + int (length (rd_buffer r @ data)) \<le> int (rd_total r + length data)" "-1 \<le> rd_thread ?r"
    using assms(3) by (auto simp: reader_ok_def)
  from read_lines_ok [OF l assms(2) this(1) _ this(2)] False
  have ok: "rows_ok catalog s1 \<and> reader_keeps s s1 \<and> rd_key r1 = rd_key r \<and> rd_total r1 = rd_total r + length data \<and>
    rd_thread r1 + 1 + int (length left) \<le> int (rd_total r + length data) \<and> -1 \<le> rd_thread r1" by auto
  have "(r', s') = (if length left > 2048 then (r1\<lparr>rd_buffer := []\<rparr>, reject (rd_key r1) s1) else (r1\<lparr>rd_buffer := left\<rparr>, s1))"
    using assms(1) False l by (simp add: read_chunk_def Let_def)
  then show ?thesis using ok False reader_keeps_trans [of s s1 "reject (rd_key r1) s1"]
    by (auto simp: reader_ok_def split: if_splits)
qed

definition peers_ok :: "nat \<Rightarrow> rank_key list \<Rightarrow> action list \<Rightarrow> snapshots \<Rightarrow> bool" where
  "peers_ok uid ranks as s \<longleftrightarrow>
     (\<forall>k pid c. sn_peers s k = Some (pid, c) \<longrightarrow>
        (\<exists>conn. Greet c conn \<in> set as \<and> cn_pid conn = pid \<and> greeting uid ranks conn = Inr (Some k)))"

definition collector_ok :: "nat \<Rightarrow> rank_key list \<Rightarrow> (string \<times> string) list \<Rightarrow> action list \<Rightarrow> collector \<Rightarrow> bool" where
  "collector_ok uid ranks catalog as st \<longleftrightarrow>
     rows_ok catalog (fst st) \<and> (\<forall>c r. snd st c = Some r \<longrightarrow> reader_ok r) \<and> peers_ok uid ranks as (fst st)"

lemma new_collector_ok: "collector_ok uid ranks catalog as (new_snapshots, \<lambda>_. None)"
  by (simp add: collector_ok_def new_snapshots_def rows_ok_def peers_ok_def)

lemma end_reader_ok: "collector_ok uid ranks catalog as st \<Longrightarrow> collector_ok uid ranks catalog as (end_reader c st)"
  by (auto simp: end_reader_def collector_ok_def rows_ok_def peers_ok_def Let_def split: prod.splits option.splits if_splits)

lemma new_reader_ok [simp]: "reader_ok (new_reader key)"
  by (simp add: reader_ok_def new_reader_def)

lemma acknowledge_keeps [simp]:
  "sn_frames (acknowledge ranks role rank s) = sn_frames s" "sn_peers (acknowledge ranks role rank s) = sn_peers s"
  "sn_rejected (acknowledge ranks role rank s) = sn_rejected s" "sn_active (acknowledge ranks role rank s) = sn_active s"
  by (cases role; cases rank; simp add: acknowledge_def)+

lemma register_ok:
  assumes "collector_ok uid ranks catalog as st" "Greet c conn \<in> set as"
  shows "collector_ok uid ranks catalog as (register uid ranks c conn st)"
proof -
  obtain s rs where st: "st = (s, rs)" by fastforce
  show ?thesis
  proof (cases "\<exists>key. greeting uid ranks conn = Inr (Some key) \<and> sn_peers s key = None")
    case True
    then show ?thesis using assms
      by (auto simp: st register_def collector_ok_def rows_ok_def peers_ok_def split: if_splits)
  next
    case False
    then have "register uid ranks c conn st = end_reader c st"
      by (auto simp: st register_def split: sum.splits option.splits)
    then show ?thesis using end_reader_ok [OF assms(1)] by simp
  qed
qed

lemma receive_data_ok:
  assumes "collector_ok uid ranks catalog as st"
  shows "collector_ok uid ranks catalog as (receive_data catalog c data st)"
proof -
  obtain s rs where st: "st = (s, rs)" by fastforce
  show ?thesis
  proof (cases "rs c = None \<or> sn_stop s \<or> data = []")
    case True
    then show ?thesis using assms end_reader_ok [OF assms] by (auto simp: st receive_data_def split: option.splits)
  next
    case False
    then obtain r where r: "rs c = Some r" by auto
    obtain r' s' where k: "read_chunk catalog data (r, s) = (r', s')" by fastforce
    have "rows_ok catalog s" "reader_ok r" using assms r by (auto simp: st collector_ok_def)
    note ok = read_chunk_ok [OF k this]
    have "receive_data catalog c data st = (s', rs(c := Some r'))" using False r k by (simp add: st receive_data_def)
    then show ?thesis using assms ok by (auto simp: st collector_ok_def peers_ok_def reader_keeps_def)
  qed
qed

lemma collector_ok_other:
  assumes "collector_ok uid ranks catalog as (s, rs)" "sn_peers t = sn_peers s" "sn_frames t = sn_frames s \<or> sn_frames t = (\<lambda>_. [])"
  shows "collector_ok uid ranks catalog as (t, rs)"
  using assms unfolding collector_ok_def rows_ok_def peers_ok_def by (elim disjE) simp_all

lemma collect_ok:
  assumes "collector_ok uid ranks catalog as st" "a \<in> set as"
  shows "collector_ok uid ranks catalog as (fst (collect uid ranks catalog a st))"
proof (cases a)
  case (Greet c conn)
  then show ?thesis using assms register_ok [OF assms(1)] by (cases st) auto
next
  case (Receive c data)
  then show ?thesis using receive_data_ok [OF assms(1)] by simp
next
  case (Hang_Up c)
  then show ?thesis using end_reader_ok [OF assms(1)] by simp
qed (use assms(1) in \<open>cases st, auto simp: accept_connection_def request_def finish_snapshot_def close_snapshots_def intro: collector_ok_other\<close>)+

lemma end_reader_rejected: "sn_rejected (fst (end_reader c st)) = sn_rejected (fst st)"
  by (simp add: end_reader_def Let_def split: prod.splits option.splits)

lemma register_rejected: "sn_rejected (fst (register uid ranks c conn st)) = sn_rejected (fst st)"
  by (simp add: register_def end_reader_rejected split: prod.splits option.splits sum.splits)

lemma receive_data_rejected:
  assumes "collector_ok uid ranks catalog as (s, rs)"
  shows "sn_rejected s k \<le> sn_rejected (fst (receive_data catalog c data (s, rs))) k"
proof (cases "rs c = None \<or> sn_stop s \<or> data = []")
  case True
  then show ?thesis by (auto simp: receive_data_def end_reader_rejected split: option.splits)
next
  case False
  then obtain r where r: "rs c = Some r" by auto
  obtain r' s' where k: "read_chunk catalog data (r, s) = (r', s')" by fastforce
  have "rows_ok catalog s" "reader_ok r" using assms r by (simp_all add: collector_ok_def)
  from read_chunk_ok [OF k this] have "sn_rejected s k \<le> sn_rejected s' k" unfolding reader_keeps_def by blast
  then show ?thesis using False r k by (simp add: receive_data_def)
qed

lemma collect_rejected:
  assumes "collector_ok uid ranks catalog as st"
  shows "sn_rejected (fst st) k \<le> sn_rejected (fst (fst (collect uid ranks catalog a st))) k"
proof (cases a)
  case (Receive c data)
  then show ?thesis using receive_data_rejected assms by (cases st) auto
qed (cases st, auto simp: accept_connection_def request_def finish_snapshot_def close_snapshots_def end_reader_rejected register_rejected)+

lemmas review_defs = emit_event_def reviewed_event_def dupdate_def sub_keys_iff EVENTS_def NUMBER_FIELDS_def
  event_fields_def word_in_def ROLES_def location_ok_def collective_ok_def numbers_ok_def line_ok_def dkeys_def

lemma frame_reviewed:
  assumes "row_ok catalog (current, thread, location, line)" "role = ''prefill'' \<or> role = ''decode''" "\<bar>rank\<bar> < 2 ^ 63" "i < 128"
  shows "\<exists>d. emit_event (map snd catalog) ''stack_frame'' role
    [(''rank'', PInt rank), (''thread'', PInt thread), (''frame'', PInt (int i)), (''location'', PStr location), (''line'', PInt line)] = Inr d"
proof -
  have b: "0 \<le> thread" "thread < 262144" "location \<in> snd ` set catalog" "1 \<le> line" "line \<le> 1000000"
    using assms(1) by (auto simp: row_ok_def)
  have n: "bounded_int (PInt rank)" "bounded_int (PInt thread)" "bounded_int (PInt (int i))" "bounded_int (PInt line)"
    using b assms(3,4) by (auto simp: bounded_int_def)
  show ?thesis using assms(2) by (elim disjE) (simp_all add: review_defs b n)
qed

lemma dump_reviewed:
  assumes "role = ''prefill'' \<or> role = ''decode''" "\<bar>rank\<bar> < 2 ^ 63" "n < 2 ^ 62" "m \<le> 2048"
    "event = ''stack_dump_complete'' \<or> event = ''stack_dump_unavailable''"
  shows "\<exists>d. emit_event locations event role
    [(''rank'', PInt rank), (''count'', PInt (int (min m 128))), (''rejected'', PInt (int (n + (m - 128))))] = Inr d"
proof -
  have b: "bounded_int (PInt rank)" "bounded_int (PInt (int (min m 128)))" "bounded_int (PInt (int (n + (m - 128))))"
    using assms(2-4) by (auto simp: bounded_int_def)
  show ?thesis using assms(1,5) by (elim disjE) (simp_all add: review_defs b del: of_nat_add of_nat_min)
qed

lemma trace_reviewed:
  assumes "role = ''prefill'' \<or> role = ''decode''" "\<bar>rank\<bar> < 2 ^ 63"
  shows "\<exists>d. emit_event locations ''nccl_snapshot_unavailable'' role [(''rank'', PInt rank), (''code'', PInt 1)] = Inr d"
proof -
  have b: "bounded_int (PInt rank)" "bounded_int (PInt 1)" using assms(2) by (auto simp: bounded_int_def)
  show ?thesis using assms(1) by (elim disjE) (simp_all add: review_defs b)
qed

text \<open>A record that the review accepts, of a rank of the pair, and one of the first 128 frames.\<close>

definition event_ok :: "rank_key list \<Rightarrow> (string \<times> string) list \<Rightarrow> effect \<Rightarrow> bool" where
  "event_ok ranks catalog e \<longleftrightarrow>
     (case e of
        Emit event role kw \<Rightarrow>
          (\<exists>d. emit_event (map snd catalog) event role kw = Inr d) \<and>
          (\<exists>rank. (role, rank) \<in> set ranks \<and> map_of kw ''rank'' = Some (PInt rank)) \<and>
          (event = ''stack_frame'' \<longrightarrow> (\<exists>n. n < 128 \<and> map_of kw ''frame'' = Some (PInt n)))
      | Signal _ \<Rightarrow> True)"

lemma rank_events_ok:
  assumes "rows_ok catalog s" "(role, rank) \<in> set ranks" "role = ''prefill'' \<or> role = ''decode''" "\<bar>rank\<bar> < 2 ^ 63"
    "sn_rejected s (role, rank) < 2 ^ 62" "e \<in> set (rank_events s (role, rank))"
  shows "event_ok ranks catalog e"
proof -
  let ?rows = "sort_key (\<lambda>row. \<not> fst row) (sn_frames s (role, rank))"
  have len: "length ?rows \<le> 2048" using assms(1) by (simp add: rows_ok_def)
  have "event_ok ranks catalog (frame_event (role, rank) (i, row))" if "(i, row) \<in> set (enumerate 0 (take 128 ?rows))" for i row
  proof -
    obtain current thread location line where row: "row = (current, thread, location, line)" by (metis prod_cases4)
    have i: "i < 128" "i < length ?rows" "row = ?rows ! i" using that by (auto simp: in_set_enumerate_eq)
    then have "row \<in> set ?rows" using nth_mem by blast
    moreover have "row_ok catalog row" using assms(1) calculation by (auto simp: rows_ok_def list_all_iff)
    ultimately show ?thesis using i(1) frame_reviewed [of catalog current thread location line role rank i] assms(2-4)
      by (auto simp: event_ok_def frame_event_def row)
  qed
  moreover have "event_ok ranks catalog (Emit (if ?rows \<noteq> [] then ''stack_dump_complete'' else ''stack_dump_unavailable'') role
         [(''rank'', PInt rank), (''count'', PInt (int (min (length ?rows) 128))),
          (''rejected'', PInt (int (sn_rejected s (role, rank) + (length ?rows - 128))))])"
    using dump_reviewed [OF assms(3-5) len] assms(2) by (auto simp: event_ok_def)
  moreover have "event_ok ranks catalog (Emit ''nccl_snapshot_unavailable'' role [(''rank'', PInt rank), (''code'', PInt 1)])"
    using trace_reviewed [OF assms(3,4)] assms(2) by (auto simp: event_ok_def)
  ultimately show ?thesis using assms(6) unfolding rank_events_def Let_def
    by (auto split: if_splits simp del: of_nat_add of_nat_min)
qed

text \<open>The process connected with the supervisor's user id, and the file of its rank records its identifier.\<close>

definition signal_ok :: "nat \<Rightarrow> rank_key list \<Rightarrow> action list \<Rightarrow> effect \<Rightarrow> bool" where
  "signal_ok uid ranks as e \<longleftrightarrow>
     (case e of
        Signal pid \<Rightarrow> (\<exists>c conn key. Greet c conn \<in> set as \<and> cn_pid conn = pid \<and> cn_uid conn = uid \<and> key \<in> set ranks \<and>
          rank_file_matches conn key = Inr True)
      | Emit _ _ _ \<Rightarrow> True)"

lemma greeting_sound:
  assumes "greeting uid ranks conn = Inr (Some key)"
  shows "cn_uid conn = uid \<and> key \<in> set ranks \<and> rank_file_matches conn key = Inr True"
proof -
  have "greeting_body uid ranks conn = Inr (Some key)"
    using assms by (auto simp: greeting_def try_except_eq_Inr)
  then show ?thesis unfolding greeting_body_def
    by (auto simp: hello_key_def split: if_splits option.splits prod.splits pyv.splits elim!: bndE)
qed

lemma collect_effects:
  assumes ok: "collector_ok uid ranks catalog as (s, rs)" and e: "e \<in> set (snd (collect uid ranks catalog a (s, rs)))"
    and ranks: "\<forall>(role, rank) \<in> set ranks. (role = ''prefill'' \<or> role = ''decode'') \<and> \<bar>rank\<bar> < 2 ^ 63"
    and rejected: "\<forall>key. sn_rejected s key < 2 ^ 62"
  shows "event_ok ranks catalog e \<and> signal_ok uid ranks as e"
proof (cases a)
  case (Request known)
  then obtain key pid c where "e = Signal pid" "sn_peers s key = Some (pid, c)"
    using e by (auto simp: request_def signal_peer_def split: if_splits option.splits dest!: sym [of "Some _"])
  then obtain conn where g: "Greet c conn \<in> set as" "cn_pid conn = pid" "greeting uid ranks conn = Inr (Some key)"
    using ok unfolding collector_ok_def peers_ok_def by (metis fst_conv)
  have "signal_ok uid ranks as (Signal pid)"
    unfolding signal_ok_def effect.case using g(1,2) greeting_sound [OF g(3)] by blast
  then show ?thesis using \<open>e = Signal pid\<close> by (simp add: event_ok_def)
next
  case Finish
  then obtain role rank where k: "(role, rank) \<in> set ranks" "e \<in> set (rank_events s (role, rank))"
    using e by (auto simp: finish_snapshot_def sorted_ranks_def split: if_splits)
  have "event_ok ranks catalog e"
    using rank_events_ok [OF _ k(1) _ _ _ k(2)] ok ranks rejected k(1) by (auto simp: collector_ok_def)
  moreover have "signal_ok uid ranks as e"
    using k(2) by (auto simp: rank_events_def frame_event_def signal_ok_def Let_def split: if_splits prod.splits)
  ultimately show ?thesis by simp
qed (use e in auto)

lemma collect_all_rejected:
  "collect_all uid ranks catalog bs st = (st', es) \<Longrightarrow> set bs \<subseteq> set as \<Longrightarrow> collector_ok uid ranks catalog as st \<Longrightarrow>
   sn_rejected (fst st) k \<le> sn_rejected (fst st') k"
proof (induction bs arbitrary: st es)
  case (Cons b bs)
  obtain st1 es1 where c: "collect uid ranks catalog b st = (st1, es1)" by fastforce
  then obtain es2 where "collect_all uid ranks catalog bs st1 = (st', es2)"
    using Cons.prems(1) by (auto split: prod.splits)
  moreover have "collector_ok uid ranks catalog as st1" using collect_ok [OF Cons.prems(3), of b] Cons.prems(2) c by simp
  ultimately have "sn_rejected (fst st1) k \<le> sn_rejected (fst st') k" using Cons.IH Cons.prems(2) by simp
  then show ?case using collect_rejected [OF Cons.prems(3), of k b] c by simp
qed simp

lemma collect_all_effects:
  assumes "collect_all uid ranks catalog bs st = (st', es)" "set bs \<subseteq> set as" "collector_ok uid ranks catalog as st" "e \<in> set es"
    and ranks: "\<forall>(role, rank) \<in> set ranks. (role = ''prefill'' \<or> role = ''decode'') \<and> \<bar>rank\<bar> < 2 ^ 63"
    and rejected: "\<forall>key. sn_rejected (fst st') key < 2 ^ 62"
  shows "event_ok ranks catalog e \<and> signal_ok uid ranks as e"
  using assms(1-4)
proof (induction bs arbitrary: st es)
  case (Cons b bs)
  obtain s rs where st: "st = (s, rs)" by fastforce
  obtain st1 es1 where c: "collect uid ranks catalog b st = (st1, es1)" by fastforce
  then obtain es2 where r: "collect_all uid ranks catalog bs st1 = (st', es2)" "es = es1 @ es2"
    using Cons.prems(1) by (auto split: prod.splits)
  have ok: "collector_ok uid ranks catalog as st1" using collect_ok [OF Cons.prems(3), of b] Cons.prems(2) c by simp
  have "\<forall>key. sn_rejected s key < 2 ^ 62"
    using collect_all_rejected [OF Cons.prems(1-3)] rejected le_less_trans unfolding st fst_conv by blast
  then have "e \<in> set es1 \<Longrightarrow> event_ok ranks catalog e \<and> signal_ok uid ranks as e"
    using collect_effects [OF Cons.prems(3) [unfolded st] _ ranks, of e b] c st by simp
  then show ?case using Cons.IH [OF r(1) _ ok] Cons.prems(2,4) r(2) by auto
qed simp


section \<open>A run of the collector\<close>

abbreviation stack_ranks :: "rank_key list" where
  "stack_ranks \<equiv> [(''prefill'', 0)]"

abbreviation stack_catalog :: "(string \<times> string) list" where
  "stack_catalog \<equiv> [(''/usr/lib/python3.12/json.py'', ''python/json.py'')]"

definition stack_hello :: string where
  "stack_hello = dumps json_default (PDict [(''role'', PStr ''prefill''), (''rank'', PInt 0)]) @ [CHR 0x0A]"

definition stack_connection :: connection where
  "stack_connection =
     \<lparr>cn_pid = 7, cn_uid = 1000, cn_recv = map Got (stack_hello @ ''ready'' @ [CHR 0x0A]), cn_size = (\<lambda>_. Inr 10),
      cn_text = (\<lambda>_. Inr (dumps json_default (PDict [(''pid'', PInt 7)])))\<rparr>"

definition stack_text :: string where
  "stack_text =
     ''Current thread 0x1 (most recent call first):'' @ [CHR 0x0A] @ frame_open @ ''/usr/lib/python3.12/json.py'' @
     frame_line @ ''3 in f'' @ [CHR 0x0A]"

definition stack_actions :: "action list" where
  "stack_actions =
     [Accept 1, Greet 1 stack_connection, Request (\<lambda>_. Some 7), Receive 1 stack_text, Finish]"

abbreviation stack_run :: "collector \<times> effect list" where
  "stack_run \<equiv> collect_all 1000 stack_ranks stack_catalog stack_actions (new_snapshots, \<lambda>_. None)"

definition stack_frame_event :: effect where
  "stack_frame_event =
     Emit ''stack_frame'' ''prefill'' [(''rank'', PInt 0), (''thread'', PInt 0), (''frame'', PInt 0),
       (''location'', PStr ''python/json.py''), (''line'', PInt 3)]"

lemma stack_greeting: "greeting 1000 stack_ranks stack_connection = Inr (Some (''prefill'', 0))"
  by code_simp

definition stack_line1 :: string where
  "stack_line1 = ''Current thread 0x1 (most recent call first):''"

definition stack_line2 :: string where
  "stack_line2 = frame_open @ ''/usr/lib/python3.12/json.py'' @ frame_line @ ''3 in f''"

definition stack_reader :: "string \<Rightarrow> nat \<Rightarrow> int \<Rightarrow> bool \<Rightarrow> reader" where
  "stack_reader buf n thread current =
     \<lparr>rd_key = (''prefill'', 0), rd_buffer = buf, rd_total = n, rd_thread = thread, rd_current = current\<rparr>"

lemma stack_lines:
  "decode_replace stack_line1 = stack_line1" "decode_replace stack_line2 = stack_line2"
  "fullmatch HEADER stack_line1" "\<not> fullmatch HEADER stack_line2" "fullmatch FRAME stack_line2"
  "startswith stack_line1 ''Current thread''" "\<not> 2048 < length stack_line1" "\<not> 2048 < length stack_line2"
  "frame_row stack_catalog (stack_reader [] n 0 True) stack_line2 = Some (True, 0, ''python/json.py'', 3)"
  by code_simp+

lemma stack_split:
  "takeWhile (\<lambda>c. c \<noteq> CHR 0x0A) stack_text = stack_line1"
  "tl (dropWhile (\<lambda>c. c \<noteq> CHR 0x0A) stack_text) = stack_line2 @ [CHR 0x0A]"
  "takeWhile (\<lambda>c. c \<noteq> CHR 0x0A) (stack_line2 @ [CHR 0x0A]) = stack_line2"
  "tl (dropWhile (\<lambda>c. c \<noteq> CHR 0x0A) (stack_line2 @ [CHR 0x0A])) = []" "CHR 0x0A \<in> set stack_text" "stack_text \<noteq> []"
  "length stack_text \<le> 262144"
  by (simp_all add: stack_text_def stack_line1_def stack_line2_def frame_open_def frame_line_def dquote_def)

lemma stack_read:
  "read_line stack_catalog stack_line1 (stack_reader [] n (- 1) False, s) = (stack_reader [] n 0 True, s)"
  "sn_frames s (''prefill'', 0) = [] \<Longrightarrow> read_line stack_catalog stack_line2 (stack_reader [] n 0 True, s) =
     (stack_reader [] n 0 True, s\<lparr>sn_frames := (sn_frames s)((''prefill'', 0) := [(True, 0, ''python/json.py'', 3)])\<rparr>)"
  using stack_lines(7,8) by (simp_all add: read_line_def stack_lines) (simp_all add: stack_reader_def add_row_def)

lemma stack_chunk:
  assumes "sn_active s" "sn_frames s (''prefill'', 0) = []"
  shows "read_chunk stack_catalog stack_text (new_reader (''prefill'', 0), s) =
    (stack_reader [] (length stack_text) 0 True, s\<lparr>sn_frames := (sn_frames s)((''prefill'', 0) := [(True, 0, ''python/json.py'', 3)])\<rparr>)"
proof -
  let ?r = "stack_reader [] (length stack_text) (- 1) False"
  have "read_lines stack_catalog stack_text (?r, s) = ([], stack_reader [] (length stack_text) 0 True,
      s\<lparr>sn_frames := (sn_frames s)((''prefill'', 0) := [(True, 0, ''python/json.py'', 3)])\<rparr>)"
    using stack_split(5) assms(2)
    by (simp add: read_lines.simps [of _ stack_text] stack_split stack_read read_lines.simps [of _ "stack_line2 @ [CHR 0x0A]"]
        read_lines.simps [of _ "[]"] del: takeWhile_append1 takeWhile_append2)
  then show ?thesis using assms(1) stack_split(7)
    by (simp add: read_chunk_def new_reader_def stack_reader_def Let_def)
qed

lemma stack_pid: "cn_pid stack_connection = 7"
  by (simp add: stack_connection_def)

lemma stack_run_eq:
  "snd stack_run = Signal 7 # rank_events (new_snapshots\<lparr>sn_requested := True, sn_active := True,
     sn_frames := (\<lambda>_. [])((''prefill'', 0) := [(True, 0, ''python/json.py'', 3)])\<rparr>) (''prefill'', 0)"
  "sn_rejected (fst (fst stack_run)) = (\<lambda>_. 0)"
  by (simp_all add: stack_actions_def accept_connection_def new_snapshots_def slots_def register_def stack_greeting request_def
      sorted_ranks_def signal_peer_def receive_data_def stack_split(6) stack_chunk finish_snapshot_def stack_pid rank_events_def)


end
