(* ===== verification/Allowlist_Generate.thy ===== *)
theory Allowlist_Generate
  imports Allowlist_Rules
begin

text \<open>
  \<open>scripts/generate-release-allowlist.py\<close>, from line 440: the entries of the workloads and of the c8s
  core, the canonical document, the check of the lint findings, and the record of the image
  configurations.

  The programs the script runs are arguments: \<open>helm\<close>, \<open>go version\<close>, \<open>c8s allowlist derive\<close> and
  \<open>lint\<close>, the canonical tool and \<open>crane\<close>, each with what its process returns. \<open>yaml_all\<close> is
  \<open>yaml.safe_load_all\<close>, \<open>helm\<close> also reads the files it is given, and \<open>tmp\<close> is the name of the temporary directory, which only error texts show.
\<close>

record allowlist_tools =
  helm_template :: "(path \<Rightarrow> string option) \<Rightarrow> string list \<Rightarrow> completed"
  yaml_all :: "string \<Rightarrow> pyv list res"
  go_version :: completed
  c8s_derive :: "string \<Rightarrow> string \<Rightarrow> string \<Rightarrow> string \<Rightarrow> string list \<Rightarrow> completed"
  c8s_lint :: "string \<Rightarrow> completed"
  canonical_tool :: "string \<Rightarrow> completed"
  crane_config :: "string \<Rightarrow> completed"
  release_commands :: release_tools
  tmp :: string

section \<open>Sources\<close>

definition render_chart :: "repo_env \<Rightarrow> allowlist_tools \<Rightarrow> pyv \<Rightarrow> profile \<Rightarrow> path \<Rightarrow> pyv list res" where
  "render_chart env t pol p overlay =
     bnd (jidx pol ''chart'') (\<lambda>chart.
     bnd (bnd (jidx chart ''release'') arg_text) (\<lambda>release.
     bnd (bnd (jidx chart ''namespace'') arg_text) (\<lambda>namespace.
     bnd (bnd (jidx chart ''kubeVersion'') arg_text) (\<lambda>kube_version.
       let cmd = [''helm'', ''template'', release,
             path_str (repo_root env @ [''helm'', ''confidential-inference'']), ''--namespace'', namespace,
             ''--kube-version'', kube_version] @ helm_values_args env p (Some overlay)
       in bnd (bnd (run cmd (helm_template t (file_bytes env) cmd)) decode_utf8) (\<lambda>output.
          bnd (yaml_all t output) (\<lambda>documents. Inr (filter is_dict documents)))))))"

section \<open>c8s\<close>

definition tab :: string where
  "tab = [CHR 0x09]"

definition nl :: string where
  "nl = [CHR 0x0A]"

definition verify_c8s_binary :: "allowlist_tools \<Rightarrow> string \<Rightarrow> pyv \<Rightarrow> unit res" where
  "verify_c8s_binary t executable commit =
     bnd (bnd (run [''go'', ''version'', ''-m'', executable] (go_version t)) decode_utf8) (\<lambda>info.
     bnd (raise_if (\<not> contains (tab @ ''path'' @ tab @ ''github.com/confidential-dot-ai/c8s/cmd/c8s'' @ nl) info)
            (generation_error ''--c8s is not the c8s command binary'')) (\<lambda>_.
       raise_if (\<not> contains (''vcs.revision='' @ py_str commit) info \<and> \<not> contains (''Version='' @ py_str commit) info \<and>
                 \<not> contains (tab @ ''mod'' @ tab @ ''github.com/confidential-dot-ai/c8s'' @ tab @ ''v'') info)
         (generation_error ''--c8s was not built from the pinned c8s source commit'')))"

definition derive ::
  "allowlist_tools \<Rightarrow> string \<Rightarrow> pyv \<Rightarrow> pyv \<Rightarrow> pydict \<Rightarrow> pydict \<Rightarrow> pyv list \<Rightarrow> pyv res" where
  "derive t executable name controller env_policies mount_policies secret_reads =
     bnd (arg_text name) (\<lambda>n.
     bnd (mapM arg_text secret_reads) (\<lambda>reads.
     let object_json = dumps json_default controller;
         env_json = dumps json_default (PDict env_policies);
         mounts_json = dumps json_default (PDict mount_policies);
         cmd = [executable, ''allowlist'', ''derive'', n, tmp t @ ''/object.json'', ''--env-file'', tmp t @ ''/env.json'',
           ''--mounts-file'', tmp t @ ''/mounts.json'', ''-o'', ''json''] @
           concat (map (\<lambda>p. [''--secret-read'', p]) reads)
     in bnd (bnd (run cmd (c8s_derive t n object_json env_json mounts_json reads)) loads_bytes) (\<lambda>entry.
        bnd (jin n entry) (\<lambda>named. if named then jidx entry n else Inr entry))))"

definition rx_node_tag :: rx where
  "rx_node_tag = rx_seqs [rx_lit ''rke2-'', RAlt (rx_lit ''tdx'') (rx_lit ''snp''), rx_opt (rx_lit ''-cdi''),
     rx_lit ''-'', rx_plus (RChr (\<lambda>c. c \<noteq> CHR 0x0A))]"

text \<open>The seed before its check: the record of the commit, or the signed asset of the release.\<close>

definition seed_document :: "repo_env \<Rightarrow> allowlist_tools \<Rightarrow> pyv \<Rightarrow> pyv res" where
  "seed_document env t c8s =
     bnd (bnd (jidx c8s ''sourceCommit'') arg_text) (\<lambda>commit.
     let p = join_path (repo_root env @ [''release'', ''inputs'', ''c8s-seeds'']) (commit @ ''.json'') in
     if is_file env p \<or> dir_exists env p
     then bnd (read_json env p) (\<lambda>r.
          bnd (jidx c8s ''coreImages'') (\<lambda>images.
          bnd (raise_ifM (orsM [bnd (jget r ''sourceCommit'') (\<lambda>v. Inr (v \<noteq> PStr commit)),
                                bnd (jget r ''coreImages'') (\<lambda>v. Inr (\<not> py_eq v images))])
                 (generation_error ''the C8s node seed inputs differ from the profile pins'')) (\<lambda>_.
            jgetd r ''allowlist'' (PDict []))))
     else bnd (bnd (bnd (jidx c8s ''nodeImage'') (\<lambda>n. jidx n ''tag'')) arg_text) (\<lambda>tag.
          bnd (raise_if (\<not> fullmatch rx_node_tag tag)
                 (generation_error (''node image tag '' @ tag @ '' names no platform''))) (\<lambda>_.
          bnd (bnd (jidx c8s ''release'') arg_text) (\<lambda>release.
            try_except (allowlist_seed (release_commands t) release (PStr commit) (take 3 (drop 5 tag)))
              [ReleaseError] (\<lambda>e. Inl (generation_error (msg e)))))))"

definition core_seed :: "repo_env \<Rightarrow> allowlist_tools \<Rightarrow> pyv \<Rightarrow> pydict res" where
  "core_seed env t c8s =
     bnd (seed_document env t c8s) (\<lambda>seed.
     bnd (jget seed ''schema'') (\<lambda>schema.
     bnd (jget seed ''workloads'') (\<lambda>workloads.
       case workloads of
         PDict d \<Rightarrow> if schema = PStr ''c8s.allowlist/v1'' then Inr d
                    else Inl (generation_error ''the C8s node seed has no valid allowlist'')
       | _ \<Rightarrow> Inl (generation_error ''the C8s node seed has no valid allowlist''))))"

text \<open>The containers of an entry or of a pod.\<close>

definition all_containers :: "pyv \<Rightarrow> pyv list res" where
  "all_containers entry =
     bnd (jgetd entry ''initContainers'' (PList [])) (\<lambda>a.
     bnd (jgetd entry ''containers'' (PList [])) (\<lambda>b.
     bnd (py_add a b) jiter))"

definition command_pinned :: "pyv \<Rightarrow> bool res" where
  "command_pinned container =
     bnd (bnd (jgetd container ''command'' (PDict [])) (\<lambda>c. jget c ''policy'')) (\<lambda>pol.
       if pol \<noteq> PStr ''exact'' then Inr False
       else bnd (bnd (jidx container ''command'') (\<lambda>c. jget c ''argv'')) (\<lambda>a. Inr (truthy a)))"

definition check_core_container :: "pyv \<Rightarrow> string \<Rightarrow> pyv \<Rightarrow> unit res" where
  "check_core_container images name container =
     bnd (jgetd container ''image'' (PStr [])) (\<lambda>img.
     bnd (py_in img images) (\<lambda>core.
       if \<not> core then Inr ()
       else bnd (command_pinned container) (\<lambda>ok.
         raise_if (\<not> ok) (generation_error (''seed entry '' @ name @ '' does not preserve its component command pin'')))))"

definition core_entries :: "pyv \<Rightarrow> pydict \<Rightarrow> pydict res" where
  "core_entries images seed =
     bnd (for_each (\<lambda>(name, entry).
            bnd (all_containers entry) (for_each (check_core_container images name))) seed) (\<lambda>_.
       Inr seed)"

text \<open>\<open>canonicalize\<close> with the tool: a binary, or \<open>go run\<close> in its directory.\<close>

definition canonicalize :: "allowlist_tools \<Rightarrow> pyv \<Rightarrow> string option \<Rightarrow> string res" where
  "canonicalize t document tool =
     (let data = dumps json_default document in
      run (case tool of Some f \<Rightarrow> [f, ''-''] | None \<Rightarrow> [''go'', ''run'', ''.'', ''-'']) (canonical_tool t data))"

section \<open>Lint findings\<close>

type_synonym finding = "string list"

definition finding_fields :: "string list" where
  "finding_fields = [''entry'', ''rule'', ''variable'', ''mountKind'', ''mountPath'']"

definition ACCEPTED_RULE :: string where
  "ACCEPTED_RULE = ''search-path-overlaps-mount''"

definition accepted_key :: "string \<Rightarrow> pyv \<Rightarrow> finding res" where
  "accepted_key name item =
     bnd (mapM (jget item) finding_fields) (\<lambda>key.
       if key ! 1 \<noteq> PStr ACCEPTED_RULE \<or> \<not> list_all (\<lambda>part. is_str part \<and> truthy part) key
       then Inl (generation_error (name @ '' has an incomplete finding: '' @ py_str item))
       else Inr (map key_text key))"

definition add_accepted :: "string \<Rightarrow> finding list \<Rightarrow> pyv \<Rightarrow> finding list res" where
  "add_accepted name accepted item =
     bnd (accepted_key name item) (\<lambda>key.
       if key \<in> set accepted
       then Inl (generation_error (name @ '' lists a finding twice: '' @ py_str item))
       else Inr (accepted @ [key]))"

definition read_accepted_findings :: "repo_env \<Rightarrow> path \<Rightarrow> finding list res" where
  "read_accepted_findings env p =
     (if \<not> is_file env p then Inr []
      else bnd (read_json env p) (\<lambda>v.
        let name = last p in
        bnd (jget v ''schema'') (\<lambda>schema.
        bnd (raise_if (schema \<noteq> PStr ''confidential.ai/release-accepted-lint-findings/v1'')
               (generation_error (name @ '' has the wrong schema''))) (\<lambda>_.
        bnd (for_each (\<lambda>field. bnd (jget v field) (\<lambda>x.
               raise_if (\<not> is_str x \<or> \<not> truthy x) (generation_error (name @ '' needs a '' @ field))))
               [''reason'', ''issue'', ''reviewedBy'']) (\<lambda>_.
        bnd (bnd (jgetd v ''findings'' (PList [])) jiter) (foldM (add_accepted name) []))))))"

definition not_quote :: rx where
  "not_quote = rx_plus (RChr (\<lambda>c. c \<noteq> dquote))"

definition SEARCH_PATH_FINDING :: rx where
  "SEARCH_PATH_FINDING = rx_seqs
     [rx_lit (''error: workload '' @ [dquote]), not_quote, rx_lit (dquote # '' container sha256:''),
      rx_rep 64 (RChr is_hex), rx_lit '' pins '', rx_plus (RChr (\<lambda>c. is_upper c \<or> c = CHR ''_'')),
      rx_lit '' to a search path overlapping '', rx_plus (RChr (\<lambda>c. is_lower c \<or> is_upper c)),
      rx_lit ('' mount '' @ [dquote]), not_quote,
      rx_lit (dquote # ''; operator-supplied content could be loaded as code'')]"

text \<open>
  The groups of a match: the entry and the path stand between quotes, the variable and the kind are
  the fifth and the eleventh word of the text between them.
\<close>

definition line_finding :: "string \<Rightarrow> finding option" where
  "line_finding line =
     (if fullmatch SEARCH_PATH_FINDING line
      then (let parts = split_char dquote line; ws = split_char (CHR '' '') (parts ! 2)
            in Some [parts ! 1, ACCEPTED_RULE, ws ! 4, ws ! 10, parts ! 3])
      else None)"

definition LINT_SUMMARY :: rx where
  "LINT_SUMMARY = rx_seqs [rx_digits, rx_lit '' lint '', RAlt (rx_lit ''error'') (rx_lit ''warning''), rx_lit ''(s)'',
     rx_opt (rx_lit '' with --strict'')]"

definition line_summary :: "string \<Rightarrow> nat option" where
  "line_summary line =
     (if fullmatch LINT_SUMMARY line then Some (nat_of_digits (takeWhile is_digit line)) else None)"

record lint_state =
  seen :: "finding list"
  unknown :: "string list"
  summary :: "nat option"

definition lint_line :: "lint_state \<Rightarrow> string \<Rightarrow> lint_state" where
  "lint_line st line =
     (case line_finding line of
        Some key \<Rightarrow> st\<lparr>seen := (if key \<in> set (seen st) then seen st else seen st @ [key])\<rparr>
      | None \<Rightarrow>
          (case (line_summary line, summary st) of
             (Some n, None) \<Rightarrow> st\<lparr>summary := Some n\<rparr>
           | _ \<Rightarrow> st\<lparr>unknown := unknown st @ [line]\<rparr>))"

definition lint_lines :: "completed \<Rightarrow> string list" where
  "lint_lines result =
     filter (\<lambda>l. l \<noteq> []) (map str_strip (splitlines (decode_replace (stdout result @ stderr result))))"

definition read_lint :: "completed \<Rightarrow> lint_state" where
  "read_lint result = foldl lint_line \<lparr>seen = [], unknown = [], summary = None\<rparr> (lint_lines result)"

definition tuple_repr :: "finding \<Rightarrow> string" where
  "tuple_repr key = ''('' @ str_join '', '' (map str_repr key) @ '')''"

definition lint_problems :: "completed \<Rightarrow> lint_state \<Rightarrow> finding list \<Rightarrow> string list" where
  "lint_problems result st accepted =
     map (\<lambda>line. ''a lint line is not an accepted finding: '' @ line) (unknown st) @
     map (\<lambda>key. ''a lint finding is not accepted: '' @ tuple_repr key)
       (sort (filter (\<lambda>k. k \<notin> set accepted) (seen st))) @
     map (\<lambda>key. ''an accepted finding no longer appears; remove it: '' @ tuple_repr key)
       (sort (filter (\<lambda>k. k \<notin> set (seen st)) accepted)) @
     (if returncode result \<noteq> 0 \<and> summary st \<noteq> Some (length (seen st))
      then [''lint reported '' @ (case summary st of None \<Rightarrow> ''None'' | Some n \<Rightarrow> str_of_nat n) @
            '' findings, and '' @ str_of_nat (length (seen st)) @ '' were parsed''] else []) @
     (if returncode result = 0 \<and> seen st \<noteq> [] then [''lint passed but printed findings''] else [])"

definition bullets :: "string list \<Rightarrow> string" where
  "bullets items = nl @ ''  - '' @ str_join (nl @ ''  - '') items"

definition lint :: "completed \<Rightarrow> finding list \<Rightarrow> unit res" where
  "lint result accepted =
     (if returncode result = 0 \<and> accepted = [] then Inr ()
      else
        let problems = lint_problems result (read_lint result) accepted
        in raise_if (problems \<noteq> []) (generation_error (''c8s allowlist lint --strict failed:'' @ bullets problems)))"

section \<open>Generation\<close>

definition template_annotations :: "pyv \<Rightarrow> pyv res" where
  "template_annotations controller =
     bnd (pod_template controller) (\<lambda>t.
     bnd (jgetd t ''metadata'' (PDict [])) (\<lambda>m. jgetd m ''annotations'' (PDict [])))"

definition volume_reads :: "pyv \<Rightarrow> string list res" where
  "volume_reads controller =
     bnd (bnd (template_annotations controller) (\<lambda>a. jgetd a ''confidential.ai/c8s-volumes'' (PStr []))) (\<lambda>v.
     bnd (str_method v) (\<lambda>encoded.
       Inr (sort (remdups (map (\<lambda>entry. snd (snd (str_partition ''='' entry)))
              (filter (\<lambda>entry. entry \<noteq> []) (split_char (CHR '','') encoded)))))))"

definition workload_reads :: "pyv \<Rightarrow> pyv \<Rightarrow> pyv list res" where
  "workload_reads controller item =
     bnd (bnd (bnd (jgetd item ''secretReads'' (PList [])) jiter) py_set) (\<lambda>declared.
     bnd (volume_reads controller) (\<lambda>reads.
       let all_reads = dedup (declared @ map PStr reads) in py_sorted (map (\<lambda>v. (v, v)) all_reads)))"

text \<open>The containers of a pod by name; a later container of a name takes the place of an earlier one.\<close>

definition add_container :: "pydict \<Rightarrow> pyv \<Rightarrow> pydict res" where
  "add_container d c = bnd (bnd (jidx c ''name'') arg_text) (\<lambda>name. Inr (dset name c d))"

definition pod_containers :: "pyv \<Rightarrow> pydict res" where
  "pod_containers pod = bnd (all_containers pod) (foldM add_container [])"

definition image_record :: "pydict \<Rightarrow> pyv \<Rightarrow> pyv res" where
  "image_record image_env container = bnd (jidx container ''image'') (\<lambda>img. dget image_env img (PDict []))"

definition with_process :: "pydict \<Rightarrow> pyv \<Rightarrow> pyv res" where
  "with_process image_env container =
     bnd (image_record image_env container) (\<lambda>config.
       case container of
         PDict c \<Rightarrow> bnd (effective_process c config) (\<lambda>merged. Inr (PDict merged))
       | _ \<Rightarrow> type_error)"

record policies =
  env_policies :: pydict
  mount_policies :: pydict
  errors :: "string list"

definition any_policy :: pyv where
  "any_policy = PDict [(''policy'', PStr ''any'')]"

definition exact_policies :: "pyv \<Rightarrow> pyv \<Rightarrow> pydict \<Rightarrow> pyv \<Rightarrow> pyv option \<Rightarrow> pyv \<Rightarrow> (pyv \<times> pyv) res" where
  "exact_policies controller container image_env pol cdi release =
     bnd (container_env controller container image_env pol cdi) (\<lambda>vs.
     bnd (container_mounts controller container cdi release) (\<lambda>rules.
       Inr (PDict [(''policy'', PStr ''exact''), (''values'', PDict vs)],
            if rules \<noteq> [] then PDict [(''policy'', PStr ''exact''), (''rules'', PList rules)]
            else PDict [(''policy'', PStr ''deny'')])))"

text \<open>
  One container: an error of its rules is collected. Its policies then do not matter, because no
  workload is derived after an error.
\<close>

definition container_step ::
  "pyv \<Rightarrow> pydict \<Rightarrow> pyv \<Rightarrow> pyv option \<Rightarrow> string list \<Rightarrow> pyv \<Rightarrow> policies \<Rightarrow> string \<times> pyv \<Rightarrow> policies res" where
  "container_step controller image_env pol cdi core_digests c8s st named =
     (case named of (name, container) \<Rightarrow>
        bnd (with_process image_env container) (\<lambda>c.
        bnd (feature_release c8s) (\<lambda>release.
        bnd (is_carved_out c core_digests release) (\<lambda>carved.
          if carved
          then Inr (st\<lparr>env_policies := dset name any_policy (env_policies st),
                      mount_policies := dset name any_policy (mount_policies st)\<rparr>)
          else
            case exact_policies controller container image_env pol cdi release of
              Inr (e, m) \<Rightarrow> Inr (st\<lparr>env_policies := dset name e (env_policies st),
                                   mount_policies := dset name m (mount_policies st)\<rparr>)
            | Inl x \<Rightarrow> if catches [GenerationError] x then Inr (st\<lparr>errors := errors st @ [msg x]\<rparr>) else Inl x))))"

text \<open>The object for \<open>derive\<close>: a copy of the controller with the effective process of each container.\<close>

fun set_in :: "string list \<Rightarrow> pyv \<Rightarrow> pyv \<Rightarrow> pyv" where
  "set_in (k # ks) v (PDict d) = PDict (dset k (case map_of d k of None \<Rightarrow> v | Some w \<Rightarrow> set_in ks v w) d)"
| "set_in _ v w = v"

definition explicit_field :: "pydict \<Rightarrow> pyv \<Rightarrow> string \<Rightarrow> pyv res" where
  "explicit_field image_env pod field =
     bnd (jin field pod) (\<lambda>present.
       if present
       then bnd (bnd (bnd (jgetd pod field (PList [])) jiter) (mapM (with_process image_env))) (\<lambda>cs. Inr (PList cs))
       else Inr (PList []))"

definition explicit_controller :: "pydict \<Rightarrow> pyv \<Rightarrow> pyv res" where
  "explicit_controller image_env controller =
     bnd (loads (dumps json_default controller)) (\<lambda>copy.
     bnd (pod_spec copy) (\<lambda>pod.
     bnd (explicit_field image_env pod ''initContainers'') (\<lambda>inits.
     bnd (explicit_field image_env pod ''containers'') (\<lambda>cs.
       Inr (set_in [''spec'', ''template'', ''spec'']
              (set_in [''containers''] cs (set_in [''initContainers''] inits pod)) copy)))))"

text \<open>Before v0.41.0 the derived entry still holds the injected containers.\<close>

definition injected_container :: "string list \<Rightarrow> pyv \<Rightarrow> bool res" where
  "injected_container core_digests c =
     bnd (bnd (jidx c ''digest'') (\<lambda>d. in_strs d core_digests)) (\<lambda>core.
       if core then bnd (argv0 c) (\<lambda>a. Inr (a \<in> PStr ` set INJECTED_ENTRYPOINTS)) else Inr False)"

definition drop_injected :: "string list \<Rightarrow> pyv \<Rightarrow> string \<Rightarrow> pyv res" where
  "drop_injected core_digests entry field =
     bnd (bnd (jgetd entry field (PList [])) jiter) (\<lambda>cs.
     bnd (filterM (\<lambda>c. bnd (injected_container core_digests c) (\<lambda>b. Inr (\<not> b))) cs) (\<lambda>kept.
       case entry of PDict d \<Rightarrow> Inr (PDict (dset field (PList kept) d)) | _ \<Rightarrow> type_error))"

definition authored_entry :: "pyv \<Rightarrow> string list \<Rightarrow> pyv \<Rightarrow> pyv res" where
  "authored_entry c8s core_digests entry =
     bnd (bnd (feature_release c8s) (\<lambda>r. c8s_at_least r [0, 41, 0])) (\<lambda>omitted.
       if omitted then Inr entry else foldM (drop_injected core_digests) entry [''initContainers'', ''containers''])"

definition policy_open :: "pyv \<Rightarrow> string \<Rightarrow> bool res" where
  "policy_open container field =
     bnd (bnd (jgetd container field (PDict [])) (\<lambda>f. jget f ''policy'')) (\<lambda>pol.
     bnd (in_strs pol [''exact'', ''deny'']) (\<lambda>b. Inr (\<not> b)))"

definition egress_errors :: "string \<Rightarrow> pyv \<Rightarrow> string list res" where
  "egress_errors name container =
     bnd (bnd (bnd (jgetd container ''mounts'' (PDict [])) (\<lambda>m. jgetd m ''rules'' (PList []))) jiter) (\<lambda>rules.
     bnd (anyM (\<lambda>rule. bnd (jget rule ''kind'') (\<lambda>k. Inr (k = PStr ''host''))) rules) (\<lambda>host.
     bnd (anyM (policy_open container) [''mounts'', ''command'', ''args'']) (\<lambda>unpinned.
       Inr ((if host then [name @ '': an entry with egress has a host mount''] else []) @
            (if unpinned then [name @ '': an entry with egress must pin command, args and mounts''] else [])))))"

definition add_egress :: "string \<Rightarrow> pyv \<Rightarrow> pyv list \<Rightarrow> (pyv \<times> string list) res" where
  "add_egress name entry exits =
     (if exits = [] then Inr (entry, [])
      else bnd (bnd (all_containers entry) (mapM (egress_errors name))) (\<lambda>es.
        case entry of
          PDict d \<Rightarrow> Inr (PDict (dset ''egress'' (PList exits) d), concat es)
        | _ \<Rightarrow> type_error))"

record generation_inputs =
  gi_policy :: pyv
  gi_c8s :: pyv
  gi_rendered :: pydict
  gi_cdi :: "pyv option"
  gi_core_digests :: "string list"
  gi_image_env :: pydict

definition workload_entry ::
  "allowlist_tools \<Rightarrow> string \<Rightarrow> generation_inputs \<Rightarrow> pyv \<Rightarrow> pyv \<Rightarrow> policies \<Rightarrow> (pyv \<times> string list) res" where
  "workload_entry t executable g item controller st =
     bnd (workload_reads controller item) (\<lambda>reads.
     bnd (explicit_controller (gi_image_env g) controller) (\<lambda>explicit.
     bnd (jidx item ''name'') (\<lambda>name.
     bnd (derive t executable name explicit (env_policies st) (mount_policies st) reads) (\<lambda>derived.
     bnd (authored_entry (gi_c8s g) (gi_core_digests g) derived) (\<lambda>entry.
     bnd (declared_egress controller item) (\<lambda>exits.
       add_egress (py_str name) entry exits))))))"

definition workload_step ::
  "allowlist_tools \<Rightarrow> string \<Rightarrow> generation_inputs \<Rightarrow> pydict \<times> string list \<Rightarrow> pyv \<Rightarrow> (pydict \<times> string list) res" where
  "workload_step t executable g st item =
     (case st of (workloads, errs) \<Rightarrow>
        bnd (bnd (jidx item ''controller'') arg_text) (\<lambda>key.
        bnd (jidx (PDict (gi_rendered g)) key) (\<lambda>controller.
        bnd (bnd (pod_spec controller) pod_containers) (\<lambda>containers.
        bnd (foldM (container_step controller (gi_image_env g) (gi_policy g) (gi_cdi g) (gi_core_digests g) (gi_c8s g))
               \<lparr>env_policies = [], mount_policies = [], errors = errs\<rparr> containers) (\<lambda>pols.
          if errors pols \<noteq> [] then Inr (workloads, errors pols)
          else bnd (workload_entry t executable g item controller pols) (\<lambda>(entry, found).
               bnd (bnd (jidx item ''name'') arg_text) (\<lambda>name.
                 Inr (dset name entry workloads, found))))))))"

definition sorted_workloads :: "pyv \<Rightarrow> pyv list res" where
  "sorted_workloads pol =
     bnd (bnd (jidx pol ''workloads'') jiter) (\<lambda>items.
     bnd (mapM (\<lambda>item. jidx item ''name'') items) (\<lambda>names. py_sorted (zip names items)))"

definition add_core :: "pydict \<Rightarrow> string \<times> pyv \<Rightarrow> pydict res" where
  "add_core workloads named =
     (case named of (name, entry) \<Rightarrow>
        if name \<in> set (dkeys workloads)
        then Inl (generation_error (''the core entry '' @ name @ '' collides with a workload''))
        else Inr (dset name entry workloads))"

definition check_rendered :: "pydict \<Rightarrow> pyv \<Rightarrow> unit res" where
  "check_rendered rendered pol =
     bnd (bnd (jidx pol ''workloads'') jiter) (\<lambda>items.
     bnd (bnd (mapM (\<lambda>item. jidx item ''controller'') items) py_set) (\<lambda>expected.
     let missing = filter (\<lambda>v. v \<notin> PStr ` set (dkeys rendered)) expected;
         extra = filter (\<lambda>k. PStr k \<notin> set expected) (dkeys rendered)
     in if missing = [] \<and> extra = [] then Inr ()
        else bnd (py_sorted (map (\<lambda>v. (v, v)) missing)) (\<lambda>m.
          Inl (generation_error (''the chart workloads differ from the policy: missing='' @ py_repr (PList m) @
            '' extra='' @ py_repr (PList (map PStr (sort extra))))))))"

definition check_egress_kept :: "pyv \<Rightarrow> string \<times> pyv \<Rightarrow> unit res" where
  "check_egress_kept kept named =
     (case named of (name, entry) \<Rightarrow>
        bnd (bnd (jidx kept name) (\<lambda>e. jget e ''egress'')) (\<lambda>a.
        bnd (jget entry ''egress'') (\<lambda>b.
          raise_if (\<not> py_eq a b)
            (generation_error (name @ '': the pinned c8s does not keep the declared egress (needs C8s #1047)'')))))"

definition POLICY_SCHEMA :: string where
  "POLICY_SCHEMA = ''confidential.ai/release-allowlist-policy/v2''"

definition generation_policy :: "repo_env \<Rightarrow> profile \<Rightarrow> path \<Rightarrow> pyv res" where
  "generation_policy env p overlay =
     bnd (read_json env (policy p)) (\<lambda>document.
     bnd (bnd (read_text env overlay) (yaml_load env)) (\<lambda>vs.
     bnd (bnd (bnd (jidx vs ''attestationReceipts'') (\<lambda>r. jidx r ''releaseId'')) arg_text) (\<lambda>release_id.
     bnd (policy_for_release env document release_id) (\<lambda>pol.
     bnd (jget pol ''schema'') (\<lambda>schema.
       if schema = PStr POLICY_SCHEMA then Inr pol
       else bnd (relative env (policy p)) (\<lambda>f. Inl (generation_error (f @ '' has the wrong schema''))))))))"

definition read_inputs ::
  "repo_env \<Rightarrow> allowlist_tools \<Rightarrow> profile \<Rightarrow> string \<Rightarrow> path \<Rightarrow> pydict \<Rightarrow> generation_inputs res" where
  "read_inputs env t p executable overlay image_env =
     bnd (generation_policy env p overlay) (\<lambda>pol.
     bnd (bnd (read_spec env p) (\<lambda>spec. jidx (PDict spec) ''c8s'')) (\<lambda>c8s.
     bnd (bnd (jidx c8s ''sourceCommit'') (verify_c8s_binary t executable)) (\<lambda>_.
     bnd (jidx c8s ''nodeImage'') (\<lambda>node.
     bnd (jidx node ''reference'') (\<lambda>reference.
     bnd (jidx node ''digest'') (\<lambda>digest.
     bnd (bnd (render_chart env t pol p overlay) controllers) (\<lambda>rendered.
     bnd (check_rendered rendered pol) (\<lambda>_.
     bnd (read_cdi env pol (py_str reference @ ''@'' @ py_str digest)) (\<lambda>cdi.
     bnd (bnd (bnd (jidx c8s ''coreImages'') jiter) (mapM split_image)) (\<lambda>core.
       Inr \<lparr>gi_policy = pol, gi_c8s = c8s, gi_rendered = rendered, gi_cdi = cdi, gi_core_digests = map snd core,
            gi_image_env = image_env\<rparr>))))))))))"

definition all_workloads :: "repo_env \<Rightarrow> allowlist_tools \<Rightarrow> string \<Rightarrow> generation_inputs \<Rightarrow> pydict res" where
  "all_workloads env t executable g =
     bnd (sorted_workloads (gi_policy g)) (\<lambda>items.
     bnd (foldM (workload_step t executable g) ([], []) items) (\<lambda>(workloads, errs).
     bnd (raise_if (errs \<noteq> []) (generation_error (''the release allowlist has unpinned inputs:'' @ bullets errs))) (\<lambda>_.
     bnd (jidx (gi_c8s g) ''coreImages'') (\<lambda>images.
     bnd (bnd (core_seed env t (gi_c8s g)) (core_entries images)) (\<lambda>core.
       foldM add_core workloads core)))))"

definition generate :: "repo_env \<Rightarrow> allowlist_tools \<Rightarrow> profile \<Rightarrow> string \<Rightarrow> string option \<Rightarrow> path \<Rightarrow> pydict \<Rightarrow> string res" where
  "generate env t p executable tool overlay image_env =
     bnd (read_inputs env t p executable overlay image_env) (\<lambda>g.
     bnd (all_workloads env t executable g) (\<lambda>workloads.
     bnd (canonicalize t (PDict [(''schema'', PStr ''c8s.allowlist/v1''), (''workloads'', PDict workloads)]) tool) (\<lambda>canonical.
     bnd (bnd (loads_bytes canonical) (\<lambda>d. jidx d ''workloads'')) (\<lambda>kept.
     bnd (for_each (check_egress_kept kept) workloads) (\<lambda>_.
     bnd (read_accepted_findings env (accepted_findings p)) (\<lambda>accepted.
     bnd (lint (c8s_lint t canonical) (filter (\<lambda>f. hd f \<in> set (dkeys workloads)) accepted)) (\<lambda>_.
       Inr canonical)))))))"

section \<open>The record of the image configurations\<close>

definition image_config :: "allowlist_tools \<Rightarrow> pyv \<Rightarrow> (string \<times> pyv) res" where
  "image_config t img =
     bnd (split_image img) (\<lambda>_.
     bnd (arg_text img) (\<lambda>i.
     bnd (bnd (run [''crane'', ''config'', i] (crane_config t i)) loads_bytes) (\<lambda>v.
     bnd (jgetd v ''config'' (PDict [])) (\<lambda>config.
     bnd (jget config ''Env'') (\<lambda>e.
     bnd (jget config ''Entrypoint'') (\<lambda>p.
     bnd (jget config ''Cmd'') (\<lambda>c.
       Inr (i, PDict [(''env'', py_or e (PList [])), (''entrypoint'', py_or p (PList [])),
                      (''cmd'', py_or c (PList []))]))))))))"

definition REPOSITORY_IMAGES :: string where
  "REPOSITORY_IMAGES = ''ghcr.io/confidential-dot-ai/confidential-inference/''"

definition is_repository_image :: "pyv \<Rightarrow> bool" where
  "is_repository_image v = (case v of PStr s \<Rightarrow> startswith s REPOSITORY_IMAGES | _ \<Rightarrow> False)"

definition placeholder_images :: "repo_env \<Rightarrow> profile \<Rightarrow> pydict res" where
  "placeholder_images env p =
     bnd (read_values env p) (\<lambda>vs.
     bnd (bnd (jgetd vs ''images'' (PDict [])) jitems) (\<lambda>items.
       Inr (map (\<lambda>(key, v). (key, PStr (py_str v @ ''@sha256:'' @ replicate 64 (CHR ''0''))))
              (filter (\<lambda>(_, v). is_repository_image v) items))))"

definition controller_images :: "pyv list \<Rightarrow> pyv \<Rightarrow> pyv list res" where
  "controller_images images controller =
     bnd (bnd (pod_spec controller) all_containers) (foldM (\<lambda>images container.
       bnd (jidx container ''image'') (\<lambda>img.
       bnd (split_image img) (\<lambda>_.
         Inr (if is_repository_image img then images else images @ [img])))) images)"

definition profile_images :: "repo_env \<Rightarrow> allowlist_tools \<Rightarrow> pyv list \<Rightarrow> profile \<Rightarrow> pyv list res" where
  "profile_images env t images p =
     bnd (bnd (bnd (read_spec env p) (\<lambda>spec. jidx (PDict spec) ''c8s'')) (\<lambda>c. jidx c ''coreImages'')) (\<lambda>v.
     bnd (bnd (jiter v) py_set) (\<lambda>core.
     bnd (placeholder_images env p) (\<lambda>placeholder.
     let overlay = join_path [] (tmp t) @ [py_str (prof_name p) @ ''.yaml''];
         env' = env\<lparr>file_bytes := (file_bytes env)(overlay \<mapsto> dumps json_default (PDict [(''images'', PDict placeholder)]))\<rparr>
     in bnd (read_json env (policy p)) (\<lambda>pol.
        bnd (bnd (render_chart env' t pol p overlay) controllers) (\<lambda>rendered.
          foldM controller_images (images @ core) (map snd rendered))))))"

definition refresh_image_config :: "repo_env \<Rightarrow> allowlist_tools \<Rightarrow> profile list \<Rightarrow> pydict res" where
  "refresh_image_config env t profiles =
     bnd (foldM (profile_images env t) [] profiles) (\<lambda>images.
     bnd (py_sorted (map (\<lambda>v. (v, v)) (dedup images))) (mapM (image_config t)))"

definition IMAGE_CONFIG :: "repo_env \<Rightarrow> path" where
  "IMAGE_CONFIG env = repo_root env @ [''release'', ''inputs'', ''image-config.json'']"

text \<open>The text of an exception: that of a \<open>KeyError\<close> is the representation of the key.\<close>

definition exn_text :: "exn \<Rightarrow> string" where
  "exn_text e = (if cls e = KeyError then str_repr (msg e) else msg e)"

text \<open>The command: the file it writes, its output and its exit code.\<close>

definition main_refresh :: "repo_env \<Rightarrow> allowlist_tools \<Rightarrow> ((path \<times> string) option \<times> string \<times> int) res" where
  "main_refresh env t =
     try_except (bnd (bnd (load env) (refresh_image_config env t)) (\<lambda>r.
         let f = IMAGE_CONFIG env in
         Inr (Some (f, dumps (json_indent2\<lparr>sort_keys := True\<rparr>) (PDict r) @ nl),
              dumps json_default (PDict [(''imageConfig'', PStr (path_str f))]), 0)))
       [GenerationError, ProfileError, OSError, KeyError]
       (\<lambda>e. Inr (None, ''generate-release-allowlist: '' @ exn_text e, 1))"

section \<open>What the lint check accepts\<close>

lemma read_lint_fold:
  "foldl lint_line st lines = st' \<Longrightarrow>
     set (seen st') = set (seen st) \<union> set (List.map_filter line_finding lines) \<and>
     (distinct (seen st) \<longrightarrow> distinct (seen st')) \<and>
     (unknown st' = [] \<longleftrightarrow> unknown st = [] \<and> list_all (\<lambda>l. line_finding l \<noteq> None \<or> line_summary l \<noteq> None) lines \<and>
        length (List.map_filter line_summary (filter (\<lambda>l. line_finding l = None) lines)) \<le>
          (case summary st of None \<Rightarrow> 1 | Some _ \<Rightarrow> 0)) \<and>
     (unknown st' = [] \<longrightarrow> summary st' =
        (case summary st of Some n \<Rightarrow> Some n
         | None \<Rightarrow> (case List.map_filter line_summary (filter (\<lambda>l. line_finding l = None) lines) of
                     [] \<Rightarrow> None | n # _ \<Rightarrow> Some n)))"
proof (induction lines arbitrary: st)
  case Nil
  then show ?case by (auto simp: List.map_filter_def split: option.splits)
next
  case (Cons line lines)
  note IH = Cons.IH [of "lint_line st line", OF Cons.prems [simplified]]
  show ?case
  proof (cases "line_finding line")
    case (Some key)
    with IH show ?thesis by (auto simp: lint_line_def map_filter_simps split: option.splits)
  next
    case None
    with IH show ?thesis
      by (cases "line_summary line"; cases "summary st") (auto simp: lint_line_def map_filter_simps split: list.splits)
  qed
qed

lemma lint_problems_empty:
  "lint_problems result st accepted = [] \<longleftrightarrow>
     unknown st = [] \<and> set (seen st) = set accepted \<and>
     (returncode result \<noteq> 0 \<longrightarrow> summary st = Some (length (seen st))) \<and> (returncode result = 0 \<longrightarrow> seen st = [])"
proof -
  have "sort xs = [] \<longleftrightarrow> xs = []" for xs :: "finding list" by (metis length_0_conv length_sort)
  then show ?thesis by (auto simp: lint_problems_def filter_empty_conv)
qed

text \<open>
  C33: The lint check passes exactly on the accepted findings.  It passes without output of its own when
  the tool reports success and nothing is accepted.  Otherwise it passes exactly when the tool failed,
  every line is a finding or a summary, the findings are the accepted ones, no more and no fewer, and one
  summary line, no second one, gives their number.
\<close>

theorem lint_exact:
  "lint result accepted = Inr () \<longleftrightarrow>
     returncode result = 0 \<and> accepted = [] \<or>
     returncode result \<noteq> 0 \<and>
     list_all (\<lambda>l. line_finding l \<noteq> None \<or> line_summary l \<noteq> None) (lint_lines result) \<and>
     set (List.map_filter line_finding (lint_lines result)) = set accepted \<and>
     List.map_filter line_summary (filter (\<lambda>l. line_finding l = None) (lint_lines result)) = [card (set accepted)]"
proof -
  let ?st = "read_lint result"
  let ?ns = "List.map_filter line_summary (filter (\<lambda>l. line_finding l = None) (lint_lines result))"
  have r: "set (seen ?st) = set (List.map_filter line_finding (lint_lines result))" "distinct (seen ?st)"
    "unknown ?st = [] \<longleftrightarrow> list_all (\<lambda>l. line_finding l \<noteq> None \<or> line_summary l \<noteq> None) (lint_lines result) \<and> length ?ns \<le> 1"
    "unknown ?st = [] \<longrightarrow> summary ?st = (case ?ns of [] \<Rightarrow> None | n # _ \<Rightarrow> Some n)"
    using read_lint_fold [OF refl, of "\<lparr>seen = [], unknown = [], summary = None\<rparr>" "lint_lines result"]
    by (simp_all add: read_lint_def)
  have c: "length (seen ?st) = card (set (seen ?st))" using r(2) by (simp add: distinct_card)
  have "lint result accepted = Inr () \<longleftrightarrow> returncode result = 0 \<and> accepted = [] \<or> lint_problems result ?st accepted = []"
    by (auto simp: lint_def Let_def raise_if_eq_Inr)
  moreover have "lint_problems result ?st accepted = [] \<longleftrightarrow>
      unknown ?st = [] \<and> set (seen ?st) = set accepted \<and>
      (returncode result \<noteq> 0 \<longrightarrow> summary ?st = Some (card (set accepted))) \<and> (returncode result = 0 \<longrightarrow> accepted = [])"
    unfolding lint_problems_empty using c by (metis set_empty)
  ultimately have l: "lint result accepted = Inr () \<longleftrightarrow> returncode result = 0 \<and> accepted = [] \<or>
      returncode result \<noteq> 0 \<and> unknown ?st = [] \<and> set (seen ?st) = set accepted \<and> summary ?st = Some (card (set accepted))"
    by blast
  have "unknown ?st = [] \<and> summary ?st = Some k \<longleftrightarrow>
      list_all (\<lambda>l. line_finding l \<noteq> None \<or> line_summary l \<noteq> None) (lint_lines result) \<and> ?ns = [k]" for k
    using r(3,4) by (cases ?ns) auto
  then show ?thesis unfolding l r(1) by blast
qed

section \<open>What a generated allowlist holds\<close>

text \<open>
  The policies of a container that \<open>derive\<close> gets: open exactly for a container c8s injects, and
  otherwise the exact environment and mounts.
\<close>

definition container_policy ::
  "generation_inputs \<Rightarrow> pyv \<Rightarrow> policies \<Rightarrow> string \<times> pyv \<Rightarrow> bool" where
  "container_policy g controller st named \<longleftrightarrow>
     (\<exists>c release carved e m.
        with_process (gi_image_env g) (snd named) = Inr c \<and> feature_release (gi_c8s g) = Inr release \<and>
        is_carved_out c (gi_core_digests g) release = Inr carved \<and>
        map_of (env_policies st) (fst named) = Some e \<and> map_of (mount_policies st) (fst named) = Some m \<and>
        (if carved then e = any_policy \<and> m = any_policy
         else exact_policies controller (snd named) (gi_image_env g) (gi_policy g) (gi_cdi g) release = Inr (e, m)))"

abbreviation steps :: "generation_inputs \<Rightarrow> pyv \<Rightarrow> policies \<Rightarrow> string \<times> pyv \<Rightarrow> policies res" where
  "steps g controller \<equiv>
     container_step controller (gi_image_env g) (gi_policy g) (gi_cdi g) (gi_core_digests g) (gi_c8s g)"

lemma container_step_ok:
  assumes "steps g controller st (name, container) = Inr st'" "errors st' = []"
  shows "errors st = [] \<and> container_policy g controller st' (name, container) \<and>
    (\<forall>k. k \<noteq> name \<longrightarrow> map_of (env_policies st') k = map_of (env_policies st) k \<and>
       map_of (mount_policies st') k = map_of (mount_policies st) k)"
  using assms unfolding container_step_def container_policy_def
  by (auto simp: map_of_dset elim!: bndE split: if_splits sum.splits prod.splits)

lemma container_steps_errors: "foldM (steps g controller) st cs = Inr st' \<Longrightarrow> errors st' = [] \<Longrightarrow> errors st = []"
  by (induction cs arbitrary: st) (auto elim!: bndE dest: container_step_ok)

lemma container_policy_cong:
  "map_of (env_policies st') n = map_of (env_policies st) n \<Longrightarrow>
   map_of (mount_policies st') n = map_of (mount_policies st) n \<Longrightarrow>
   container_policy g controller st (n, c) \<Longrightarrow> container_policy g controller st' (n, c)"
  by (simp add: container_policy_def)

lemma container_steps_ok:
  assumes "foldM (steps g controller) st cs = Inr st'" "errors st' = []" "dict_ok cs"
  shows "(\<forall>named \<in> set cs. container_policy g controller st' named) \<and>
    (\<forall>k. k \<notin> fst ` set cs \<longrightarrow> map_of (env_policies st') k = map_of (env_policies st) k \<and>
       map_of (mount_policies st') k = map_of (mount_policies st) k)"
  using assms
proof (induction cs arbitrary: st)
  case (Cons named cs)
  obtain name container where n: "named = (name, container)" by (cases named)
  obtain st1 where s: "steps g controller st (name, container) = Inr st1" "foldM (steps g controller) st1 cs = Inr st'"
    using Cons.prems(1) n by (auto elim!: bndE)
  have d: "dict_ok cs" "name \<notin> fst ` set cs" using Cons.prems(3) n by (auto simp: dict_ok_def)
  have h: "errors st1 = []" using container_steps_errors [OF s(2) Cons.prems(2)] .
  note IH = Cons.IH [OF s(2) Cons.prems(2) d(1)]
  note step = container_step_ok [OF s(1) h]
  have "container_policy g controller st' (name, container)"
    using step IH d(2) container_policy_cong [of st' name st1] by blast
  then show ?case using IH step n by auto
qed simp

text \<open>An entry that the pinned c8s derives from a workload of the policy.\<close>

definition derived_entry :: "allowlist_tools \<Rightarrow> string \<Rightarrow> generation_inputs \<Rightarrow> pyv \<Rightarrow> pyv \<Rightarrow> bool" where
  "derived_entry t executable g item entry \<longleftrightarrow>
     (\<exists>key controller containers st.
        jidx item ''controller'' = Inr (PStr key) \<and> map_of (gi_rendered g) key = Some controller \<and>
        bnd (pod_spec controller) pod_containers = Inr containers \<and>
        (\<forall>named \<in> set containers. container_policy g controller st named) \<and>
        workload_entry t executable g item controller st = Inr (entry, []))"

lemma pod_containers_ok: "pod_containers pod = Inr cs \<Longrightarrow> dict_ok cs"
proof -
  have "foldM add_container d items = Inr cs \<Longrightarrow> dict_ok d \<Longrightarrow> dict_ok cs" for d items
    by (induction items arbitrary: d) (auto simp: add_container_def dict_ok_dset elim!: bndE)
  then show "pod_containers pod = Inr cs \<Longrightarrow> dict_ok cs"
    by (auto simp: pod_containers_def dict_ok_def elim!: bndE)
qed

lemma workload_step_ok:
  assumes "workload_step t executable g (w, errs) item = Inr (w', [])"
  shows "errs = [] \<and> (\<exists>name entry. jidx item ''name'' = Inr (PStr name) \<and> w' = dset name entry w \<and>
    derived_entry t executable g item entry)"
proof -
  obtain key controller containers pols entry name where
    k: "jidx item ''controller'' = Inr (PStr key)" "map_of (gi_rendered g) key = Some controller"
      "bnd (pod_spec controller) pod_containers = Inr containers"
    and f: "foldM (steps g controller) \<lparr>env_policies = [], mount_policies = [], errors = errs\<rparr> containers = Inr pols"
      "errors pols = []"
    and e: "workload_entry t executable g item controller pols = Inr (entry, [])"
      "jidx item ''name'' = Inr (PStr name)" "w' = dset name entry w"
    using assms unfolding workload_step_def
    by (auto simp: res_simps elim!: bndE split: if_splits option.splits)
  have "dict_ok containers" using k(3) pod_containers_ok by (auto elim!: bndE)
  with container_steps_ok [OF f] have "\<forall>named \<in> set containers. container_policy g controller pols named" by blast
  moreover have "errs = []" using container_steps_errors [OF f] by simp
  ultimately show ?thesis using k e unfolding derived_entry_def by blast
qed

lemma workload_steps_ok:
  assumes "foldM (workload_step t executable g) (w, errs) items = Inr (w', [])"
  shows "errs = [] \<and> set (dkeys w') = set (dkeys w) \<union> {name. \<exists>item \<in> set items. jidx item ''name'' = Inr (PStr name)} \<and>
    (\<forall>name entry. map_of w' name = Some entry \<longrightarrow> map_of w name = Some entry \<or>
       (\<exists>item \<in> set items. jidx item ''name'' = Inr (PStr name) \<and> derived_entry t executable g item entry))"
  using assms
proof (induction items arbitrary: w errs)
  case (Cons item items)
  obtain w1 e1 where s: "workload_step t executable g (w, errs) item = Inr (w1, e1)"
    "foldM (workload_step t executable g) (w1, e1) items = Inr (w', [])"
    using Cons.prems by (auto elim!: bndE)
  note IH = Cons.IH [OF s(2)]
  then obtain name entry where n: "errs = []" "jidx item ''name'' = Inr (PStr name)" "w1 = dset name entry w"
    "derived_entry t executable g item entry"
    using workload_step_ok [of t executable g w errs item w1] s(1) by blast
  then show ?case using IH by (auto simp: map_of_dset dkeys_def keys_dset split: if_splits)
qed simp

lemma add_core_Inr: "add_core w (k, e) = Inr w' \<longleftrightarrow> k \<notin> set (dkeys w) \<and> w' = dset k e w"
  by (auto simp: add_core_def)

lemma add_core_ok:
  assumes "foldM add_core w seed = Inr w'"
  shows "dict_ok seed \<and> set (dkeys seed) \<inter> set (dkeys w) = {} \<and> set (dkeys w') = set (dkeys w) \<union> set (dkeys seed) \<and>
    (\<forall>k. map_of w' k = (case map_of seed k of Some e \<Rightarrow> Some e | None \<Rightarrow> map_of w k))"
  using assms
proof (induction seed arbitrary: w)
  case (Cons named seed)
  obtain k e where n: "named = (k, e)" by (cases named)
  have s: "k \<notin> set (dkeys w)" "foldM add_core (dset k e w) seed = Inr w'"
    using Cons.prems by (auto simp: n add_core_Inr elim!: bndE)
  from Cons.IH [OF s(2)] s(1) show ?case
    by (auto simp: n dict_ok_def dkeys_def keys_dset map_of_dset split: option.splits dest: map_of_SomeD
        dest!: map_of_eq_None_iff [THEN iffD2])
qed (simp add: dict_ok_def dkeys_def)


section \<open>An example\<close>

definition example_c8s :: pyv where
  "example_c8s = PDict [(''release'', PStr ''v0.66.0''), (''sourceCommit'', PStr ''c0''), (''coreImages'', PList []),
     (''nodeImage'', PDict [(''reference'', PStr ''node''), (''digest'', PStr ''d''), (''tag'', PStr ''rke2-tdx-1'')])]"

definition example_allowlist_policy :: pyv where
  "example_allowlist_policy = PDict [(''schema'', PStr POLICY_SCHEMA),
     (''chart'', PDict [(''release'', PStr ''ci''), (''namespace'', PStr ''ns''), (''kubeVersion'', PStr ''1.31'')]),
     (''workloads'', PList [])]"

definition example_seed_record :: pyv where
  "example_seed_record = PDict [(''sourceCommit'', PStr ''c0''), (''coreImages'', PList []),
     (''allowlist'', PDict [(''schema'', PStr ''c8s.allowlist/v1''), (''workloads'', PDict [(''cds'', PDict [])])])]"

definition example_document :: pyv where
  "example_document = PDict [(''schema'', PStr ''c8s.allowlist/v1''), (''workloads'', PDict [(''cds'', PDict [])])]"

definition example_generate_env :: repo_env where
  "example_generate_env = \<lparr>repo_root = [''repo''],
     file_bytes = map_of
       [([''repo'', ''release'', ''prod'', ''allowlist-policy.json''], dumps json_default example_allowlist_policy),
        ([''repo'', ''release'', ''inputs'', ''c8s-seeds'', ''c0.json''], dumps json_default example_seed_record),
        ([''repo'', ''release'', ''spec.yaml''], ''spec''), ([''overlay.yaml''], ''overlay'')],
     dir_exists = (\<lambda>_. False), realpath = (\<lambda>p. p),
     yaml_load = (\<lambda>s. Inr (if s = ''overlay''
       then PDict [(''attestationReceipts'', PDict [(''releaseId'', PStr ''v1.2.3'')])]
       else PDict [(''c8s'', example_c8s)]))\<rparr>"

definition answer :: "string \<Rightarrow> completed" where
  "answer s = \<lparr>returncode = 0, stdout = s, stderr = []\<rparr>"

definition example_go_version :: string where
  "example_go_version = tab @ ''path'' @ tab @ ''github.com/confidential-dot-ai/c8s/cmd/c8s'' @ nl @ ''vcs.revision=c0''"

definition example_allowlist_tools :: allowlist_tools where
  "example_allowlist_tools = \<lparr>helm_template = (\<lambda>_ _. answer []), yaml_all = (\<lambda>_. Inr []),
     go_version = answer example_go_version, c8s_derive = (\<lambda>_ _ _ _ _. answer []), c8s_lint = (\<lambda>_. answer []),
     canonical_tool = answer, crane_config = (\<lambda>_. answer []), release_commands = example_tools, tmp = ''/tmp/x''\<rparr>"

lemma example_json_ok:
  "json_ok json_default example_allowlist_policy" "json_ok json_default example_seed_record"
  "json_ok json_default example_document"
  by (simp_all add: example_allowlist_policy_def example_seed_record_def example_document_def dict_ok_def POLICY_SCHEMA_def)

lemma run_answer [simp]: "run cmd (answer s) = Inr s"
  by (simp add: run_def answer_def)

lemma example_generation_policy:
  "generation_policy example_generate_env (example_profile ''prod'' []) [''overlay.yaml''] = Inr example_allowlist_policy"
proof -
  have r: "read_json example_generate_env [''repo'', ''release'', ''prod'', ''allowlist-policy.json''] = Inr example_allowlist_policy"
    by (simp add: read_json_def read_text_def read_bytes_def example_generate_env_def json_default_reads [OF example_json_ok(1)])
  have "policy_for_release example_generate_env example_allowlist_policy ''v1.2.3'' = Inr example_allowlist_policy"
    unfolding policy_for_release_def json_default_reads [OF example_json_ok(1)]
    by (simp add: example_allowlist_policy_def dkeys_def)
  then show ?thesis
    by (simp add: generation_policy_def policy_def directory_def example_profile_def r)
      (simp add: read_text_def read_bytes_def example_generate_env_def jget_def example_allowlist_policy_def decode_utf8_ascii)
qed

lemma containsI: "contains p (a @ p @ b)"
  by (auto simp: contains_iff)

lemma example_binary: "verify_c8s_binary example_allowlist_tools e (PStr ''c0'') = Inr ()"
proof -
  let ?p = "tab @ ''path'' @ tab @ ''github.com/confidential-dot-ai/c8s/cmd/c8s'' @ nl"
  have "example_go_version = [] @ ?p @ ''vcs.revision=c0''" "example_go_version = ?p @ ''vcs.revision=c0'' @ []"
    by (simp_all add: example_go_version_def)
  then have "contains ?p example_go_version" "contains ''vcs.revision=c0'' example_go_version"
    by (metis containsI)+
  moreover have "decode_utf8 example_go_version = Inr example_go_version"
    by (rule decode_utf8_ascii) (simp add: example_go_version_def tab_def nl_def)
  ultimately show ?thesis by (simp add: verify_c8s_binary_def example_allowlist_tools_def)
qed

definition example_inputs :: generation_inputs where
  "example_inputs = \<lparr>gi_policy = example_allowlist_policy, gi_c8s = example_c8s, gi_rendered = [], gi_cdi = None,
     gi_core_digests = [], gi_image_env = []\<rparr>"

lemma example_read_inputs:
  "read_inputs example_generate_env example_allowlist_tools (example_profile ''prod'' []) ''c8s'' [''overlay.yaml''] [] =
     Inr example_inputs"
proof -
  have s: "read_spec example_generate_env (example_profile ''prod'' []) = Inr [(''c8s'', example_c8s)]"
    by (simp add: read_spec_def read_spec_step_def spec_files_def example_profile_def is_file_def example_generate_env_def
        read_text_def read_bytes_def decode_utf8_ascii dupdate_def)
  have r: "render_chart example_generate_env example_allowlist_tools example_allowlist_policy (example_profile ''prod'' [])
      [''overlay.yaml''] = Inr []"
    by (simp add: render_chart_def example_allowlist_policy_def example_allowlist_tools_def decode_utf8_ascii Let_def)
  have c: "check_rendered [] example_allowlist_policy = Inr ()" "read_cdi example_generate_env example_allowlist_policy n = Inr None" for n
    by (simp_all add: check_rendered_def read_cdi_def jget_def example_allowlist_policy_def py_set_def dkeys_def)
  show ?thesis
    by (simp add: read_inputs_def example_generation_policy s r controllers_def c)
      (simp add: example_binary example_inputs_def example_c8s_def c)
qed

lemma example_core_seed: "core_seed example_generate_env example_allowlist_tools example_c8s = Inr [(''cds'', PDict [])]"
proof -
  have "seed_document example_generate_env example_allowlist_tools example_c8s =
      Inr (PDict [(''schema'', PStr ''c8s.allowlist/v1''), (''workloads'', PDict [(''cds'', PDict [])])])"
    unfolding seed_document_def
    by (simp add: example_c8s_def example_generate_env_def is_file_def read_json_def read_text_def read_bytes_def
        join_path_def path_is_absolute_def path_parts_def startswith_def json_default_reads [OF example_json_ok(2)])
      (simp add: example_seed_record_def jget_def raise_ifM_def orsM_def)
  then show ?thesis by (simp add: core_seed_def jget_def)
qed

lemma example_generate:
  "generate example_generate_env example_allowlist_tools (example_profile ''prod'' []) ''c8s'' None [''overlay.yaml''] [] =
     Inr (dumps json_default example_document)"
proof -
  have "all_workloads example_generate_env example_allowlist_tools ''c8s'' example_inputs = Inr [(''cds'', PDict [])]"
    by (simp add: all_workloads_def example_inputs_def example_core_seed)
      (simp add: sorted_workloads_def example_allowlist_policy_def example_c8s_def py_sorted_def core_entries_def
        all_containers_def add_core_def dkeys_def)
  moreover have "canonicalize example_allowlist_tools example_document None = Inr (dumps json_default example_document)"
    by (simp add: canonicalize_def example_allowlist_tools_def)
  moreover have "read_accepted_findings example_generate_env (accepted_findings (example_profile ''prod'' [])) = Inr []"
    by (simp add: read_accepted_findings_def is_file_def example_generate_env_def accepted_findings_def directory_def example_profile_def)
  moreover have "lint (c8s_lint example_allowlist_tools x) [] = Inr ()" for x
    by (simp add: lint_def example_allowlist_tools_def answer_def)
  ultimately show ?thesis
    by (simp add: generate_def example_read_inputs json_default_reads [OF example_json_ok(3)] flip: example_document_def)
      (simp add: example_document_def check_egress_kept_def jget_def)
qed


lemma example_lint_lines:
  "lint_lines \<lparr>returncode = 1, stdout = ''0 lint error(s)'', stderr = []\<rparr> = [''0 lint error(s)'']"
  by (simp add: lint_lines_def splitlines_def splitlines_keepends_def is_line_break_def str_strip_def is_space_def)

theorem lint_exact_witness: "lint \<lparr>returncode = 1, stdout = ''0 lint error(s)'', stderr = []\<rparr> [] = Inr ()"
proof -
  have "line_finding ''0 lint error(s)'' = None"
    by (simp add: line_finding_def SEARCH_PATH_FINDING_def fullmatch_lit_Seq startswith_def)
  moreover have "line_summary ''0 lint error(s)'' = Some 0"
    by (simp add: line_summary_def LINT_SUMMARY_def rx_digits_def rx_eval is_digit_def nat_of_digits_def)
  ultimately show ?thesis
    using lint_exact [of "\<lparr>returncode = 1, stdout = ''0 lint error(s)'', stderr = []\<rparr>" "[]"]
    by (simp add: example_lint_lines map_filter_simps)
qed

end
