(* ===== verification/Release_Signature.thy ===== *)
theory Release_Signature
  imports C8s_Release
begin

text \<open>
  \<open>scripts/release_signature.py\<close> and \<open>scripts/verify-release-bundle-signature.py\<close>: the check of a
  release document's keyless signature against the trust policy in the repository.

  What \<open>is_symlink\<close> says of a path, the JSON schema validator and the Cosign program are arguments:
  the validator gives the message of the first violation, and Cosign answers \<open>version --json\<close> and a
  \<open>verify-blob\<close> request.
\<close>

section \<open>Files\<close>

abbreviation signature_error :: "string \<Rightarrow> exn" where
  "signature_error m \<equiv> Exn ReleaseSignatureError m"

record signature_request =
  rq_bundle :: string
  rq_root :: string
  rq_identity :: string
  rq_issuer :: string
  rq_repository :: string
  rq_ref :: string
  rq_name :: string
  rq_trigger :: string
  rq_sha :: string
  rq_blob :: string

record signature_env = repo_env +
  is_link :: "path \<Rightarrow> bool"
  schema_violation :: "pyv \<Rightarrow> pyv \<Rightarrow> string option"
  cosign_version_json :: "completed res"
  cosign_verify :: "signature_request \<Rightarrow> completed res"

definition read_regular_file :: "signature_env \<Rightarrow> path \<Rightarrow> string \<Rightarrow> nat option \<Rightarrow> string res" where
  "read_regular_file env p label maximum =
     (case file_bytes env p of
        None \<Rightarrow> Inl (signature_error (''the '' @ label @ '' must be a regular file''))
      | Some b \<Rightarrow>
          if is_link env p then Inl (signature_error (''the '' @ label @ '' must be a regular file''))
          else if (case maximum of None \<Rightarrow> False | Some m \<Rightarrow> m < length b)
          then Inl (signature_error (''the '' @ label @ '' is too large''))
          else Inr b)"

definition read_object :: "signature_env \<Rightarrow> path \<Rightarrow> string \<Rightarrow> nat option \<Rightarrow> (string \<times> pydict) res" where
  "read_object env p label maximum =
     bnd (read_regular_file env p label maximum) (\<lambda>b.
     bnd (try_except (loads_bytes b) [UnicodeError, JSONDecodeError]
            (\<lambda>_. Inl (signature_error (''the '' @ label @ '' is not valid JSON'')))) (\<lambda>document.
       case document of
         PDict d \<Rightarrow> Inr (b, d)
       | _ \<Rightarrow> Inl (signature_error (''the '' @ label @ '' must contain one JSON object''))))"

definition required_text :: "pyv \<Rightarrow> string \<Rightarrow> string res" where
  "required_text v label =
     (case v of
        PStr s \<Rightarrow> if s = [] then Inl (signature_error (''the '' @ label @ '' is invalid'')) else Inr s
      | _ \<Rightarrow> Inl (signature_error (''the '' @ label @ '' is invalid'')))"

definition resolve_repository_file :: "signature_env \<Rightarrow> pyv \<Rightarrow> string \<Rightarrow> path res" where
  "resolve_repository_file env v label =
     bnd (required_text v label) (\<lambda>relative.
     bnd (raise_if (path_is_absolute relative)
            (signature_error (''the '' @ label @ '' must be relative to the repository''))) (\<lambda>_.
       let p = realpath env (join_path (repo_root env) relative) in
       if under (realpath env (repo_root env)) p then Inr p
       else Inl (signature_error (''the '' @ label @ '' leaves the repository''))))"

section \<open>Tags and environments\<close>

definition tag_char :: "char \<Rightarrow> bool" where
  "tag_char c = (is_lower c \<or> is_digit c \<or> c \<in> set ''._-'')"

definition RELEASE_RE :: rx where
  "RELEASE_RE = RSeq (RChr (\<lambda>c. is_lower c \<or> is_digit c)) (rx_range 0 127 (RChr tag_char))"

definition LEGACY_TAG_ENVIRONMENTS :: "(rx \<times> string) list" where
  "LEGACY_TAG_ENVIRONMENTS =
     [(rx_seqs [rx_lit ''v'', RChr is_digit, rx_range 0 126 (RChr tag_char)], ''production''),
      (rx_seqs [rx_lit ''integration-staging-v'', RChr is_digit, rx_range 0 106 (RChr tag_char)], ''integration-staging''),
      (rx_seqs [rx_lit ''conf-inference-prod-v'', RChr is_digit, rx_range 0 107 (RChr tag_char)], ''conf-inference-prod'')]"

definition environment_for_tag :: "signature_env \<Rightarrow> string \<Rightarrow> pyv res" where
  "environment_for_tag env tag =
     try_except (bnd (for_tag (repo_env.truncate env) tag) (\<lambda>p. Inr (environment p))) [ProfileError] (\<lambda>_.
       case find (\<lambda>(r, _). fullmatch r tag) LEGACY_TAG_ENVIRONMENTS of
         Some (_, e) \<Rightarrow> Inr (PStr e)
       | None \<Rightarrow> Inl (signature_error ''the release tag is not an allowed environment tag''))"

section \<open>The trust policy\<close>

definition POLICY_PATH :: "signature_env \<Rightarrow> path" where
  "POLICY_PATH env = repo_root env @ [''releases'', ''trust'', ''release-signing-policy.json'']"

definition policy_values :: "(string \<times> string) list" where
  "policy_values =
     [(''schema'', ''confidential-inference.release-trust/v1''),
      (''signatureType'', ''sigstore-keyless''),
      (''repository'', ''https://github.com/confidential-dot-ai/confidential-inference''),
      (''certificateOidcIssuer'', ''https://token.actions.githubusercontent.com''),
      (''certificateIdentityTemplate'',
       ''https://github.com/confidential-dot-ai/confidential-inference/.github/workflows/release-bundle.yml@refs/tags/{release}'')]"

definition policy_workflow :: pyv where
  "policy_workflow = PDict
     [(''name'', PStr ''Signed release bundle''), (''path'', PStr ''.github/workflows/release-bundle.yml''),
      (''repository'', PStr ''confidential-dot-ai/confidential-inference''),
      (''refTemplate'', PStr ''refs/tags/{release}''), (''trigger'', PStr ''push'')]"

definition get :: "pydict \<Rightarrow> string \<Rightarrow> pyv" where
  "get d k = (case map_of d k of None \<Rightarrow> PNone | Some v \<Rightarrow> v)"

definition read_policy :: "signature_env \<Rightarrow> pydict \<Rightarrow> (string \<times> pydict) res" where
  "read_policy env trust =
     bnd (raise_if (get trust ''policyPath'' \<noteq> PStr ''releases/trust/release-signing-policy.json'')
            (signature_error ''the release signing policy path is invalid'')) (\<lambda>_.
     bnd (read_object env (POLICY_PATH env) ''release signing policy'' None) (\<lambda>(policy_bytes, pol).
     bnd (raise_if (get trust ''policySha256'' \<noteq> PStr (sha256 policy_bytes))
            (signature_error ''the release signing policy digest differs from the bundle'')) (\<lambda>_.
     bnd (raise_if (get trust ''signatureType'' \<noteq> PStr ''sigstore-keyless'')
            (signature_error ''the release signature type is invalid'')) (\<lambda>_.
     bnd (raise_if (list_ex (\<lambda>(name, v). get pol name \<noteq> PStr v) policy_values)
            (signature_error ''the release signing policy has an unexpected trust value'')) (\<lambda>_.
       Inr (policy_bytes, pol))))))"

definition check_source :: "pydict \<Rightarrow> pydict \<Rightarrow> unit res" where
  "check_source release pol =
     (case get release ''source'' of
        PDict source \<Rightarrow>
          raise_if (\<not> py_eq (get source ''repository'') (get pol ''repository''))
            (signature_error ''the release source repository differs from the signing policy'')
      | _ \<Rightarrow> Inl (signature_error ''the release source repository differs from the signing policy''))"

definition release_name :: "signature_env \<Rightarrow> pydict \<Rightarrow> string res" where
  "release_name env release =
     (case get release ''release'' of
        PDict metadata \<Rightarrow>
          (case get metadata ''name'' of
             PStr name \<Rightarrow>
               if fullmatch RELEASE_RE name
               then bnd (environment_for_tag env name) (\<lambda>expected.
                    bnd (raise_if (\<not> py_eq (get metadata ''environment'') expected)
                           (signature_error ''the release environment does not match its protected tag'')) (\<lambda>_.
                      Inr name))
               else Inl (signature_error ''the release name is invalid'')
           | _ \<Rightarrow> Inl (signature_error ''the release name is invalid''))
      | _ \<Rightarrow> Inl (signature_error ''the release name is invalid''))"

definition read_trusted_root :: "signature_env \<Rightarrow> pydict \<Rightarrow> string res" where
  "read_trusted_root env pol =
     (case get pol ''trustedRoot'' of
        PDict trusted_root \<Rightarrow>
          bnd (resolve_repository_file env (get trusted_root ''path'') ''trusted-root path'') (\<lambda>p.
          bnd (read_regular_file env p ''Sigstore trusted root'' None) (\<lambda>b.
          bnd (raise_if (get trusted_root ''sha256'' \<noteq> PStr (sha256 b))
                 (signature_error ''the Sigstore trusted-root digest differs from the policy'')) (\<lambda>_.
            Inr b)))
      | _ \<Rightarrow> Inl (signature_error ''the Sigstore trusted-root policy is invalid''))"

text \<open>The policy bytes, the policy, the trusted root's bytes and the certificate identity.\<close>

definition validate_policy :: "signature_env \<Rightarrow> pydict \<Rightarrow> (string \<times> pydict \<times> string \<times> string) res" where
  "validate_policy env release =
     (case get release ''releaseTrust'' of
        PDict trust \<Rightarrow>
          bnd (read_policy env trust) (\<lambda>(policy_bytes, pol).
          bnd (check_source release pol) (\<lambda>_.
          bnd (release_name env release) (\<lambda>name.
          bnd (raise_if (\<not> is_dict (get pol ''githubWorkflow'') \<or> \<not> py_eq (get pol ''githubWorkflow'') policy_workflow)
                 (signature_error ''the GitHub workflow trust policy is invalid'')) (\<lambda>_.
          bnd (read_trusted_root env pol) (\<lambda>root_bytes.
          bnd (str_method (get pol ''certificateIdentityTemplate'')) (\<lambda>template.
            Inr (policy_bytes, pol, root_bytes, str_replace ''{release}'' name template)))))))
      | _ \<Rightarrow> Inl (signature_error ''the release has no signing policy reference''))"

section \<open>Verification\<close>

definition schema_file :: "signature_env \<Rightarrow> pydict \<Rightarrow> path option \<Rightarrow> path" where
  "schema_file env release schema_path =
     (case schema_path of
        Some p \<Rightarrow> p
      | None \<Rightarrow> repo_root env @ [''api'',
          if get release ''schema'' = PStr ''confidential.ai/release-manifest/v1''
          then ''release-manifest.schema.json'' else ''release-bundle.schema.json''])"

definition validate_release_schema :: "signature_env \<Rightarrow> pydict \<Rightarrow> path option \<Rightarrow> unit res" where
  "validate_release_schema env release schema_path =
     bnd (read_object env (schema_file env release schema_path) ''release schema'' (Some (512 * 1024))) (\<lambda>(_, schema).
       case schema_violation env (PDict schema) (PDict release) of
         None \<Rightarrow> Inr ()
       | Some m \<Rightarrow> Inl (signature_error (''the release-bundle schema failed at '' @ m)))"

definition cosign_version :: "signature_env \<Rightarrow> pydict \<Rightarrow> pydict res" where
  "cosign_version env pol =
     (case get pol ''cosign'' of
        PDict expected \<Rightarrow>
          bnd (try_except (bnd (cosign_version_json env) (\<lambda>r. if returncode r = 0 then loads (stdout r) else Inr PNone))
                 [OSError, SubprocessError, JSONDecodeError]
                 (\<lambda>_. Inl (signature_error ''cannot run the required Cosign verifier''))) (\<lambda>actual.
            case actual of
              PDict a \<Rightarrow>
                if list_ex (\<lambda>name. \<not> py_eq (get a name) (get expected name)) [''gitVersion'', ''gitCommit'']
                then Inl (signature_error ''the Cosign verifier version differs from the policy'') else Inr a
            | _ \<Rightarrow> Inl (signature_error ''the Cosign verifier version differs from the policy''))
      | _ \<Rightarrow> Inl (signature_error ''the Cosign tool policy is invalid''))"

definition last_line :: "string \<Rightarrow> string" where
  "last_line text = (case rev (splitlines (str_strip text)) of [] \<Rightarrow> [] | l # _ \<Rightarrow> '': '' @ l)"

definition signature_request_of ::
  "pydict \<Rightarrow> pydict \<Rightarrow> string \<Rightarrow> string \<Rightarrow> string \<Rightarrow> string \<Rightarrow> signature_request res" where
  "signature_request_of release pol root_bytes identity release_bytes signature_bytes =
     bnd (bnd (jidx (PDict release) ''release'') (\<lambda>r. bnd (jidx r ''name'') arg_text)) (\<lambda>name.
     bnd (jidx (PDict pol) ''githubWorkflow'') (\<lambda>workflow.
     bnd (bnd (jidx workflow ''refTemplate'') str_method) (\<lambda>template.
     bnd (bnd (jidx (PDict pol) ''certificateOidcIssuer'') arg_text) (\<lambda>issuer.
     bnd (bnd (jidx workflow ''repository'') arg_text) (\<lambda>repository.
     bnd (bnd (jidx workflow ''name'') arg_text) (\<lambda>workflow_name.
     bnd (bnd (jidx workflow ''trigger'') arg_text) (\<lambda>trigger.
     bnd (bnd (jidx (PDict release) ''source'') (\<lambda>s. bnd (jidx s ''commit'') arg_text)) (\<lambda>commit.
       Inr \<lparr>rq_bundle = signature_bytes, rq_root = root_bytes, rq_identity = identity, rq_issuer = issuer,
            rq_repository = repository, rq_ref = str_replace ''{release}'' name template,
            rq_name = workflow_name, rq_trigger = trigger, rq_sha = commit, rq_blob = release_bytes\<rparr>))))))))"

definition log_entries :: "pydict \<Rightarrow> nat res" where
  "log_entries signature_document =
     bnd (jgetd (PDict signature_document) ''verificationMaterial'' (PDict [])) (\<lambda>m.
     bnd (jgetd m ''tlogEntries'' (PList [])) jlen)"

definition verify_release_signature :: "signature_env \<Rightarrow> path \<Rightarrow> path \<Rightarrow> path \<Rightarrow> path option \<Rightarrow> pydict res" where
  "verify_release_signature env release_path bundle_path cosign schema_path =
     bnd (raise_if (file_bytes env cosign = None \<or> is_link env cosign)
            (signature_error ''the required Cosign verifier is not a file'')) (\<lambda>_.
     bnd (read_object env release_path ''release bundle'' (Some (2 * 1024 * 1024))) (\<lambda>(release_bytes, release).
     bnd (validate_release_schema env release schema_path) (\<lambda>_.
     bnd (read_object env bundle_path ''Sigstore signature bundle'' (Some (2 * 1024 * 1024))) (\<lambda>(signature_bytes, document).
     bnd (raise_if (get document ''mediaType'' \<noteq> PStr ''application/vnd.dev.sigstore.bundle.v0.3+json'')
            (signature_error ''the Sigstore bundle does not use the required v0.3 format'')) (\<lambda>_.
     bnd (validate_policy env release) (\<lambda>(policy_bytes, pol, root_bytes, identity).
     bnd (cosign_version env pol) (\<lambda>version.
     bnd (signature_request_of release pol root_bytes identity release_bytes signature_bytes) (\<lambda>request.
     bnd (try_except (cosign_verify env request) [OSError, SubprocessError]
            (\<lambda>_. Inl (signature_error ''Cosign could not verify the release signature''))) (\<lambda>result.
     bnd (raise_if (returncode result \<noteq> 0)
            (signature_error (''the release signature is not valid'' @ last_line (stderr result)))) (\<lambda>_.
     bnd (log_entries document) (\<lambda>entries.
     bnd (jidx (PDict version) ''gitVersion'') (\<lambda>git_version.
     bnd (jidx (PDict version) ''gitCommit'') (\<lambda>git_commit.
       Inr [(''verified'', PBool True), (''releaseBundleBytesSha256'', PStr (sha256 release_bytes)),
            (''signatureBundleBytesSha256'', PStr (sha256 signature_bytes)),
            (''releaseTrustPolicySha256'', PStr (sha256 policy_bytes)),
            (''certificateIdentity'', PStr identity), (''certificateOidcIssuer'', PStr (rq_issuer request)),
            (''githubWorkflowRepository'', PStr (rq_repository request)),
            (''githubWorkflowRef'', PStr (rq_ref request)), (''githubWorkflowName'', PStr (rq_name request)),
            (''githubWorkflowTrigger'', PStr (rq_trigger request)),
            (''transparencyLogEntries'', PInt (int entries)),
            (''cosignVersion'', git_version), (''cosignCommit'', git_commit)])))))))))))))"

text \<open>The command: its output or its error line, and the exit code.\<close>

definition main_verify :: "signature_env \<Rightarrow> path \<Rightarrow> path \<Rightarrow> path option \<Rightarrow> (string \<times> int) res" where
  "main_verify env bundle signature_bundle cosign =
     (case cosign of
        None \<Rightarrow> Inr (''verification failed: the required Cosign verifier is not installed'', 1)
      | Some c \<Rightarrow>
          try_except (bnd (verify_release_signature env bundle signature_bundle c None) (\<lambda>output.
              Inr (dumps (json_compact\<lparr>sort_keys := True\<rparr>) (PDict output), 0)))
            [OSError, ReleaseSignatureError] (\<lambda>e. Inr (''verification failed: '' @ msg e, 1)))"

section \<open>What an accepted signature shows\<close>

lemma read_regular_file_Inr:
  "read_regular_file env p label maximum = Inr b \<longleftrightarrow>
     file_bytes env p = Some b \<and> \<not> is_link env p \<and> (case maximum of None \<Rightarrow> True | Some m \<Rightarrow> length b \<le> m)"
  by (auto simp: read_regular_file_def split: option.splits if_splits)

lemma dict_case_Inr:
  "(case v of PDict d \<Rightarrow> Inr (b, d) | _ \<Rightarrow> Inl e) = Inr x \<longleftrightarrow> (\<exists>d. v = PDict d \<and> x = (b, d))"
  by (cases v) auto

lemma read_object_Inr:
  "read_object env p label maximum = Inr (b, d) \<longleftrightarrow>
     read_regular_file env p label maximum = Inr b \<and> loads_bytes b = Inr (PDict d)"
  by (auto simp: read_object_def res_simps bnd_eq_Inr dict_case_Inr)

lemma str_replace_end: "x \<notin> set a \<Longrightarrow> str_replace (x # p) new (a @ x # p) = a @ new"
proof (induction a)
  case Nil
  show ?case by (simp add: startswith_def)
next
  case (Cons y a)
  then show ?case by (auto simp: startswith_def)
qed

lemma policy_value: "list_ex (\<lambda>(name, v). get d name \<noteq> PStr v) policy_values = False \<Longrightarrow>
    (name, v) \<in> set policy_values \<Longrightarrow> get d name = PStr v"
  by (auto simp: list_ex_iff)

definition trusted_release :: "signature_env \<Rightarrow> pydict \<Rightarrow> string \<Rightarrow> pydict \<Rightarrow> string \<Rightarrow> string \<Rightarrow> bool" where
  "trusted_release env release policy_bytes pol root_bytes name \<longleftrightarrow>
     file_bytes env (POLICY_PATH env) = Some policy_bytes \<and> loads_bytes policy_bytes = Inr (PDict pol) \<and>
     (\<exists>trust. get release ''releaseTrust'' = PDict trust \<and> get trust ''policySha256'' = PStr (sha256 policy_bytes)) \<and>
     (\<exists>root. get pol ''trustedRoot'' = PDict root \<and> get root ''sha256'' = PStr (sha256 root_bytes)) \<and>
     py_eq (get pol ''githubWorkflow'') policy_workflow \<and>
     (\<exists>metadata e. get release ''release'' = PDict metadata \<and> get metadata ''name'' = PStr name \<and>
        environment_for_tag env name = Inr e \<and> py_eq (get metadata ''environment'') e)"

lemma read_policy_Inr:
  assumes "read_policy env trust = Inr (policy_bytes, pol)"
  shows "file_bytes env (POLICY_PATH env) = Some policy_bytes \<and> loads_bytes policy_bytes = Inr (PDict pol) \<and>
    get trust ''policySha256'' = PStr (sha256 policy_bytes) \<and>
    (\<forall>(name, v) \<in> set policy_values. get pol name = PStr v)"
  using assms unfolding read_policy_def
  by (auto simp: raise_if_eq_Inr read_object_Inr read_regular_file_Inr list_ex_iff elim!: bndE)

lemma release_name_Inr:
  assumes "release_name env release = Inr name"
  shows "\<exists>metadata e. get release ''release'' = PDict metadata \<and> get metadata ''name'' = PStr name \<and>
    fullmatch RELEASE_RE name \<and> environment_for_tag env name = Inr e \<and> py_eq (get metadata ''environment'') e"
  using assms unfolding release_name_def
  by (auto simp: raise_if_eq_Inr elim!: bndE split: pyv.splits if_splits)

lemma read_trusted_root_Inr:
  assumes "read_trusted_root env pol = Inr b"
  shows "\<exists>root. get pol ''trustedRoot'' = PDict root \<and> get root ''sha256'' = PStr (sha256 b)"
  using assms unfolding read_trusted_root_def
  by (auto simp: raise_if_eq_Inr elim!: bndE split: pyv.splits)

lemma validate_policy_Inr:
  assumes "validate_policy env release = Inr (policy_bytes, pol, root_bytes, identity)"
  shows "\<exists>name. trusted_release env release policy_bytes pol root_bytes name \<and>
    get pol ''certificateOidcIssuer'' = PStr ''https://token.actions.githubusercontent.com'' \<and>
    identity = ''https://github.com/confidential-dot-ai/confidential-inference/.github/workflows/release-bundle.yml@refs/tags/'' @ name"
proof -
  obtain trust where trust: "get release ''releaseTrust'' = PDict trust"
    using assms by (cases "get release ''releaseTrust''") (auto simp: validate_policy_def)
  obtain name template where
    v: "read_policy env trust = Inr (policy_bytes, pol)" "release_name env release = Inr name"
    "py_eq (get pol ''githubWorkflow'') policy_workflow" "read_trusted_root env pol = Inr root_bytes"
    "get pol ''certificateIdentityTemplate'' = PStr template" "identity = str_replace ''{release}'' name template"
    using assms trust unfolding validate_policy_def
    by (auto simp: raise_if_eq_Inr str_method_eq_Inr elim!: bndE)
  note p = read_policy_Inr [OF v(1)]
  let ?prefix = "''https://github.com/confidential-dot-ai/confidential-inference/.github/workflows/release-bundle.yml@refs/tags/''"
  have val: "get pol ''certificateIdentityTemplate'' = PStr (?prefix @ ''{release}'')"
    "get pol ''certificateOidcIssuer'' = PStr ''https://token.actions.githubusercontent.com''"
    using p by (auto simp: policy_values_def)
  have "identity = ?prefix @ name"
    using v(5,6) val(1) str_replace_end [of "CHR ''{''" ?prefix "''release}''" name] by simp
  moreover have "trusted_release env release policy_bytes pol root_bytes name"
    unfolding trusted_release_def
    using p trust release_name_Inr [OF v(2)] read_trusted_root_Inr [OF v(4)] v(3) by blast
  ultimately show ?thesis using val(2) by blast
qed


section \<open>An example\<close>

definition example_root_bytes :: string where
  "example_root_bytes = ''{}''"

definition example_pol :: pydict where
  "example_pol = map (\<lambda>(k, v). (k, PStr v)) policy_values @
     [(''githubWorkflow'', policy_workflow),
      (''trustedRoot'', PDict [(''path'', PStr ''releases/trust/root.json''), (''sha256'', PStr (sha256 example_root_bytes))]),
      (''cosign'', PDict [(''gitVersion'', PStr ''v2''), (''gitCommit'', PStr ''c0'')])]"

definition example_pol_bytes :: string where
  "example_pol_bytes = dumps json_default (PDict example_pol)"

definition example_release :: pydict where
  "example_release =
     [(''releaseTrust'', PDict [(''policyPath'', PStr ''releases/trust/release-signing-policy.json''),
        (''policySha256'', PStr (sha256 example_pol_bytes)), (''signatureType'', PStr ''sigstore-keyless'')]),
      (''source'', PDict [(''repository'', PStr ''https://github.com/confidential-dot-ai/confidential-inference''),
        (''commit'', PStr ''0a1b'')]),
      (''release'', PDict [(''name'', PStr ''v0.1''), (''environment'', PStr ''production'')])]"

definition example_bundle :: pydict where
  "example_bundle = [(''mediaType'', PStr ''application/vnd.dev.sigstore.bundle.v0.3+json'')]"

definition example_signature_env :: signature_env where
  "example_signature_env = \<lparr>repo_root = [''repo''],
     file_bytes = map_of
       [([''repo'', ''releases'', ''trust'', ''release-signing-policy.json''], example_pol_bytes),
        ([''repo'', ''releases'', ''trust'', ''root.json''], example_root_bytes),
        ([''repo'', ''api'', ''release-bundle.schema.json''], dumps json_default (PDict [])),
        ([''release.json''], dumps json_default (PDict example_release)),
        ([''bundle.json''], dumps json_default (PDict example_bundle)), ([''cosign''], [])],
     dir_exists = (\<lambda>_. True), realpath = (\<lambda>p. p), yaml_load = (\<lambda>_. Inr PNone), is_link = (\<lambda>_. False),
     schema_violation = (\<lambda>_ _. None),
     cosign_version_json = Inr \<lparr>returncode = 0,
       stdout = dumps json_default (PDict [(''gitVersion'', PStr ''v2''), (''gitCommit'', PStr ''c0'')]), stderr = []\<rparr>,
     cosign_verify = (\<lambda>_. Inr \<lparr>returncode = 0, stdout = [], stderr = []\<rparr>)\<rparr>"

lemma is_ascii_tagged_sha256: "is_ascii (sha256 b)"
  using hex_is_ascii [OF sha256_hex_shape(2) [of b]] by (simp add: sha256_def is_ascii_def)

lemma example_documents:
  "json_ok json_default (PDict example_pol)" "json_ok json_default (PDict example_release)"
  "json_ok json_default (PDict example_bundle)"
  "json_ok json_default (PDict [(''gitVersion'', PStr ''v2''), (''gitCommit'', PStr ''c0'')])"
  using is_ascii_tagged_sha256
  by (simp_all add: example_pol_def example_release_def example_bundle_def policy_values_def policy_workflow_def
      dict_ok_def is_ascii_def)

lemma example_get:
  "get example_pol ''schema'' = PStr ''confidential-inference.release-trust/v1''"
  "get example_pol ''repository'' = PStr ''https://github.com/confidential-dot-ai/confidential-inference''"
  "get example_pol ''githubWorkflow'' = policy_workflow"
  "get example_pol ''cosign'' = PDict [(''gitVersion'', PStr ''v2''), (''gitCommit'', PStr ''c0'')]"
  "get example_pol ''certificateOidcIssuer'' = PStr ''https://token.actions.githubusercontent.com''"
  "get example_pol ''trustedRoot'' =
     PDict [(''path'', PStr ''releases/trust/root.json''), (''sha256'', PStr (sha256 example_root_bytes))]"
  "\<exists>t. get example_pol ''certificateIdentityTemplate'' = PStr t"
  by (simp_all add: get_def example_pol_def policy_values_def)

lemma example_policy_values: "\<not> list_ex (\<lambda>(name, v). get example_pol name \<noteq> PStr v) policy_values"
  by (simp add: list_ex_iff get_def example_pol_def policy_values_def)

lemma length_dump_code: "n < 128 \<Longrightarrow> length (dump_code n) \<le> 6"
  by (simp add: dump_code_def u_escape_def u4_def)

lemma length_concat_le: "(\<And>x. x \<in> set xs \<Longrightarrow> length (f x) \<le> k) \<Longrightarrow> length (concat (map f xs)) \<le> k * length xs"
  by (induction xs) force+

lemma length_dump_str: "is_ascii s \<Longrightarrow> length (dump_str True s) \<le> 6 * length s + 2"
  using length_concat_le [of s "\<lambda>c. dump_code (code c)" 6]
  by (simp add: dump_str_def code_points_ascii comp_def length_dump_code is_ascii_def list_all_iff)

lemma length_dump_str_Cons:
  "is_ascii (c # s) \<Longrightarrow> length (dump_str True (c # s)) = 2 + length (concat (map (\<lambda>c. dump_code (code c)) (c # s)))"
  by (simp add: dump_str_def code_points_ascii comp_def)

lemma length_sha256: "length (sha256 b) = 71"
  by (simp add: sha256_def sha256_hex_shape)

lemma example_lengths:
  "length (dumps json_default (PDict example_release)) \<le> 2 * 1024 * 1024"
  "length (dumps json_default (PDict example_bundle)) \<le> 2 * 1024 * 1024"
  "length (dumps json_default (PDict [])) \<le> 512 * 1024"
  using length_dump_str [OF is_ascii_tagged_sha256 [of example_pol_bytes]]
  by (simp_all add: length_sha256 length_dump_str_Cons is_ascii_def dumps_def json_default_def example_release_def example_bundle_def
     newline_def dump_code_def)

lemma json_ok_empty: "json_ok json_default (PDict [])"
  by (simp add: dict_ok_def)

lemma example_read:
  "read_object example_signature_env [''release.json''] l (Some (2 * 1024 * 1024)) =
     Inr (dumps json_default (PDict example_release), example_release)"
  "read_object example_signature_env [''bundle.json''] l (Some (2 * 1024 * 1024)) =
     Inr (dumps json_default (PDict example_bundle), example_bundle)"
  "read_object example_signature_env (POLICY_PATH example_signature_env) l None = Inr (example_pol_bytes, example_pol)"
  "read_object example_signature_env [''repo'', ''api'', ''release-bundle.schema.json''] l (Some (512 * 1024)) =
     Inr (dumps json_default (PDict []), [])"
  using example_lengths
  by (simp_all add: read_object_Inr read_regular_file_Inr POLICY_PATH_def example_signature_env_def example_pol_bytes_def
      json_default_reads [OF example_documents(1)] json_default_reads [OF example_documents(2)]
      json_default_reads [OF example_documents(3)] json_default_reads [OF json_ok_empty])

lemma example_tag_environment: "environment_for_tag example_signature_env ''v0.1'' = Inr (PStr ''production'')"
proof -
  have "\<exists>m. load (repo_env.truncate example_signature_env) = Inl (profile_error m)"
    by (simp add: load_def example_signature_env_def repo_env.defs read_text_def read_bytes_def PROFILES_def try_except_def bnd_def catches_def)
  moreover have "find (\<lambda>(r, _). fullmatch r ''v0.1'') LEGACY_TAG_ENVIRONMENTS = Some (hd LEGACY_TAG_ENVIRONMENTS)"
    using fullmatch_Seq_lit [of "''v''"]
    by (simp add: LEGACY_TAG_ENVIRONMENTS_def fullmatch_chr_Seq fullmatch_upto_class tag_char_def is_digit_def is_lower_def)
  ultimately show ?thesis
    by (auto simp: environment_for_tag_def for_tag_def load_suffixed_def LEGACY_TAG_ENVIRONMENTS_def try_except_def catches_def)
qed

lemma example_validate:
  "validate_policy example_signature_env example_release = Inr (example_pol_bytes, example_pol, example_root_bytes,
     ''https://github.com/confidential-dot-ai/confidential-inference/.github/workflows/release-bundle.yml@refs/tags/v0.1'')"
proof -
  have t: "get example_release ''releaseTrust'' = PDict [(''policyPath'', PStr ''releases/trust/release-signing-policy.json''),
        (''policySha256'', PStr (sha256 example_pol_bytes)), (''signatureType'', PStr ''sigstore-keyless'')]"
    by (simp add: get_def example_release_def)
  have p: "read_policy example_signature_env [(''policyPath'', PStr ''releases/trust/release-signing-policy.json''),
        (''policySha256'', PStr (sha256 example_pol_bytes)), (''signatureType'', PStr ''sigstore-keyless'')]
      = Inr (example_pol_bytes, example_pol)"
    using example_policy_values by (simp add: read_policy_def get_def [of "_ # _"] example_read)
  have s: "check_source example_release example_pol = Inr ()"
    by (simp add: check_source_def example_get) (simp add: get_def [of example_release] get_def [of "_ # _"] example_get(2)
        example_release_def)
  have n: "release_name example_signature_env example_release = Inr ''v0.1''"
    by (simp add: release_name_def get_def example_release_def example_tag_environment RELEASE_RE_def fullmatch_chr_Seq
        fullmatch_upto_class tag_char_def is_digit_def is_lower_def)
  have r: "read_trusted_root example_signature_env example_pol = Inr example_root_bytes"
    by (simp add: read_trusted_root_def example_get)
      (simp add: get_def required_text_def resolve_repository_file_def read_regular_file_def example_signature_env_def
        path_is_absolute_def join_path_def under_def
        path_parts_def startswith_def Let_def)
  have "get example_pol ''certificateIdentityTemplate'' = PStr ''https://github.com/confidential-dot-ai/confidential-inference/.github/workflows/release-bundle.yml@refs/tags/{release}''"
    by (simp add: get_def example_pol_def policy_values_def)
  then show ?thesis by (simp add: validate_policy_def t p s n r example_get policy_workflow_def startswith_def)
qed

lemma example_verify:
  "\<exists>facts. verify_release_signature example_signature_env [''release.json''] [''bundle.json''] [''cosign''] None = Inr facts"
proof -
  have e: "file_bytes example_signature_env [''cosign''] = Some []" "\<not> is_link example_signature_env [''cosign'']"
    "schema_violation example_signature_env = (\<lambda>_ _. None)" "repo_root example_signature_env = [''repo'']"
    "cosign_verify example_signature_env = (\<lambda>_. Inr \<lparr>returncode = 0, stdout = [], stderr = []\<rparr>)"
    by (simp_all add: example_signature_env_def)
  have s: "schema_file example_signature_env example_release None = [''repo'', ''api'', ''release-bundle.schema.json'']"
    by (simp add: schema_file_def e get_def example_release_def)
  have m: "get example_bundle ''mediaType'' = PStr ''application/vnd.dev.sigstore.bundle.v0.3+json''"
    "log_entries example_bundle = Inr 0"
    by (simp_all add: get_def example_bundle_def log_entries_def)
  have c: "cosign_version example_signature_env example_pol = Inr [(''gitVersion'', PStr ''v2''), (''gitCommit'', PStr ''c0'')]"
    by (simp add: cosign_version_def example_get)
      (simp add: example_signature_env_def json_default_reads [OF example_documents(4)] get_def)
  have q: "\<exists>r. signature_request_of example_release example_pol root_bytes identity b sb = Inr r" for root_bytes identity b sb
    using example_get by (simp add: signature_request_of_def example_release_def arg_text_def policy_workflow_def example_pol_def policy_values_def)
  obtain r where "signature_request_of example_release example_pol example_root_bytes
     ''https://github.com/confidential-dot-ai/confidential-inference/.github/workflows/release-bundle.yml@refs/tags/v0.1''
     (dumps json_default (PDict example_release)) (dumps json_default (PDict example_bundle)) = Inr r" using q by blast
  then show ?thesis
    by (simp add: verify_release_signature_def e c validate_release_schema_def example_read [simplified] s m example_validate)
qed


end
