(* ===== verification/Manifest_Inputs.thy ===== *)
theory Manifest_Inputs
  imports Allowlist_Generate Release_Signature
begin

text \<open>
  \<open>scripts/build-release-manifest.py\<close>, lines 116 to 458: the checks of the inputs of a release. The
  specification, the allowlist policy, the agreement of the rendered chart with the specification and
  with the generated allowlist, the identity of the chart and the node measurements.
\<close>

abbreviation manifest_error :: "string \<Rightarrow> exn" where
  "manifest_error m \<equiv> Exn ManifestError m"

definition require :: "bool \<Rightarrow> string \<Rightarrow> unit res" where
  "require condition message = raise_if (\<not> condition) (manifest_error message)"

definition requireM :: "bool res \<Rightarrow> string \<Rightarrow> unit res" where
  "requireM condition message = bnd condition (\<lambda>b. require b message)"

lemma require_Inr [res_simps]: "require b m = Inr u \<longleftrightarrow> b"
  by (simp add: require_def raise_if_eq_Inr)

lemma requireM_Inr [res_simps]: "requireM c m = Inr u \<longleftrightarrow> c = Inr True"
  by (auto simp: requireM_def bnd_eq_Inr require_Inr)

definition read_manifest_yaml :: "repo_env \<Rightarrow> path \<Rightarrow> pyv res" where
  "read_manifest_yaml env p =
     try_except (bnd (read_text env p) (yaml_load env)) [OSError, YAMLError]
       (\<lambda>e. Inl (manifest_error (''cannot read '' @ path_str p @ '': '' @ msg e)))"

definition read_manifest_json :: "repo_env \<Rightarrow> path \<Rightarrow> pyv res" where
  "read_manifest_json env p =
     try_except (bnd (read_text env p) loads) [OSError, JSONDecodeError]
       (\<lambda>e. Inl (manifest_error (''cannot read '' @ path_str p @ '': '' @ msg e)))"

section \<open>The specification\<close>

definition rx_pseudo_suffix :: rx where
  "rx_pseudo_suffix = rx_seqs [rx_lit ''-0.'', rx_rep 14 (RChr is_digit), rx_lit ''-'', rx_rep 12 (RChr is_hex)]"

definition C8S_VERSION :: rx where
  "C8S_VERSION = RSeq VERSION (rx_opt (RAlt (RSeq (rx_lit ''-beta.'') rx_positive) rx_pseudo_suffix))"

definition rx_pseudo_version :: rx where
  "rx_pseudo_version =
     rx_seqs [rx_lit ''v'', rx_digits, rx_lit ''.'', rx_digits, rx_lit ''.'', rx_digits, rx_pseudo_suffix]"

definition label_char :: "char \<Rightarrow> bool" where
  "label_char c = (is_lower c \<or> is_digit c)"

text \<open>The look-ahead of the pattern bounds the length.\<close>

definition rx_hostname :: rx where
  "rx_hostname = RSeq (rx_plus (rx_seqs [RChr label_char,
       rx_opt (RSeq (rx_range 0 61 (RChr (\<lambda>c. label_char c \<or> c = CHR ''-''))) (RChr label_char)), rx_lit ''.'']))
     (rx_range 2 63 (RChr is_lower))"

definition is_hostname :: "string \<Rightarrow> bool" where
  "is_hostname s = (length s \<le> 253 \<and> fullmatch rx_hostname s)"

definition matches :: "rx \<Rightarrow> pyv \<Rightarrow> bool" where
  "matches r v = (case v of PStr s \<Rightarrow> fullmatch r s | _ \<Rightarrow> False)"

text \<open>\<open>DIGEST.fullmatch(str(d.get(k)))\<close>.\<close>

definition digest_at :: "pyv \<Rightarrow> string \<Rightarrow> bool res" where
  "digest_at d k = bnd (jget d k) (\<lambda>v. Inr (fullmatch rx_digest (py_str v)))"

definition unique_strings :: "pyv \<Rightarrow> (string \<Rightarrow> bool) \<Rightarrow> bool res" where
  "unique_strings v ok =
     (case v of
        PList xs \<Rightarrow>
          if xs = [] then Inr False
          else bnd (py_set xs) (\<lambda>u.
            Inr (length u = length xs \<and> list_all (\<lambda>x. case x of PStr s \<Rightarrow> ok s | _ \<Rightarrow> False) xs))
      | _ \<Rightarrow> Inr False)"

definition base_release_ok :: "pyv \<Rightarrow> bool res" where
  "base_release_ok c8s =
     bnd (jin ''baseRelease'' c8s) (\<lambda>present.
       if \<not> present then Inr True
       else bnd (jidx c8s ''release'') (\<lambda>r. bnd (jidx c8s ''baseRelease'') (\<lambda>b.
         Inr (matches rx_pseudo_version r \<and> fullmatch VERSION (py_str b)))))"

definition validate_c8s :: "pyv \<Rightarrow> unit res" where
  "validate_c8s c8s =
     bnd (require (is_dict c8s) ''c8s must be a mapping'') (\<lambda>_.
     bnd (requireM (bnd (jget c8s ''release'') (\<lambda>v. Inr (matches C8S_VERSION v)))
            ''c8s.release must be vX.Y.Z, vX.Y.Z-beta.N or a c8s Go pseudo-version'') (\<lambda>_.
     bnd (requireM (base_release_ok c8s) ''c8s.baseRelease (vX.Y.Z) is only for a c8s Go pseudo-version'') (\<lambda>_.
     bnd (requireM (bnd (jget c8s ''sourceCommit'') (\<lambda>v. Inr (matches rx_commit v)))
            ''c8s.sourceCommit must be a full Git commit'') (\<lambda>_.
     bnd (jgetd c8s ''nodeImage'' (PDict [])) (\<lambda>node.
     bnd (requireM (andsM [bnd (jget node ''reference'') (\<lambda>v. Inr (is_str v)), digest_at node ''digest''])
            ''c8s.nodeImage needs a reference and a digest'') (\<lambda>_.
     bnd (requireM (bnd (jgetd c8s ''nodeManifestArtifact'' (PDict [])) (\<lambda>a. digest_at a ''digest''))
            ''c8s.nodeManifestArtifact.digest must be a SHA-256 digest'') (\<lambda>_.
     bnd (requireM (bnd (jidx c8s ''nodeManifestArtifact'') (\<lambda>a. digest_at a ''manifestJson''))
            ''c8s.nodeManifestArtifact.manifestJson must be a SHA-256 digest'') (\<lambda>_.
     bnd (jget c8s ''coreImages'') (\<lambda>images.
       requireM (unique_strings images (fullmatch rx_oci)) ''c8s.coreImages must be unique digest-pinned images'')))))))))"

definition validate_model :: "pyv \<Rightarrow> unit res" where
  "validate_model model =
     bnd (require (case model of PDict m \<Rightarrow> same_keys (dkeys m) [''repository'', ''revision'', ''byteManifestSha256''] | _ \<Rightarrow> False)
            ''model must hold exactly repository, revision, and byteManifestSha256'') (\<lambda>_.
     bnd (requireM (bnd (jidx model ''revision'') (\<lambda>v. Inr (fullmatch rx_commit (py_str v))))
            ''model.revision must be a full commit'') (\<lambda>_.
       requireM (bnd (jidx model ''byteManifestSha256'') (\<lambda>v. Inr (fullmatch rx_hex64 (py_str v))))
         ''model.byteManifestSha256 must be 64 hex characters''))"

definition validate_spec :: "pyv \<Rightarrow> pydict res" where
  "validate_spec spec =
     (case spec of
        PDict d \<Rightarrow>
          bnd (require (sub_keys [''c8s'', ''model'', ''publicHostnames''] (dkeys d) \<and>
                        sub_keys (dkeys d) [''c8s'', ''model'', ''publicHostnames'', ''transition''])
                 ''the release specification needs c8s, model, and publicHostnames, with optional transition inputs; the tag is the version'') (\<lambda>_.
          bnd (bnd (jidx spec ''c8s'') validate_c8s) (\<lambda>_.
          bnd (bnd (jidx spec ''model'') validate_model) (\<lambda>_.
          bnd (jidx spec ''publicHostnames'') (\<lambda>hosts.
          bnd (requireM (unique_strings hosts is_hostname) ''publicHostnames must be unique lowercase DNS names'') (\<lambda>_.
            Inr d)))))
      | _ \<Rightarrow> Inl (manifest_error ''the release specification is not a mapping''))"

definition read_release_spec :: "repo_env \<Rightarrow> profile \<Rightarrow> pydict res" where
  "read_release_spec env p =
     bnd (try_except (read_spec env p) [ProfileError] (\<lambda>e. Inl (manifest_error (msg e)))) (\<lambda>s.
     bnd (validate_spec (PDict s)) (\<lambda>spec.
     bnd (requireM (if environment p \<noteq> PStr ''production'' then Inr True
                    else bnd (bnd (jidx (PDict spec) ''c8s'') (\<lambda>c. jidx c ''release'')) (\<lambda>r.
                      bnd (jin ''-beta.'' r) (\<lambda>b. Inr (\<not> b))))
            ''a production release must pin a stable c8s release'') (\<lambda>_.
       Inr spec)))"

section \<open>The chart and the allowlist policy\<close>

definition render_release :: "repo_env \<Rightarrow> allowlist_tools \<Rightarrow> path \<Rightarrow> profile \<Rightarrow> pyv \<Rightarrow> path \<Rightarrow> pyv list res" where
  "render_release env t chart p settings overlay =
     bnd (bnd (jidx settings ''release'') arg_text) (\<lambda>release.
     bnd (bnd (jidx settings ''namespace'') arg_text) (\<lambda>namespace.
     bnd (bnd (jidx settings ''kubeVersion'') arg_text) (\<lambda>kube_version.
       let cmd = [''helm'', ''template'', release, path_str chart, ''--namespace'', namespace,
             ''--kube-version'', kube_version] @ helm_values_args env p (Some overlay);
           result = helm_template t (file_bytes env) cmd
       in bnd (raise_if (returncode result \<noteq> 0)
                 (manifest_error (''helm template failed: '' @ str_strip (stderr result)))) (\<lambda>_.
          bnd (yaml_all t (stdout result)) (\<lambda>documents. Inr (filter is_dict documents))))))"

definition chart_settings :: "string list" where
  "chart_settings = [''release'', ''namespace'', ''kubeVersion'']"

definition workload_item_ok :: "pyv \<Rightarrow> bool" where
  "workload_item_ok item =
     (case item of
        PDict d \<Rightarrow> (case (map_of d ''name'', map_of d ''controller'') of
                      (Some (PStr _), Some (PStr _)) \<Rightarrow> True | _ \<Rightarrow> False)
      | _ \<Rightarrow> False)"

definition unique_field :: "pyv list \<Rightarrow> string \<Rightarrow> bool res" where
  "unique_field items k =
     bnd (bnd (mapM (\<lambda>item. jidx item k) items) py_set) (\<lambda>u. Inr (length u = length items))"

definition check_chart_settings :: "pyv \<Rightarrow> unit res" where
  "check_chart_settings pol =
     bnd (jget pol ''chart'') (\<lambda>chart.
     bnd (require (case chart of PDict c \<Rightarrow> same_keys (dkeys c) chart_settings | _ \<Rightarrow> False)
            ''allowlist policy chart settings are incomplete'') (\<lambda>_.
       for_each (\<lambda>name. requireM (bnd (jidx chart name) (\<lambda>v. Inr (is_str v \<and> truthy v)))
         (''allowlist policy chart.'' @ name @ '' is invalid'')) chart_settings))"

definition read_allowlist_policy :: "repo_env \<Rightarrow> path \<Rightarrow> string \<Rightarrow> pyv res" where
  "read_allowlist_policy env p release_id =
     bnd (read_manifest_json env p) (\<lambda>document.
     bnd (if release_id \<noteq> [] then policy_for_release env document release_id else Inr document) (\<lambda>pol.
     bnd (requireM (if is_dict pol then bnd (jget pol ''schema'') (\<lambda>s. Inr (s = PStr POLICY_SCHEMA)) else Inr False)
            (last p @ '' has the wrong schema'')) (\<lambda>_.
     bnd (check_chart_settings pol) (\<lambda>_.
     bnd (requireM (bnd (jin ''c8s'' pol) (\<lambda>b. Inr (\<not> b))) ''the allowlist policy must not pin c8s; spec.yaml does'') (\<lambda>_.
     bnd (jget pol ''workloads'') (\<lambda>workloads.
       case workloads of
         PList items \<Rightarrow>
           bnd (require (items \<noteq> []) ''allowlist policy has no workloads'') (\<lambda>_.
           bnd (require (list_all workload_item_ok items) ''allowlist policy has an invalid workload'') (\<lambda>_.
           bnd (requireM (andsM [unique_field items ''name'', unique_field items ''controller''])
                  ''allowlist policy repeats a workload name or controller'') (\<lambda>_.
             Inr pol)))
       | _ \<Rightarrow> Inl (manifest_error ''allowlist policy has no workloads'')))))))"

section \<open>Agreement\<close>

definition require_model_agreement :: "pydict \<Rightarrow> pyv \<Rightarrow> unit res" where
  "require_model_agreement spec vs =
     bnd (bnd (jgetd vs ''inference'' (PDict [])) (\<lambda>i. jgetd i ''model'' (PDict []))) (\<lambda>model.
     bnd (jidx (PDict spec) ''model'') (\<lambda>release_model.
     bnd (requireM (bnd (jget model ''name'') (\<lambda>a. bnd (jidx release_model ''repository'') (\<lambda>b. Inr (py_eq a b))))
            ''values model name differs from spec model repository'') (\<lambda>_.
       requireM (bnd (jget model ''revision'') (\<lambda>a. bnd (jidx release_model ''revision'') (\<lambda>b. Inr (py_eq a b))))
         ''values model revision differs from spec model revision'')))"

definition is_worker :: "pyv \<Rightarrow> bool res" where
  "is_worker item =
     bnd (jget item ''kind'') (\<lambda>kind.
       if kind \<noteq> PStr ''StatefulSet'' then Inr False
       else bnd (bnd (bnd (jgetd item ''metadata'' (PDict [])) (\<lambda>m. jgetd m ''name'' (PStr []))) str_method) (\<lambda>name.
         Inr (startswith name ''inference-worker-'' \<or> startswith name ''inference-pd'')))"

definition worker_containers :: "string list" where
  "worker_containers = [''sglang'', ''engram-holder'', ''sglang-pair'']"

definition worker_args :: "pyv \<Rightarrow> pyv list res" where
  "worker_args worker =
     bnd (bnd (pod_spec worker) (\<lambda>pod. bnd (jidx pod ''containers'') jiter)) (\<lambda>cs.
     bnd (findM (\<lambda>c. bnd (jidx c ''name'') (\<lambda>n. Inr (n \<in> PStr ` set worker_containers))) cs) (\<lambda>found.
       case found of
         None \<Rightarrow> Inl (Exn StopIteration [])
       | Some container \<Rightarrow>
           bnd (jgetd container ''args'' (PList [])) (\<lambda>args.
           bnd (jidx container ''name'') (\<lambda>name.
             if name \<noteq> PStr ''sglang-pair'' then jiter args
             else bnd (requireM (bnd (jlen args) (\<lambda>n. if n = 2 then bnd (jnth args 0) (\<lambda>a. Inr (a = PStr ''--config-json''))
                                                      else Inr False))
                         ''invalid pair configuration command'') (\<lambda>_.
                  bnd (bnd (bnd (jnth args 1) arg_text) loads) (\<lambda>config.
                  bnd (jidx config ''modelGate'') jiter))))))"

text \<open>The values of the arguments with a prefix.\<close>

definition args_after :: "string \<Rightarrow> pyv list \<Rightarrow> string list res" where
  "args_after pre args =
     bnd (mapM str_method args) (\<lambda>texts.
       Inr (map (\<lambda>a. removeprefix a pre) (filter (\<lambda>a. startswith a pre) texts)))"

definition check_worker_files :: "pydict \<Rightarrow> pyv \<Rightarrow> unit res" where
  "check_worker_files spec worker =
     bnd (worker_args worker) (\<lambda>args.
     bnd (args_after ''--revision-metadata='' args) (\<lambda>metadata.
     bnd (require (length metadata = 1) ''a worker has no single revision metadata file'') (\<lambda>_.
     bnd (args_after (''--expected-file='' @ hd metadata @ ''='') args) (\<lambda>digests.
     bnd (bnd (jidx (PDict spec) ''model'') (\<lambda>m. jidx m ''byteManifestSha256'')) (\<lambda>expected.
       require (map PStr digests = [expected])
         ''the rendered model byte manifest differs from spec model byte manifest'')))))"

definition require_model_files :: "pydict \<Rightarrow> pyv list \<Rightarrow> unit res" where
  "require_model_files spec documents =
     bnd (filterM is_worker documents) (\<lambda>workers.
     bnd (require (workers \<noteq> []) ''the chart renders no inference worker'') (\<lambda>_.
       for_each (check_worker_files spec) workers))"

definition require_c8s_agreement :: "pydict \<Rightarrow> pyv \<Rightarrow> unit res" where
  "require_c8s_agreement spec vs =
     bnd (bnd (jgetd vs ''images'' (PDict [])) (\<lambda>i. jget i ''c8sOperator'')) (\<lambda>operator.
       requireM (bnd (bnd (jidx (PDict spec) ''c8s'') (\<lambda>c. jidx c ''coreImages'')) (py_in operator))
         ''values c8s operator image is not one of the spec c8s core images'')"

section \<open>The contract of the allowlist\<close>

definition image_digest :: "pyv \<Rightarrow> string option" where
  "image_digest img = (case img of PStr s \<Rightarrow> map_option snd (oci_groups s) | _ \<Rightarrow> None)"

text \<open>\<open>OCI.fullmatch(image).group(2)\<close>: an image without a digest has no match.\<close>

definition core_digest :: "pyv \<Rightarrow> string res" where
  "core_digest img = (case image_digest img of None \<Rightarrow> (if is_str img then no_attribute else type_error) | Some d \<Rightarrow> Inr d)"

definition process_tuple :: "pyv \<Rightarrow> pyv \<Rightarrow> pyv \<Rightarrow> pyv" where
  "process_tuple digest argv args = PList [digest, argv, args]"

text \<open>The process of a rendered container, unless c8s injects the container.\<close>

definition expected_process :: "string \<Rightarrow> pydict \<Rightarrow> string list \<Rightarrow> pyv \<Rightarrow> pyv \<Rightarrow> pyv option res" where
  "expected_process controller configs core_digests release container =
     bnd (jget container ''image'') (\<lambda>img.
     bnd (case image_digest img of None \<Rightarrow> Inl (manifest_error (controller @ '' has an unpinned container image''))
          | Some d \<Rightarrow> Inr d) (\<lambda>digest.
     bnd (try_except (with_process configs container) [GenerationError]
            (\<lambda>e. Inl (manifest_error (controller @ '': '' @ msg e)))) (\<lambda>process.
     bnd (jidx process ''command'') (\<lambda>cmd.
     bnd (jgetd process ''args'' (PList [])) (\<lambda>args.
     bnd (is_carved_out process core_digests release) (\<lambda>carved.
       Inr (if carved then None else Some (process_tuple (PStr digest) cmd args))))))))"

definition actual_process :: "string \<Rightarrow> pyv \<Rightarrow> pyv res" where
  "actual_process name container =
     bnd (jgetd container ''command'' (PDict [])) (\<lambda>command_policy.
     bnd (jgetd container ''args'' (PDict [])) (\<lambda>args_policy.
     bnd (requireM (bnd (jget command_policy ''policy'') (\<lambda>v. Inr (v = PStr ''exact'')))
            (''allowlist workload '' @ name @ '' has a non-exact command'')) (\<lambda>_.
     bnd (requireM (bnd (jget args_policy ''policy'') (\<lambda>v. in_strs v [''exact'', ''deny'']))
            (''allowlist workload '' @ name @ '' has a non-exact argument policy'')) (\<lambda>_.
     bnd (jget container ''digest'') (\<lambda>digest.
     bnd (jget command_policy ''argv'') (\<lambda>argv.
     bnd (jget args_policy ''policy'') (\<lambda>pol.
     bnd (if pol = PStr ''exact'' then jgetd args_policy ''argv'' (PList []) else Inr (PList [])) (\<lambda>args.
       Inr (process_tuple digest argv args)))))))))"

definition by_process_key :: "pyv list \<Rightarrow> pyv list" where
  "by_process_key = sort_key (dumps (json_default\<lparr>sort_keys := True\<rparr>))"

definition check_workload ::
  "pydict \<Rightarrow> pydict \<Rightarrow> pydict \<Rightarrow> string list \<Rightarrow> pyv \<Rightarrow> pyv \<Rightarrow> unit res" where
  "check_workload rendered workloads configs core_digests release item =
     bnd (bnd (jidx item ''controller'') arg_text) (\<lambda>key.
     bnd (bnd (jidx (PDict rendered) key) pod_spec) (\<lambda>pod.
     bnd (bnd (all_containers pod) (mapM (expected_process key configs core_digests release))) (\<lambda>expected.
     bnd (bnd (jidx item ''name'') arg_text) (\<lambda>name.
     bnd (jidx (PDict workloads) name) (\<lambda>entry.
     bnd (bnd (all_containers entry) (mapM (actual_process name))) (\<lambda>actual.
       require (list_all2 py_eq (by_process_key actual) (by_process_key (List.map_filter (\<lambda>p. p) expected)))
         (''allowlist workload '' @ name @ '' process differs from the rendered profile'')))))))"

definition check_core_entry :: "pydict \<Rightarrow> string \<times> pyv \<Rightarrow> unit res" where
  "check_core_entry workloads named =
     (case named of (name, expected) \<Rightarrow>
        requireM (bnd (jidx (PDict workloads) name) (\<lambda>e. Inr (py_eq e expected)))
          (''core entry '' @ name @ '' differs from the baked seed''))"

definition require_allowlist_contract ::
  "pyv \<Rightarrow> pyv \<Rightarrow> pyv \<Rightarrow> pyv list \<Rightarrow> pydict \<Rightarrow> pyv \<Rightarrow> pydict \<Rightarrow> unit res" where
  "require_allowlist_contract allow pol core_images documents configs release seed =
     bnd (controllers documents) (\<lambda>rendered.
     bnd (bnd (jidx pol ''workloads'') jiter) (\<lambda>items.
     bnd (mapM (\<lambda>item. bnd (jidx item ''controller'') arg_text) items) (\<lambda>policy_controllers.
     bnd (require (same_keys (dkeys rendered) policy_controllers)
            (''rendered controllers differ from allowlist policy: rendered='' @ py_repr (PList (map PStr (sort (dkeys rendered)))) @
             '' policy='' @ py_repr (PList (map PStr (sort (remdups policy_controllers)))))) (\<lambda>_.
     bnd (mapM (\<lambda>item. bnd (jidx item ''name'') arg_text) items) (\<lambda>names.
     bnd (jget allow ''workloads'') (\<lambda>w.
       case w of
         PDict workloads \<Rightarrow>
           bnd (require (same_keys (dkeys workloads) (names @ dkeys seed))
                  ''the allowlist entries differ from the profile allowlist policy'') (\<lambda>_.
           bnd (bnd (jiter core_images) (mapM core_digest)) (\<lambda>core_digests.
           bnd (core_entries core_images seed) (\<lambda>core.
           bnd (for_each (check_core_entry workloads) core) (\<lambda>_.
             for_each (check_workload rendered workloads configs core_digests release) items))))
       | _ \<Rightarrow> Inl (manifest_error ''the allowlist entries differ from the profile allowlist policy'')))))))"

section \<open>Images, chart and node\<close>

definition container_keys :: "string list" where
  "container_keys = [''containers'', ''initContainers'', ''ephemeralContainers'']"

definition container_image :: "pyv \<Rightarrow> string res" where
  "container_image container =
     (let img = (case container of PDict c \<Rightarrow> (case map_of c ''image'' of None \<Rightarrow> PNone | Some v \<Rightarrow> v) | _ \<Rightarrow> PNone) in
      bnd (require (matches rx_oci img) (''a rendered container image is not digest-pinned: '' @ py_repr img)) (\<lambda>_.
        arg_text img))"

fun walk_images :: "pyv \<Rightarrow> string list res" where
  "walk_images (PDict d) =
     bnd (mapM (\<lambda>(key, child).
            bnd (case child of
                   PList cs \<Rightarrow> if key \<in> set container_keys then mapM container_image cs else Inr []
                 | _ \<Rightarrow> Inr []) (\<lambda>images.
            bnd (walk_images child) (\<lambda>more. Inr (images @ more)))) d) (\<lambda>found. Inr (concat found))"
| "walk_images (PList xs) = bnd (mapM walk_images xs) (\<lambda>found. Inr (concat found))"
| "walk_images v = Inr []"

definition rendered_images :: "pyv list \<Rightarrow> string list res" where
  "rendered_images documents =
     bnd (walk_images (PList documents)) (\<lambda>images.
     bnd (require (images \<noteq> []) ''the chart rendered no container'') (\<lambda>_.
       Inr (sort (remdups images))))"

text \<open>The files below the chart, with their paths relative to it.\<close>

definition chart_files :: "repo_env \<Rightarrow> (path \<Rightarrow> path list) \<Rightarrow> path \<Rightarrow> (path \<times> string) list res" where
  "chart_files env rglob chart =
     mapM (\<lambda>p. bnd (read_bytes env (chart @ p)) (\<lambda>data. Inr (p, data))) (rglob chart)"

definition file_record :: "path \<times> string \<Rightarrow> string" where
  "file_record f = (case f of (p, data) \<Rightarrow>
     str_join ''/'' p @ [CHR 0x00] @ str_of_nat (length data) @ [CHR 0x00] @ data)"

definition tree_digest :: "(path \<times> string) list \<Rightarrow> string" where
  "tree_digest files = sha256 (concat (map file_record (sort_key fst files)))"

record chart_id =
  ci_name :: pyv
  ci_version :: string
  ci_tree :: string

definition chart_identity :: "repo_env \<Rightarrow> (path \<Rightarrow> path list) \<Rightarrow> path \<Rightarrow> chart_id res" where
  "chart_identity env rglob chart =
     bnd (read_manifest_yaml env (chart @ [''Chart.yaml''])) (\<lambda>meta.
     bnd (chart_files env rglob chart) (\<lambda>files.
     bnd (jidx meta ''name'') (\<lambda>name.
     bnd (jidx meta ''version'') (\<lambda>version.
       Inr \<lparr>ci_name = name, ci_version = py_str version, ci_tree = tree_digest files\<rparr>))))"

definition PACKAGING_PROFILE :: string where
  "PACKAGING_PROFILE = ''staging''"

definition chart_version :: "repo_env \<Rightarrow> string \<Rightarrow> profile \<Rightarrow> string res" where
  "chart_version env tag p =
     bnd (for_tag env tag) (\<lambda>q.
     bnd (require (py_eq (prof_name q) (prof_name p))
            (''tag '' @ tag @ '' does not fit profile '' @ py_str (prof_name p))) (\<lambda>_.
     bnd (workload_release env tag) (\<lambda>final_tag.
     bnd (jlen (tag_suffix p)) (\<lambda>n.
       Inr (drop 1 (take (length final_tag - n) final_tag))))))"

definition chart_reference :: "pyv \<Rightarrow> string \<Rightarrow> string" where
  "chart_reference name version =
     ''ghcr.io/confidential-dot-ai/confidential-inference/charts/'' @ py_str name @ '':'' @ version"

definition chart_metadata :: "string \<Rightarrow> string \<Rightarrow> string res" where
  "chart_metadata chart_yaml version =
     bnd (decode_utf8 chart_yaml) (\<lambda>contents.
     let lines = filter (\<lambda>line. startswith line ''version:'') (splitlines_keepends contents) in
     bnd (require (length lines = 1) ''Chart.yaml must set version once at the top level'') (\<lambda>_.
       Inr (str_replace_first (hd lines) (''version: '' @ version @ [CHR 0x0A]) contents)))"

text \<open>
  \<open>package_chart\<close>: the entries of the archive in order. \<open>tgz\<close> stands for \<open>tarfile\<close> and \<open>gzip\<close>, which
  write them with fixed metadata.
\<close>

definition package_entries :: "(path \<times> string) list \<Rightarrow> pyv \<Rightarrow> string \<Rightarrow> (string \<times> string) list res" where
  "package_entries files name version =
     (case map_of files [''Chart.yaml''] of
        None \<Rightarrow> Inl (manifest_error ''the chart has no Chart.yaml'')
      | Some chart_yaml \<Rightarrow>
          bnd (chart_metadata chart_yaml version) (\<lambda>metadata.
            Inr (map (\<lambda>(p, data). (py_str name @ ''/'' @ p, data))
              (sort_items (map (\<lambda>(p, data). (str_join ''/'' p, data)) (dset [''Chart.yaml''] metadata files))))))"

definition package_chart ::
  "repo_env \<Rightarrow> (path \<Rightarrow> path list) \<Rightarrow> ((string \<times> string) list \<Rightarrow> string) \<Rightarrow> path \<Rightarrow> pyv \<Rightarrow> string \<Rightarrow> string res" where
  "package_chart env rglob tgz chart name version =
     bnd (chart_files env rglob chart) (\<lambda>files.
     bnd (package_entries files name version) (\<lambda>entries. Inr (tgz entries)))"

definition source_lock_entry :: "pyv \<Rightarrow> pyv \<Rightarrow> pydict res" where
  "source_lock_entry lock commit =
     bnd (bnd (jgetd lock ''commits'' (PList [])) jiter) (\<lambda>more.
     bnd (filterM (\<lambda>entry. bnd (jget entry ''commit'') (\<lambda>c. Inr (py_eq c commit))) (lock # more)) (\<lambda>found.
     bnd (require (length found = 1)
            (''the source lock does not pin c8s commit '' @ py_str commit @ '' exactly once'')) (\<lambda>_.
     bnd (jitems (hd found)) (\<lambda>items.
       Inr (filter (\<lambda>(k, _). k \<noteq> ''commits'' \<and> k \<noteq> ''schema'') items)))))"

definition rx_measurement :: rx where
  "rx_measurement = rx_rep 96 (RChr is_hex)"

record node_facts =
  nf_image :: string
  nf_tag :: pyv
  nf_artifact :: pyv
  nf_json :: string
  nf_mrtd :: string
  nf_rtmr1 :: string
  nf_rtmr2 :: string

definition measurement :: "pyv \<Rightarrow> string \<Rightarrow> string res" where
  "measurement tdx name =
     bnd (jget tdx name) (\<lambda>v.
     bnd (require (matches rx_measurement v) (''the node manifest tdx.'' @ name @ '' is invalid'')) (\<lambda>_. arg_text v))"

definition node_measurements :: "repo_env \<Rightarrow> path \<Rightarrow> pydict \<Rightarrow> node_facts res" where
  "node_measurements env p spec =
     bnd (read_bytes env p) (\<lambda>data.
     bnd (jidx (PDict spec) ''c8s'') (\<lambda>c8s.
     bnd (jidx c8s ''nodeManifestArtifact'') (\<lambda>artifact.
     bnd (requireM (bnd (jidx artifact ''manifestJson'') (\<lambda>v. Inr (v = PStr (sha256 data))))
            (last p @ '' differs from c8s.nodeManifestArtifact.manifestJson'')) (\<lambda>_.
     bnd (bnd (loads_bytes data) (\<lambda>d. jgetd d ''tdx'' (PDict []))) (\<lambda>tdx.
     bnd (measurement tdx ''mrtd'') (\<lambda>mrtd.
     bnd (measurement tdx ''rtmr1'') (\<lambda>rtmr1.
     bnd (measurement tdx ''rtmr2'') (\<lambda>rtmr2.
     bnd (jidx c8s ''nodeImage'') (\<lambda>node.
     bnd (jidx node ''reference'') (\<lambda>reference.
     bnd (jidx node ''digest'') (\<lambda>digest.
     bnd (jget node ''tag'') (\<lambda>tag.
     bnd (jidx artifact ''digest'') (\<lambda>artifact_digest.
       Inr \<lparr>nf_image = py_str reference @ ''@'' @ py_str digest, nf_tag = tag, nf_artifact = artifact_digest,
            nf_json = sha256 data, nf_mrtd = mrtd, nf_rtmr1 = rtmr1, nf_rtmr2 = rtmr2\<rparr>)))))))))))))"

definition image_names :: "pyv \<Rightarrow> string list \<Rightarrow> pydict res" where
  "image_names vs images =
     bnd (bnd (jgetd vs ''images'' (PDict [])) jitems) (\<lambda>items.
     let named = filter (\<lambda>(_, v). v \<in> PStr ` set images) items;
         unnamed = sort (remdups (filter (\<lambda>i. PStr i \<notin> snd ` set named) images))
     in bnd (require (unnamed = []) (''rendered images with no name in values.images: '' @ py_repr (PList (map PStr unnamed)))) (\<lambda>_.
          Inr (sort_items named)))"

end
