(* ===== verification/Image_Publication.thy ===== *)
theory Image_Publication
  imports C8s_Release
begin

text \<open>
  \<open>scripts/affected-release-images.py\<close>, which selects the images whose build inputs changed, and
  \<open>scripts/image-publication-manifest.py\<close>, which records the digests of the images that were pushed.

  The answers of git and the JSON schema validator are arguments: \<open>violation\<close> gives the place and the
  message of the first violation of a schema by a document.
\<close>

section \<open>Images and their inputs\<close>

record Image =
  img_name :: string
  img_context :: string
  img_dockerfile :: string
  img_title :: string
  img_paths :: "string list"

definition matrix_entry :: "Image \<Rightarrow> pydict" where
  "matrix_entry i = [(''image'', PStr (img_name i)), (''context'', PStr (img_context i)),
     (''dockerfile'', PStr (img_dockerfile i)), (''title'', PStr (img_title i))]"

definition RUST_IMAGE_INPUTS :: "string list" where
  "RUST_IMAGE_INPUTS = [''Cargo.toml'', ''Cargo.lock'', ''rust-toolchain.toml'', ''services/gateway/Cargo.toml'',
     ''services/gateway/src/**'', ''services/maintenance-gateway/Cargo.toml'', ''services/maintenance-gateway/src/**'']"

definition IMAGES :: "Image list" where
  "IMAGES =
     [\<lparr>img_name = ''gateway'', img_context = ''.'', img_dockerfile = ''images/gateway/Dockerfile'',
       img_title = ''Confidential Inference gateway'',
       img_paths = RUST_IMAGE_INPUTS @ [''images/gateway/Dockerfile'', ''images/gateway/Dockerfile.dockerignore'']\<rparr>,
      \<lparr>img_name = ''maintenance-gateway'', img_context = ''.'', img_dockerfile = ''images/maintenance-gateway/Dockerfile'',
       img_title = ''Confidential Inference maintenance gateway'',
       img_paths = RUST_IMAGE_INPUTS @ [''images/maintenance-gateway/Dockerfile'']\<rparr>,
      \<lparr>img_name = ''sglang'', img_context = ''.'', img_dockerfile = ''images/sglang/Dockerfile'',
       img_title = ''Confidential Inference SGLang'',
       img_paths = [''images/sglang/Dockerfile'', ''images/sglang/Dockerfile.dockerignore'', ''images/sglang/source.lock'',
         ''images/sglang/requirements.lock'', ''images/sglang/fetch_source.py'', ''images/sglang/harden_http.py'',
         ''images/sglang/pair_supervisor.py'', ''images/sglang/pair_diagnostics.py'',
         ''images/sglang-router/private_log_sink.py'', ''images/sglang/wait_for_model.py'',
         ''images/sglang/fetch_model.py'', ''images/sglang/patches/**'', ''images/sglang/simulator-upstream/**'']\<rparr>,
      \<lparr>img_name = ''sglang-router'', img_context = ''images/sglang-router'', img_dockerfile = ''images/sglang-router/Dockerfile'',
       img_title = ''Confidential Inference SGLang Router'',
       img_paths = [''images/sglang-router/Dockerfile'', ''images/sglang-router/source.lock'', ''images/sglang-router/patches/**'',
         ''images/sglang-router/canonicalize_wheel.py'', ''images/sglang-router/requirements.in'',
         ''images/sglang-router/requirements.lock'', ''images/sglang-router/Cargo.lock'',
         ''images/sglang-router/private_router.py'', ''images/sglang-router/private_log_sink.py'']\<rparr>,
      \<lparr>img_name = ''kube-state-metrics'', img_context = ''images/kube-state-metrics'',
       img_dockerfile = ''images/kube-state-metrics/Dockerfile'', img_title = ''Confidential Inference kube-state metrics'',
       img_paths = [''images/kube-state-metrics/Dockerfile'']\<rparr>,
      \<lparr>img_name = ''rollout-client'', img_context = ''images/rollout-client'',
       img_dockerfile = ''images/rollout-client/Dockerfile'', img_title = ''Confidential Inference rollout client'',
       img_paths = [''images/rollout-client/Dockerfile'']\<rparr>]"

text \<open>
  \<open>fnmatch.fnmatchcase\<close>: a star matches any text, also across slashes, and a question mark one
  character. No pattern of the images has a bracket expression.
\<close>

fun fnmatchcase :: "string \<Rightarrow> string \<Rightarrow> bool" where
  "fnmatchcase [] [] = True"
| "fnmatchcase (c # s) [] = False"
| "fnmatchcase [] (x # p) = (x = CHR ''*'' \<and> fnmatchcase [] p)"
| "fnmatchcase (c # s) (x # p) =
     (if x = CHR ''*'' then fnmatchcase (c # s) p \<or> fnmatchcase s (x # p)
      else (x = CHR ''?'' \<or> x = c) \<and> fnmatchcase s p)"

definition affected_images :: "string list \<Rightarrow> Image list" where
  "affected_images paths = filter (\<lambda>i. list_ex (\<lambda>p. list_ex (fnmatchcase p) (img_paths i)) paths) IMAGES"

section \<open>The revision of the inputs\<close>

text \<open>\<open>hashlib.sha1\<close>: FIPS 180-4 on bytes, with the padding of SHA-256.\<close>

definition rotl :: "nat \<Rightarrow> w32 \<Rightarrow> w32" where
  "rotl n x = push_bit n x OR drop_bit (32 - n) x"

fun sha1_schedule :: "nat \<Rightarrow> w32 list \<Rightarrow> w32 list" where
  "sha1_schedule 0 ws = ws"
| "sha1_schedule (Suc n) ws = sha1_schedule n (rotl 1 (ws ! 2 XOR ws ! 7 XOR ws ! 13 XOR ws ! 15) # ws)"

definition sha1_f :: "nat \<Rightarrow> w32 \<Rightarrow> w32 \<Rightarrow> w32 \<Rightarrow> w32" where
  "sha1_f t b c d = (if t < 20 then ch b c d else if 40 \<le> t \<and> t < 60 then maj b c d else b XOR c XOR d)"

definition sha1_k :: "nat \<Rightarrow> w32" where
  "sha1_k t = (if t < 20 then 0x5A827999 else if t < 40 then 0x6ED9EBA1 else if t < 60 then 0x8F1BBCDC else 0xCA62C1D6)"

fun sha1_round :: "w32 list \<Rightarrow> nat \<times> w32 \<Rightarrow> w32 list" where
  "sha1_round [a, b, c, d, e] (t, w) = [rotl 5 a + sha1_f t b c d + e + sha1_k t + w, a, rotl 30 b, c, d]"
| "sha1_round st _ = st"

fun sha1_blocks :: "nat \<Rightarrow> w32 list \<Rightarrow> w32 list \<Rightarrow> w32 list" where
  "sha1_blocks 0 st ws = st"
| "sha1_blocks (Suc n) st ws =
     sha1_blocks n (map2 (+) st (foldl sha1_round st (zip [0..<80] (rev (sha1_schedule 64 (rev (take 16 ws)))))))
       (drop 16 ws)"

definition sha1_hex :: "string \<Rightarrow> string" where
  "sha1_hex s =
     (let ws = words_of (sha_pad (map of_char s))
      in concat (map hex_word (sha1_blocks (length ws div 16)
           [0x67452301, 0xEFCDAB89, 0x98BADCFE, 0x10325476, 0xC3D2E1F0] ws)))"

definition INPUT_EPOCH :: string where
  "INPUT_EPOCH = ''315532800''"

definition nul :: string where
  "nul = [CHR 0x00]"

text \<open>The path of a line of \<open>git ls-tree\<close>: what follows the first tab.\<close>

definition entry_path :: "string \<Rightarrow> string res" where
  "entry_path entry =
     (case str_partition [CHR 0x09] entry of (_, sep, p) \<Rightarrow>
        if sep = [] then Inl (Exn IndexError []) else decode_utf8 p)"

definition is_input :: "Image \<Rightarrow> string \<Rightarrow> bool res" where
  "is_input i entry =
     (if entry = [] then Inr False else bnd (entry_path entry) (\<lambda>p. Inr (list_ex (fnmatchcase p) (img_paths i))))"

definition input_revision :: "(string \<Rightarrow> string res) \<Rightarrow> Image \<Rightarrow> string \<Rightarrow> (string \<times> string) res" where
  "input_revision ls_tree i head =
     bnd (ls_tree head) (\<lambda>listing.
     bnd (filterM (is_input i) (split_char (CHR 0x00) listing)) (\<lambda>entries.
     bnd (raise_if (entries = []) (Exn ValueError (head @ '' has none of the inputs of '' @ img_name i))) (\<lambda>_.
       Inr (sha1_hex (str_join nul entries), INPUT_EPOCH))))"

section \<open>Selection\<close>

definition BASE_REF :: "repo_env \<Rightarrow> rx res" where
  "BASE_REF env =
     bnd (tag_pattern env) (\<lambda>tag.
       Inr (rx_alts [rx_commit, tag, rx_seqs [VERSION, rx_lit ''-rc.'', rx_positive]]))"

text \<open>What git answers: whether a revision exists and is an ancestor, and the names of the changed files.\<close>

record git_answers =
  rev_parse :: "string \<Rightarrow> unit res"
  is_ancestor :: "string \<Rightarrow> string \<Rightarrow> unit res"
  diff_names :: "string \<Rightarrow> string \<Rightarrow> string res"
  ls_tree :: "string \<Rightarrow> string res"

definition changed_since :: "repo_env \<Rightarrow> git_answers \<Rightarrow> string \<Rightarrow> string \<Rightarrow> string list res" where
  "changed_since env git base_ref head =
     bnd (BASE_REF env) (\<lambda>pattern.
     bnd (raise_if (\<not> fullmatch pattern base_ref)
            (Exn ValueError ''base ref must be a full commit or a historical or current release tag'')) (\<lambda>_.
     bnd (rev_parse git base_ref) (\<lambda>_.
     bnd (is_ancestor git base_ref head) (\<lambda>_.
     bnd (bnd (diff_names git base_ref head) decode_utf8) (\<lambda>output.
       Inr (filter (\<lambda>p. p \<noteq> []) (splitlines output)))))))"

definition include_json :: "pydict list \<Rightarrow> string" where
  "include_json entries = dumps json_compact (PDict [(''include'', PList (map PDict entries))])"

definition passes :: "pydict list \<Rightarrow> pydict list" where
  "passes entries = concat (map (\<lambda>e. [dset ''pass'' (PInt 1) e, dset ''pass'' (PInt 2) e]) entries)"

definition entry_name :: "pydict \<Rightarrow> string" where
  "entry_name e = (case map_of e ''image'' of Some (PStr s) \<Rightarrow> s | _ \<Rightarrow> [])"

text \<open>The lines the command prints.\<close>

definition main_affected :: "repo_env \<Rightarrow> git_answers \<Rightarrow> string \<Rightarrow> string \<Rightarrow> string list res" where
  "main_affected env git base_ref head =
     bnd (changed_since env git base_ref head) (\<lambda>paths.
     let selected = affected_images paths in
     bnd (mapM (\<lambda>i. bnd (input_revision (ls_tree git) i head) (\<lambda>(revision, epoch).
            Inr (dupdate (matrix_entry i) [(''revision'', PStr revision), (''epoch'', PStr epoch)]))) selected) (\<lambda>matrix.
     let large = filter (\<lambda>e. entry_name e = ''sglang'') matrix;
         standard = filter (\<lambda>e. e \<notin> set large) matrix
     in Inr [''matrix='' @ include_json matrix,
             ''standard_matrix='' @ include_json standard,
             ''standard_pass_matrix='' @ include_json (passes standard),
             ''sglang='' @ (if large \<noteq> [] then ''true'' else ''false''),
             ''large_matrix='' @ include_json large,
             ''large_pass_matrix='' @ include_json (passes large),
             ''names='' @ str_join '','' (map img_name selected),
             ''standard_names='' @ str_join '','' (map entry_name standard)]))"

section \<open>Publication evidence\<close>

abbreviation publication_error :: "string \<Rightarrow> exn" where
  "publication_error m \<equiv> Exn PublicationError m"

type_synonym violation = "pyv \<Rightarrow> pyv \<Rightarrow> string option"

definition PUBLICATION_SCHEMA :: string where
  "PUBLICATION_SCHEMA = ''confidential.ai/image-publication-manifest/v2''"

definition REPOSITORY :: string where
  "REPOSITORY = ''https://github.com/confidential-dot-ai/confidential-inference''"

definition REGISTRY :: string where
  "REGISTRY = ''ghcr.io/confidential-dot-ai/confidential-inference''"

definition rx_published_image :: rx where
  "rx_published_image = rx_seqs [rx_lit (REGISTRY @ ''/''), RChr (\<lambda>c. is_lower c \<or> is_digit c),
     RStar (RChr (\<lambda>c. is_lower c \<or> is_digit c \<or> c \<in> set ''._-''))]"

definition read_publication_json :: "repo_env \<Rightarrow> path \<Rightarrow> pyv res" where
  "read_publication_json env p =
     try_except (bnd (read_text env p) loads) [OSError, JSONDecodeError]
       (\<lambda>e. Inl (publication_error (''cannot read '' @ path_str p @ '': '' @ msg e)))"

definition validate :: "repo_env \<Rightarrow> violation \<Rightarrow> pyv \<Rightarrow> pydict res" where
  "validate env violation manifest =
     bnd (read_publication_json env (repo_root env @ [''api'', ''image-publication-manifest.schema.json''])) (\<lambda>schema.
     bnd (case violation schema manifest of
            None \<Rightarrow> Inr () | Some m \<Rightarrow> Inl (publication_error (''publication manifest '' @ m))) (\<lambda>_.
     bnd (case manifest of PDict d \<Rightarrow> Inr d
          | _ \<Rightarrow> Inl (publication_error ''publication manifest is not an object'')) (\<lambda>d.
     bnd (bnd (jidx manifest ''images'') jiter) (\<lambda>images.
     bnd (mapM (\<lambda>entry. jidx entry ''name'') images) (\<lambda>names.
     bnd (py_sorted (map (\<lambda>v. (v, v)) names)) (\<lambda>ordered.
     bnd (raise_if (\<not> list_all2 py_eq names ordered)
            (publication_error ''publication images are not sorted by name'')) (\<lambda>_.
     bnd (py_set names) (\<lambda>unique.
     bnd (raise_if (length names \<noteq> length unique)
            (publication_error ''publication manifest repeats an image'')) (\<lambda>_.
       Inr d)))))))))"

definition publication_source :: "string \<Rightarrow> string \<Rightarrow> string \<Rightarrow> pyv" where
  "publication_source source_commit base_ref base_ref_commit =
     PDict [(''repository'', PStr REPOSITORY), (''commit'', PStr source_commit), (''baseRef'', PStr base_ref),
            (''baseRefCommit'', PStr base_ref_commit)]"

definition publication_record :: "string \<Rightarrow> string \<Rightarrow> string \<Rightarrow> string \<Rightarrow> string \<Rightarrow> string \<Rightarrow> pyv res" where
  "publication_record img pushed_digest reproducibility_digest source_commit base_ref base_ref_commit =
     bnd (raise_if (\<not> fullmatch rx_published_image img) (publication_error ''image name is invalid'')) (\<lambda>_.
     bnd (raise_if (\<not> fullmatch rx_digest pushed_digest) (publication_error ''pushed digest is invalid'')) (\<lambda>_.
     bnd (raise_if (\<not> fullmatch rx_digest reproducibility_digest)
            (publication_error ''reproducibility digest is invalid'')) (\<lambda>_.
     bnd (raise_if (pushed_digest \<noteq> reproducibility_digest)
            (publication_error ''pushed digest differs from the deterministic reproducibility digest'')) (\<lambda>_.
     bnd (raise_if (\<not> fullmatch rx_commit source_commit) (publication_error ''source commit is invalid'')) (\<lambda>_.
     bnd (raise_if (base_ref = [] \<or> list_ex is_space base_ref) (publication_error ''base reference is invalid'')) (\<lambda>_.
     bnd (raise_if (\<not> fullmatch rx_commit base_ref_commit)
            (publication_error ''base reference commit is invalid'')) (\<lambda>_.
       Inr (PDict [(''schema'', PStr PUBLICATION_SCHEMA),
                   (''source'', publication_source source_commit base_ref base_ref_commit),
                   (''images'', PList [PDict [(''name'', PStr img), (''digest'', PStr pushed_digest)]])]))))))))"

definition sources_of :: "pydict list \<Rightarrow> string list res" where
  "sources_of manifests =
     bnd (mapM (\<lambda>m. jidx (PDict m) ''source'') manifests) (\<lambda>sources.
       Inr (remdups (map (dumps (json_default\<lparr>sort_keys := True\<rparr>)) sources)))"

definition merge :: "repo_env \<Rightarrow> violation \<Rightarrow> path list \<Rightarrow> string list \<Rightarrow> pydict res" where
  "merge env violation paths expected_names =
     bnd (raise_if (paths = []) (publication_error ''no publication records were supplied'')) (\<lambda>_.
     bnd (mapM (\<lambda>p. bnd (read_publication_json env p) (validate env violation)) (sort paths)) (\<lambda>manifests.
     bnd (sources_of manifests) (\<lambda>sources.
     bnd (raise_if (length sources \<noteq> 1)
            (publication_error ''publication records have different source commits'')) (\<lambda>_.
     bnd (mapM (\<lambda>m. bnd (jidx (PDict m) ''images'') jiter) manifests) (\<lambda>lists.
     let images = concat lists in
     bnd (mapM (\<lambda>entry. jidx entry ''name'') images) (\<lambda>names.
     bnd (py_sorted (map (\<lambda>v. (v, v)) names)) (\<lambda>ordered.
     let expected = map PStr (sort (map (\<lambda>name. REGISTRY @ ''/'' @ name) expected_names)) in
     bnd (raise_if (\<not> list_all2 py_eq ordered expected)
            (publication_error (''publication image set differs from the selected images: got='' @
               py_repr (PList ordered) @ '' expected='' @ py_repr (PList expected)))) (\<lambda>_.
     bnd (loads (hd sources)) (\<lambda>source.
     bnd (py_sorted (zip names images)) (\<lambda>sorted_images.
       validate env violation
         (PDict [(''schema'', PStr PUBLICATION_SCHEMA), (''source'', source), (''images'', PList sorted_images)])))))))))))"

definition encode_publication :: "pyv \<Rightarrow> string" where
  "encode_publication v = dumps (json_indent2\<lparr>sort_keys := True\<rparr>) v @ [CHR 0x0A]"

datatype publication_command =
    Record string string string string string string
  | Merge "path list" "string list"
  | Check path

text \<open>The command: the bytes it writes and its exit code, or its error line.\<close>

definition main_publication :: "repo_env \<Rightarrow> violation \<Rightarrow> publication_command \<Rightarrow> (string option \<times> string \<times> int) res" where
  "main_publication env violation cmd =
     try_except
       (case cmd of
          Record img pushed_digest reproducibility_digest source_commit base_ref base_ref_commit \<Rightarrow>
            bnd (publication_record img pushed_digest reproducibility_digest source_commit base_ref base_ref_commit) (\<lambda>v.
            bnd (validate env violation v) (\<lambda>_. Inr (Some (encode_publication v), [], 0)))
        | Merge records expected \<Rightarrow>
            bnd (merge env violation records expected) (\<lambda>d. Inr (Some (encode_publication (PDict d)), [], 0))
        | Check p \<Rightarrow>
            bnd (bnd (read_publication_json env p) (validate env violation)) (\<lambda>_. Inr (None, [], 0)))
       [PublicationError, OSError] (\<lambda>e. Inr (None, ''image-publication-manifest: '' @ msg e, 1))"

section \<open>Which images a change affects\<close>

text \<open>A pattern of the images is a path, or a directory followed by two stars.\<close>

definition plain :: "string \<Rightarrow> bool" where
  "plain p \<longleftrightarrow> CHR ''*'' \<notin> set p \<and> CHR ''?'' \<notin> set p"

fun covers :: "string \<Rightarrow> string \<Rightarrow> bool" where
  "covers pattern p = (if endswith pattern ''**'' then startswith p (take (length pattern - 2) pattern) else p = pattern)"

lemma fnmatch_stars: "fnmatchcase s ''**''"
  by (induction s) simp_all

lemma fnmatch_plain: "plain p \<Longrightarrow> fnmatchcase s p \<longleftrightarrow> s = p"
  by (induction s p rule: fnmatchcase.induct) (auto simp: plain_def)

lemma fnmatch_prefix: "plain p \<Longrightarrow> fnmatchcase s (p @ ''**'') \<longleftrightarrow> startswith s p"
proof (induction p arbitrary: s)
  case Nil
  show ?case using fnmatch_stars by (simp add: startswith_def)
next
  case (Cons x p)
  then show ?case by (cases s) (auto simp: plain_def startswith_def)
qed

definition pattern_ok :: "string \<Rightarrow> bool" where
  "pattern_ok p \<longleftrightarrow> plain p \<or> endswith p ''**'' \<and> plain (take (length p - 2) p)"

lemma fnmatch_covers:
  assumes "pattern_ok p"
  shows "fnmatchcase s p \<longleftrightarrow> covers p s"
proof (cases "plain p")
  case True
  then have "\<not> endswith p ''**''"
    using in_set_dropD [of "CHR ''*''" "length p - Suc (Suc 0)" p] by (auto simp: plain_def endswith_def)
  with True show ?thesis by (simp add: fnmatch_plain)
next
  case False
  with assms have e: "endswith p ''**''" "plain (take (length p - 2) p)" by (auto simp: pattern_ok_def)
  then have "p = take (length p - 2) p @ ''**''"
    using append_take_drop_id [of "length p - 2" p] by (simp add: endswith_def numeral_2_eq_2)
  with fnmatch_prefix [OF e(2), of s] e(1) show ?thesis by simp
qed

lemma image_patterns: "list_all (\<lambda>i. list_all pattern_ok (img_paths i)) IMAGES"
  by (simp add: IMAGES_def RUST_IMAGE_INPUTS_def pattern_ok_def plain_def endswith_def)

text \<open>
  C34: An image is affected exactly by its own build inputs.  \<open>affected_images\<close> keeps, in the order of the
  registry, the images with a changed path that is one of their input files or lies below one of their
  input directories; the matching of patterns adds nothing else.
\<close>

theorem affected_images_inputs:
  "affected_images paths = filter (\<lambda>i. list_ex (\<lambda>p. list_ex (\<lambda>pattern. covers pattern p) (img_paths i)) paths) IMAGES"
  unfolding affected_images_def
proof (rule filter_cong [OF refl])
  fix i
  assume "i \<in> set IMAGES"
  then have "\<forall>pattern \<in> set (img_paths i). pattern_ok pattern" using image_patterns by (auto simp: list_all_iff)
  then show "list_ex (\<lambda>p. list_ex (fnmatchcase p) (img_paths i)) paths =
      list_ex (\<lambda>p. list_ex (\<lambda>pattern. covers pattern p) (img_paths i)) paths"
    by (simp add: list_ex_iff fnmatch_covers del: covers.simps)
qed

end
