(* ===== verification/Release_Sources.thy ===== *)
theory Release_Sources
  imports Manifest_Inputs Image_Publication
begin

text \<open>
  \<open>scripts/build-release-manifest.py\<close>, lines 461 to 807: the signed sources of a release. The publication
  evidence, the signed base release, the composition of a transition policy, and the digest of every
  repository image.

  A download writes its file: the operations that download return the environment with the file. The
  network, git, the JSON schema validator, \<open>shutil.which\<close>, the YAML printer and the archive writer are
  arguments.
\<close>

record build_env = signature_env +
  rglob :: "path \<Rightarrow> path list"
  fetch_url :: "string \<Rightarrow> string res"
  which_cosign :: "path option"
  git_ancestor :: "string \<Rightarrow> string \<Rightarrow> completed"
  git_diff :: "string \<Rightarrow> string \<Rightarrow> completed"
  plain_violation :: violation
  yaml_dump :: "pyv \<Rightarrow> string"
  tgz :: "(string \<times> string) list \<Rightarrow> string"
  allow_tools :: allowlist_tools

abbreviation rp :: "build_env \<Rightarrow> repo_env" where
  "rp env \<equiv> repo_env.truncate env"

abbreviation sg :: "build_env \<Rightarrow> signature_env" where
  "sg env \<equiv> signature_env.truncate env"

definition write_file :: "build_env \<Rightarrow> path \<Rightarrow> string \<Rightarrow> build_env" where
  "write_file env p data = env\<lparr>file_bytes := (file_bytes env)(p \<mapsto> data)\<rparr>"

section \<open>Publication evidence\<close>

definition registered_images :: "string list" where
  "registered_images = map (\<lambda>i. REPOSITORY_IMAGES @ img_name i) IMAGES"

definition read_publication :: "build_env \<Rightarrow> path \<Rightarrow> (string \<times> pydict) res" where
  "read_publication env p =
     bnd (read_bytes (rp env) p) (\<lambda>data.
     bnd (try_except (bnd (loads_bytes data) (validate (rp env) (plain_violation env))) [PublicationError, JSONDecodeError]
            (\<lambda>e. Inl (manifest_error (''image publication: '' @ msg e)))) (\<lambda>publication.
     bnd (bnd (jidx (PDict publication) ''images'') jiter) (\<lambda>entries.
     bnd (for_each (\<lambda>entry. bnd (jidx entry ''name'') (\<lambda>n.
            requireM (in_strs n registered_images)
              (''published image is outside the release image registry: '' @ py_str n))) entries) (\<lambda>_.
       Inr (data, publication)))))"

definition changed_paths :: "build_env \<Rightarrow> pyv \<Rightarrow> pyv \<Rightarrow> string list res" where
  "changed_paths env base head =
     bnd (arg_text base) (\<lambda>b. bnd (arg_text head) (\<lambda>h.
     bnd (require (returncode (git_ancestor env b h) = 0) (b @ '' is not an ancestor of '' @ h)) (\<lambda>_.
     bnd (require (returncode (git_diff env b h) = 0) (''cannot compare '' @ b @ '' and '' @ h)) (\<lambda>_.
       Inr (splitlines (stdout (git_diff env b h)))))))"

section \<open>Signed releases\<close>

definition MAX_BASE_RELEASE_FILE_BYTES :: nat where
  "MAX_BASE_RELEASE_FILE_BYTES = 16 * 1024 * 1024"

definition fetch :: "build_env \<Rightarrow> string \<Rightarrow> string res" where
  "fetch env url =
     bnd (try_except (fetch_url env url) [OSError]
            (\<lambda>e. Inl (manifest_error (''cannot download '' @ url @ '': '' @ msg e)))) (\<lambda>data.
     bnd (require (length data \<le> MAX_BASE_RELEASE_FILE_BYTES) (url @ '' is too large'')) (\<lambda>_. Inr data))"

definition asset_url :: "string \<Rightarrow> string \<Rightarrow> string" where
  "asset_url tag name = REPOSITORY @ ''/releases/download/'' @ tag @ ''/'' @ name"

definition BASE_RELEASE_FILES :: "string list" where
  "BASE_RELEASE_FILES = [''release-bundle.json'', ''release-bundle.sigstore.json'']"

definition download_base_release :: "build_env \<Rightarrow> string \<Rightarrow> path \<Rightarrow> build_env res" where
  "download_base_release env tag dir =
     (if list_all (\<lambda>name. is_file (rp env) (dir @ [name])) BASE_RELEASE_FILES then Inr env
      else foldM (\<lambda>env name. bnd (fetch env (asset_url tag name)) (\<lambda>data. Inr (write_file env (dir @ [name]) data)))
             env BASE_RELEASE_FILES)"

definition validate_schema :: "build_env \<Rightarrow> pyv \<Rightarrow> unit res" where
  "validate_schema env manifest =
     bnd (read_manifest_json (rp env) (repo_root env @ [''api'', ''release-manifest.schema.json''])) (\<lambda>schema.
       case plain_violation env schema manifest of
         None \<Rightarrow> Inr ()
       | Some m \<Rightarrow> Inl (manifest_error (''the manifest does not match release-manifest.schema.json: '' @ m)))"

definition signed_release :: "build_env \<Rightarrow> string \<Rightarrow> path \<Rightarrow> string \<Rightarrow> (build_env \<times> pyv) res" where
  "signed_release env tag dir what =
     bnd (download_base_release env tag dir) (\<lambda>env'.
     bnd (case which_cosign env' of
            None \<Rightarrow> Inl (manifest_error (''verifying '' @ what @ '' needs cosign'')) | Some c \<Rightarrow> Inr c) (\<lambda>cosign.
     bnd (try_except (verify_release_signature (sg env') (dir @ [''release-bundle.json''])
              (dir @ [''release-bundle.sigstore.json'']) (realpath env' cosign) None) [OSError, ReleaseSignatureError]
            (\<lambda>e. Inl (manifest_error (what @ '' signature: '' @ msg e)))) (\<lambda>_.
     bnd (read_manifest_json (rp env') (dir @ [''release-bundle.json''])) (\<lambda>manifest.
     bnd (validate_schema env' manifest) (\<lambda>_.
     bnd (requireM (bnd (bnd (jidx manifest ''release'') (\<lambda>r. jidx r ''name'')) (\<lambda>n. Inr (n = PStr tag)))
            (''the manifest of '' @ what @ '' '' @ tag @ '' names a different release'')) (\<lambda>_.
       Inr (env', manifest)))))))"

definition signed_allowlist :: "build_env \<Rightarrow> string \<Rightarrow> path \<Rightarrow> (build_env \<times> pyv \<times> pyv \<times> string) res" where
  "signed_allowlist env tag dir =
     bnd (signed_release env tag dir ''the transition input release'') (\<lambda>(env1, manifest).
     bnd (if is_file (rp env1) (dir @ [''allowlist.json'']) then Inr env1
          else bnd (fetch env1 (asset_url tag ''allowlist.json'')) (\<lambda>data.
                 Inr (write_file env1 (dir @ [''allowlist.json'']) data))) (\<lambda>env2.
     bnd (read_bytes (rp env2) (dir @ [''allowlist.json''])) (\<lambda>raw.
     bnd (requireM (bnd (bnd (jidx manifest ''allowlist'') (\<lambda>a. jidx a ''sha256'')) (\<lambda>h. Inr (h = PStr (sha256 raw))))
            (tag @ '' allowlist bytes differ from its signed manifest'')) (\<lambda>_.
     bnd (loads_bytes raw) (\<lambda>document.
     bnd (requireM (andsM [bnd (jget document ''schema'') (\<lambda>s. Inr (s = PStr ''c8s.allowlist/v1'')),
                           bnd (jget document ''workloads'') (\<lambda>w. Inr (is_dict w))])
            (tag @ '' has an invalid allowlist'')) (\<lambda>_.
     bnd (read_bytes (rp env2) (dir @ [''release-bundle.json''])) (\<lambda>bundle.
       Inr (env2, manifest, document, sha256 bundle))))))))"

section \<open>Transition policies\<close>

definition bad_policy_shape :: exn where
  "bad_policy_shape = manifest_error ''unsupported transition policy shape''"

definition policy_document_workloads :: "pyv \<Rightarrow> pydict res" where
  "policy_document_workloads document =
     (case document of
        PDict d \<Rightarrow>
          if same_keys (dkeys d) [''schema'', ''workloads''] \<and> map_of d ''schema'' = Some (PStr ''c8s.allowlist/v1'')
          then (case map_of d ''workloads'' of Some (PDict w) \<Rightarrow> Inr w | _ \<Rightarrow> Inl bad_policy_shape)
          else Inl bad_policy_shape
      | _ \<Rightarrow> Inl bad_policy_shape)"

text \<open>\<open>v in values\<close> of a set.\<close>

definition in_set :: "pyv \<Rightarrow> pyv list \<Rightarrow> bool res" where
  "in_set v vs = (if hashable v then Inr (list_ex (py_eq v) vs) else type_error)"

definition helper_pinned :: "pyv \<Rightarrow> bool res" where
  "helper_pinned container =
     allM (\<lambda>field. bnd (bnd (jgetd container field (PDict [])) (\<lambda>f. jget f ''policy'')) (\<lambda>p. in_strs p [''exact'', ''deny'']))
       [''command'', ''args'', ''env'', ''mounts'']"

definition check_transition_container :: "pyv list \<Rightarrow> bool \<Rightarrow> string \<Rightarrow> pyv \<Rightarrow> unit res" where
  "check_transition_container permitted helper name container =
     bnd (jget container ''image'') (\<lambda>img.
     bnd (requireM (in_set img permitted)
            (''transition workload '' @ name @ '' has no approved release image: '' @ py_str img)) (\<lambda>_.
     bnd (bnd (jidx container ''image'') arg_text) (\<lambda>s.
     bnd (requireM (case oci_groups s of None \<Rightarrow> Inr False
                    | Some (_, digest) \<Rightarrow> bnd (jget container ''digest'') (\<lambda>d. Inr (d = PStr digest)))
            (''transition workload '' @ name @ '' image and digest differ'')) (\<lambda>_.
       if helper
       then requireM (helper_pinned container)
              (''transition helper '' @ name @ '' must have exact process, environment and mount policies'')
       else Inr ()))))"

definition add_transition :: "pyv list \<Rightarrow> bool \<Rightarrow> pydict \<Rightarrow> string \<times> pyv \<Rightarrow> pydict res" where
  "add_transition permitted helper result named =
     (case named of (name, entry) \<Rightarrow>
        bnd (require (case map_of result name of None \<Rightarrow> True | Some e \<Rightarrow> py_eq e entry)
               (''transition workload '' @ name @ '' has conflicting definitions; use distinct replacement identities'')) (\<lambda>_.
        bnd (bnd (all_containers entry) (for_each (check_transition_container permitted helper name))) (\<lambda>_.
          Inr (dset name entry result))))"

definition compose_transition_policy :: "pyv \<Rightarrow> pyv \<Rightarrow> pyv \<Rightarrow> pyv list \<Rightarrow> pydict res" where
  "compose_transition_policy old new helpers permitted =
     (case helpers of
        PDict hs \<Rightarrow>
          bnd (policy_document_workloads old) (\<lambda>ow.
          bnd (policy_document_workloads new) (\<lambda>nw.
          bnd (require (set (dkeys hs) \<inter> (set (dkeys ow) \<union> set (dkeys nw)) = {})
                 ''transition helpers must have separate workload identities'') (\<lambda>_.
          bnd (foldM (add_transition permitted False) [] ow) (\<lambda>r1.
          bnd (foldM (add_transition permitted False) r1 nw) (\<lambda>r2.
            foldM (add_transition permitted True) r2 hs)))))
      | _ \<Rightarrow> Inl (manifest_error ''transition helpers must be named workload definitions''))"

definition resolve_value :: "string \<Rightarrow> (string \<times> string) list \<Rightarrow> pyv \<Rightarrow> string res" where
  "resolve_value name replacements v =
     (case v of
        PStr s \<Rightarrow>
          (let r = foldl (\<lambda>s (marker, replacement). str_replace marker replacement s) s replacements in
           bnd (require (\<not> contains [dollar, CHR 0x7B] r)
                  (''transition helper '' @ name @ '' has an unresolved environment marker'')) (\<lambda>_. Inr r))
      | _ \<Rightarrow> Inl (manifest_error (''transition helper '' @ name @ '' has a non-string environment value'')))"

definition resolve_env :: "string \<Rightarrow> (string \<times> string) list \<Rightarrow> pydict \<Rightarrow> pydict res" where
  "resolve_env name replacements c =
     bnd (bnd (jgetd (PDict c) ''env'' (PDict [])) (\<lambda>e. jgetd e ''values'' (PDict []))) (\<lambda>vs.
     bnd (jitems vs) (\<lambda>items.
     bnd (mapM (\<lambda>(variable, v). bnd (resolve_value name replacements v) (\<lambda>s. Inr (variable, PStr s))) items) (\<lambda>resolved.
       Inr (case map_of c ''env'' of
              Some (PDict e) \<Rightarrow>
                (if ''values'' \<in> set (dkeys e) then dset ''env'' (PDict (dset ''values'' (PDict resolved) e)) c else c)
            | _ \<Rightarrow> c))))"

definition resolve_container :: "string \<Rightarrow> (string \<times> string) list \<Rightarrow> pydict \<Rightarrow> pyv \<Rightarrow> pyv res" where
  "resolve_container name replacements images container =
     (case container of
        PDict c0 \<Rightarrow>
          bnd (resolve_env name replacements c0) (\<lambda>c1.
          let key = (case map_of c1 ''imageKey'' of None \<Rightarrow> PNone | Some v \<Rightarrow> v); c = ddel ''imageKey'' c1 in
          if key = PNone then Inr (PDict c)
          else bnd (require (case key of PStr k \<Rightarrow> k \<in> set (dkeys images) | _ \<Rightarrow> False)
                      (''transition helper '' @ name @ '' has an unknown release image key'')) (\<lambda>_.
               bnd (require (''image'' \<notin> set (dkeys c) \<and> ''digest'' \<notin> set (dkeys c))
                      (''transition helper '' @ name @ '' mixes an image key with a manual digest'')) (\<lambda>_.
               bnd (bnd (arg_text key) (jidx (PDict images))) (\<lambda>img.
               bnd (arg_text img) (\<lambda>s.
                 case oci_groups s of
                   None \<Rightarrow> Inl (manifest_error (''transition helper '' @ name @ '' has an unpinned release image''))
                 | Some (_, digest) \<Rightarrow> Inr (PDict (dset ''digest'' (PStr digest) (dset ''image'' img c))))))))
      | _ \<Rightarrow> no_attribute)"

text \<open>The containers are changed in place, in both lists of the entry.\<close>

definition resolve_field :: "string \<Rightarrow> (string \<times> string) list \<Rightarrow> pydict \<Rightarrow> pydict \<Rightarrow> string \<Rightarrow> pydict res" where
  "resolve_field name replacements images entry field =
     (case map_of entry field of
        None \<Rightarrow> Inr entry
      | Some v \<Rightarrow>
          bnd (case v of PList cs \<Rightarrow> Inr cs | _ \<Rightarrow> type_error) (\<lambda>cs.
          bnd (mapM (resolve_container name replacements images) cs) (\<lambda>resolved.
            Inr (dset field (PList resolved) entry))))"

definition resolve_entry :: "(string \<times> string) list \<Rightarrow> pydict \<Rightarrow> string \<times> pyv \<Rightarrow> (string \<times> pyv) res" where
  "resolve_entry replacements images named =
     (case named of (name, entry) \<Rightarrow>
        (case entry of
           PDict e \<Rightarrow>
             bnd (all_containers entry) (\<lambda>_.
             bnd (foldM (resolve_field name replacements images) e [''initContainers'', ''containers'']) (\<lambda>r. Inr (name, PDict r)))
         | _ \<Rightarrow> Inl (manifest_error (''transition helper '' @ name @ '' is not a workload definition''))))"

definition router_marker :: string where
  "router_marker = [dollar, CHR 0x7B] @ ''ROUTER_WORKLOAD_ID'' @ [CHR 0x7D]"

definition resolve_transition_helpers :: "repo_env \<Rightarrow> pyv \<Rightarrow> pydict \<Rightarrow> string option \<Rightarrow> pydict res" where
  "resolve_transition_helpers env helpers images tag =
     bnd (require (is_dict helpers) ''transition helpers must be a mapping'') (\<lambda>_.
     bnd (bnd (loads (dumps json_default helpers)) jitems) (\<lambda>result.
     bnd (case tag of
            None \<Rightarrow> Inr []
          | Some t \<Rightarrow> bnd (workload_release env t) (\<lambda>r. Inr [(router_marker, ''router-'' @ str_replace ''.'' ''-'' r)])) (\<lambda>replacements.
       mapM (resolve_entry replacements images) result)))"

definition image_values :: "pyv \<Rightarrow> pyv list res" where
  "image_values manifest = bnd (bnd (jidx manifest ''images'') jvalues) py_set"

definition entry_images :: "pyv \<Rightarrow> pyv list res" where
  "entry_images document =
     bnd (bnd (jidx document ''workloads'') jvalues) (\<lambda>entries.
     bnd (mapM (\<lambda>entry. bnd (all_containers entry) (mapM (\<lambda>c. jidx c ''image''))) entries) (\<lambda>lists.
       py_set (concat lists)))"

definition subset_values :: "pyv list \<Rightarrow> pyv list \<Rightarrow> bool" where
  "subset_values xs ys = list_all (\<lambda>x. list_ex (py_eq x) ys) xs"

text \<open>The signed releases a transition starts from and leads to.\<close>

definition transition_inputs ::
  "build_env \<Rightarrow> string \<Rightarrow> string \<Rightarrow> string \<Rightarrow> path \<Rightarrow>
     (build_env \<times> (pyv \<times> pyv \<times> string) \<times> (pyv \<times> pyv \<times> string)) res" where
  "transition_inputs env tag final_tag from_release dir =
     bnd (requireM (bnd (workload_release (rp env) from_release) (\<lambda>r. Inr (from_release = r)))
            ''the prior release must be a final release'') (\<lambda>_.
     bnd (requireM (bnd (for_tag (rp env) from_release) (\<lambda>p. bnd (for_tag (rp env) tag) (\<lambda>q.
              Inr (py_eq (environment p) (environment q)))))
            ''transition input releases belong to different environments'') (\<lambda>_.
     bnd (signed_allowlist env from_release (dir @ [''transition-old''])) (\<lambda>(env1, old).
     bnd (signed_allowlist env1 final_tag (dir @ [''transition-final''])) (\<lambda>(env2, new).
       Inr (env2, old, new)))))"

definition check_transition_manifests :: "pyv \<Rightarrow> pyv \<Rightarrow> string \<Rightarrow> pydict \<Rightarrow> unit res" where
  "check_transition_manifests old_manifest new_manifest source_commit images =
     bnd (requireM (bnd (bnd (jidx new_manifest ''source'') (\<lambda>s. jidx s ''commit'')) (\<lambda>c. Inr (c = PStr source_commit)))
            ''the final and transition releases must use the same source commit'') (\<lambda>_.
     bnd (requireM (andsM (map (\<lambda>k. bnd (jidx old_manifest k) (\<lambda>a. bnd (jidx new_manifest k) (\<lambda>b. Inr (py_eq a b))))
              [''c8s'', ''nodeImage'']))
            ''this transition changes a node image or C8s; use a separate reviewed procedure'') (\<lambda>_.
       requireM (bnd (py_set (map snd images)) (\<lambda>a. bnd (image_values new_manifest) (\<lambda>b. Inr (subset_values a b))))
         ''transition replacement images differ from the verified final release''))"

definition permitted_images :: "pyv \<Rightarrow> pyv \<Rightarrow> pyv \<Rightarrow> pyv \<Rightarrow> pyv list res" where
  "permitted_images old_manifest new_manifest old new =
     bnd (image_values old_manifest) (\<lambda>a.
     bnd (image_values new_manifest) (\<lambda>b.
     bnd (entry_images old) (\<lambda>c.
     bnd (entry_images new) (\<lambda>d. Inr (dedup (a @ b @ c @ d))))))"

definition release_binding :: "string \<Rightarrow> string \<Rightarrow> pyv \<Rightarrow> pyv res" where
  "release_binding name bundle_hash manifest =
     bnd (bnd (jidx manifest ''allowlist'') (\<lambda>a. jidx a ''sha256'')) (\<lambda>h.
       Inr (PDict [(''name'', PStr name), (''bundleSha256'', PStr bundle_hash), (''allowlistSha256'', h)]))"

definition transition_inventory :: "pydict \<Rightarrow> pyv list \<Rightarrow> pydict res" where
  "transition_inventory images permitted =
     bnd (py_sorted (map (\<lambda>v. (v, v)) (filter (\<lambda>v. \<not> list_ex (py_eq v) (map snd images)) permitted))) (\<lambda>extra.
       Inr (dupdate images (map (\<lambda>(i, v). (''transitionInput'' @ str_of_nat i, v)) (zip [0..<length extra] extra))))"

definition transition_policy ::
  "build_env \<Rightarrow> string \<Rightarrow> pydict \<Rightarrow> string \<Rightarrow> string \<Rightarrow> pydict \<Rightarrow> string option \<Rightarrow> path \<Rightarrow> profile \<Rightarrow>
     (build_env \<times> string \<times> pyv \<times> pydict) res" where
  "transition_policy env tag spec source_commit generated images tool dir p =
     bnd (jget (PDict spec) ''transition'') (\<lambda>inputs.
     bnd (require (case inputs of PDict d \<Rightarrow> same_keys (dkeys d) [''fromRelease'', ''helpers''] | _ \<Rightarrow> False)
            ''a transition release needs fromRelease and exact helper definitions'') (\<lambda>_.
     bnd (workload_release (rp env) tag) (\<lambda>final_tag.
     bnd (bnd (jidx inputs ''fromRelease'') arg_text) (\<lambda>from_release.
     bnd (transition_inputs env tag final_tag from_release dir) (\<lambda>(env', (old_manifest, old, old_hash), (new_manifest, new, new_hash)).
     bnd (check_transition_manifests old_manifest new_manifest source_commit images) (\<lambda>_.
     bnd (permitted_images old_manifest new_manifest old new) (\<lambda>permitted.
     bnd (requireM (bnd (loads_bytes generated) (\<lambda>g. Inr (py_eq g new)))
            ''transition replacement definitions differ from the signed final policy'') (\<lambda>_.
     bnd (bnd (jidx inputs ''helpers'') (\<lambda>h. resolve_transition_helpers (rp env') h images (Some tag))) (\<lambda>helpers.
     bnd (compose_transition_policy old new (PDict helpers) permitted) (\<lambda>combined.
     bnd (canonicalize (allow_tools env')
            (PDict [(''schema'', PStr ''c8s.allowlist/v1''), (''workloads'', PDict combined)]) tool) (\<lambda>raw.
     bnd (bnd (read_accepted_findings (rp env') (accepted_findings p)) (lint (c8s_lint (allow_tools env') raw))) (\<lambda>_.
     bnd (release_binding from_release old_hash old_manifest) (\<lambda>a.
     bnd (release_binding final_tag new_hash new_manifest) (\<lambda>b.
     bnd (transition_inventory images permitted) (\<lambda>inventory.
       Inr (write_file env' (dir @ [''transition-allowlist.json'']) raw, raw,
            PDict [(''fromRelease'', a), (''finalRelease'', b), (''helperWorkloads'', PList (map PStr (sort (dkeys helpers))))],
            inventory))))))))))))))))"

section \<open>Repository images\<close>

definition rx_transition_input :: rx where
  "rx_transition_input = RSeq (rx_lit ''transitionInput'') rx_digits"

definition add_base_image :: "string \<Rightarrow> pydict \<Rightarrow> string \<Rightarrow> string \<Rightarrow> pydict res" where
  "add_base_image message images name digest =
     bnd (require (case map_of images name of None \<Rightarrow> True | Some d \<Rightarrow> d = PStr digest) message) (\<lambda>_.
       Inr (dset name (PStr digest) images))"

definition base_image_step :: "bool \<Rightarrow> pydict \<Rightarrow> string \<times> pyv \<Rightarrow> pydict res" where
  "base_image_step transition images named =
     (case named of (key, img) \<Rightarrow>
        if transition \<and> fullmatch rx_transition_input key then Inr images
        else bnd (str_method img) (\<lambda>s.
          case str_rpartition ''@'' s of (name, sep, digest) \<Rightarrow>
            if sep = [] then Inl (Exn ValueError [])
            else if startswith name REPOSITORY_IMAGES
            then add_base_image ''the base release has ambiguous component image digests'' images name digest
            else Inr images))"

definition values_image_step :: "string list \<Rightarrow> pydict \<Rightarrow> pyv \<Rightarrow> pydict res" where
  "values_image_step missing images reference =
     (case (case reference of PStr s \<Rightarrow> oci_groups s | _ \<Rightarrow> None) of
        Some (name, digest) \<Rightarrow>
          if name \<in> set missing
          then add_base_image ''the base release values have ambiguous component image digests'' images name digest
          else Inr images
      | None \<Rightarrow> Inr images)"

definition published_names :: "pydict \<Rightarrow> string list res" where
  "published_names publication =
     bnd (bnd (jidx (PDict publication) ''images'') jiter) (mapM (\<lambda>entry. bnd (jidx entry ''name'') arg_text))"

definition check_unpublished :: "string list \<Rightarrow> string list \<Rightarrow> unit res" where
  "check_unpublished changed published =
     (let unpublished = filter (\<lambda>i. REPOSITORY_IMAGES @ i \<notin> set published) (map img_name (affected_images changed)) in
      require (unpublished = []) (''image build inputs changed after the base release, and the publication has no new digest: '' @
        str_join '', '' unpublished))"

text \<open>A component the rendered inventory omits: the values asset that the signed manifest binds.\<close>

definition missing_images ::
  "build_env \<Rightarrow> string \<Rightarrow> path \<Rightarrow> pyv \<Rightarrow> string list \<Rightarrow> pydict \<Rightarrow> (build_env \<times> pydict) res" where
  "missing_images env base_ref dir base missing images =
     bnd (jin ''releaseValues'' base) (\<lambda>bound.
       if missing = [] \<or> \<not> bound then Inr (env, images)
       else
         let p = dir @ [''release-values.yaml''] in
         bnd (if is_file (rp env) p then Inr env
              else bnd (fetch env (asset_url base_ref ''release-values.yaml'')) (\<lambda>data. Inr (write_file env p data))) (\<lambda>env'.
         bnd (read_bytes (rp env') p) (\<lambda>data.
         bnd (requireM (bnd (bnd (jidx base ''releaseValues'') (\<lambda>r. jidx r ''sha256'')) (\<lambda>h. Inr (h = PStr (sha256 data))))
                ''the base release values differ from its signed manifest'') (\<lambda>_.
         bnd (read_manifest_yaml (rp env') p) (\<lambda>vs.
         bnd (requireM (if is_dict vs then bnd (jget vs ''images'') (\<lambda>i. Inr (is_dict i)) else Inr False)
                ''the base release values have no image mapping'') (\<lambda>_.
         bnd (bnd (jidx vs ''images'') jvalues) (\<lambda>references.
         bnd (foldM (values_image_step missing) images references) (\<lambda>images'.
           Inr (env', images')))))))))"

definition base_release_images ::
  "build_env \<Rightarrow> pydict \<Rightarrow> path \<Rightarrow> string list \<Rightarrow> (build_env \<times> pydict) res" where
  "base_release_images env publication dir required_images =
     bnd (jidx (PDict publication) ''source'') (\<lambda>source.
     bnd (tag_pattern (rp env)) (\<lambda>pattern.
     bnd (bnd (jidx source ''baseRef'') arg_text) (\<lambda>base_ref.
       if \<not> fullmatch pattern base_ref then Inr (env, [])
       else bnd (signed_release env base_ref dir ''the base release'') (\<lambda>(env1, base).
       bnd (jidx source ''baseRefCommit'') (\<lambda>base_commit.
       bnd (requireM (bnd (bnd (jidx base ''source'') (\<lambda>s. jidx s ''commit'')) (\<lambda>c. Inr (py_eq c base_commit)))
              ''the base release source commit differs from the image publication base commit'') (\<lambda>_.
       bnd (bnd (jidx source ''commit'') (changed_paths env1 base_commit)) (\<lambda>changed.
       bnd (published_names publication) (\<lambda>published.
       bnd (check_unpublished changed published) (\<lambda>_.
       bnd (bnd (bnd (jgetd base ''imagePublication'' (PDict [])) (\<lambda>p. jgetd p ''images'' (PDict []))) jitems) (\<lambda>inventory.
       bnd (jin ''transition'' base) (\<lambda>transition.
       bnd (bnd (jidx base ''images'') jitems) (\<lambda>named.
       bnd (foldM (base_image_step transition) inventory named) (\<lambda>images.
         missing_images env1 base_ref dir base
           (filter (\<lambda>n. n \<notin> set (dkeys images) \<and> n \<notin> set published) required_images) images)))))))))))))"

definition published_digests :: "pydict \<Rightarrow> pydict res" where
  "published_digests publication =
     bnd (bnd (jidx (PDict publication) ''images'') jiter) (\<lambda>entries.
     bnd (mapM (\<lambda>entry. bnd (bnd (jidx entry ''name'') arg_text) (\<lambda>n. bnd (jidx entry ''digest'') (\<lambda>d. Inr (n, d)))) entries) (\<lambda>items.
       Inr (dupdate [] items)))"

definition release_image_step :: "pydict \<Rightarrow> pydict \<Rightarrow> pydict \<Rightarrow> string \<times> pyv \<Rightarrow> pydict res" where
  "release_image_step published base resolved named =
     (case named of (key, v) \<Rightarrow>
        if \<not> is_repository_image v then Inr resolved
        else bnd (arg_text v) (\<lambda>name.
          bnd (require (\<not> contains ''@'' name)
                 (''values.images.'' @ key @ '' pins a digest; the release takes it from the image publication'')) (\<lambda>_.
          let digest = py_or (get published name) (get base name) in
          bnd (require (digest \<noteq> PNone) (''neither the image publication nor the base release names '' @ name)) (\<lambda>_.
            Inr (dset key (PStr (name @ ''@'' @ py_str digest)) resolved)))))"

definition release_images :: "pyv \<Rightarrow> pydict \<Rightarrow> pydict \<Rightarrow> pydict res" where
  "release_images vs publication base =
     bnd (published_digests publication) (\<lambda>published.
     bnd (bnd (jgetd vs ''images'' (PDict [])) jitems) (\<lambda>items.
     bnd (foldM (release_image_step published base) [] items) (\<lambda>resolved.
       Inr (sort_items resolved))))"

definition image_config_step :: "allowlist_tools \<Rightarrow> pydict \<Rightarrow> string \<Rightarrow> pydict res" where
  "image_config_step t r img =
     (if img \<in> set (dkeys r) then Inr r
      else bnd (require (startswith img REPOSITORY_IMAGES)
                  (''release/inputs/image-config.json has no record for '' @ img)) (\<lambda>_.
           bnd (try_except (image_config t (PStr img)) [GenerationError] (\<lambda>e. Inl (manifest_error (msg e)))) (\<lambda>(_, c).
             Inr (dset img c r))))"

definition image_configs :: "repo_env \<Rightarrow> allowlist_tools \<Rightarrow> string list \<Rightarrow> pydict res" where
  "image_configs env t images =
     bnd (read_manifest_json env (IMAGE_CONFIG env)) (\<lambda>v.
     bnd (require (is_dict v) ''release image configuration is not a mapping'') (\<lambda>_.
     bnd (jitems v) (\<lambda>r.
     bnd (require (\<not> list_ex (\<lambda>i. startswith i REPOSITORY_IMAGES) (dkeys r))
            ''release/inputs/image-config.json must not record a repository image'') (\<lambda>_.
       foldM (image_config_step t) r images))))"

text \<open>\<open>image.rsplit("@", 1)[0]\<close>: the whole text when it has no \<open>@\<close>.\<close>

definition image_repository :: "string \<Rightarrow> string" where
  "image_repository img = (case str_rpartition ''@'' img of (name, sep, rest) \<Rightarrow> if sep = [] then rest else name)"

definition check_deployed :: "pydict \<Rightarrow> pyv \<Rightarrow> unit res" where
  "check_deployed named_images entry =
     bnd (mapM (\<lambda>(_, img). str_method img) named_images) (\<lambda>images.
     bnd (bnd (jidx entry ''name'') arg_text) (\<lambda>name.
     bnd (jidx entry ''digest'') (\<lambda>digest.
       let pinned = name @ ''@'' @ py_str digest in
       require (list_all (\<lambda>img. img = pinned) (filter (\<lambda>img. image_repository img = name) images))
         (''published image digest differs from the rendered release: '' @ pinned))))"

definition publication_binding :: "string \<Rightarrow> pydict \<Rightarrow> pydict \<Rightarrow> pyv res" where
  "publication_binding data publication named_images =
     bnd (bnd (jidx (PDict publication) ''images'') jiter) (\<lambda>entries.
     bnd (for_each (check_deployed named_images) entries) (\<lambda>_.
     bnd (published_digests publication) (\<lambda>digests.
     bnd (jidx (PDict publication) ''source'') (\<lambda>source.
     bnd (jidx source ''commit'') (\<lambda>commit.
     bnd (jidx source ''baseRef'') (\<lambda>base_ref.
     bnd (jidx source ''baseRefCommit'') (\<lambda>base_ref_commit.
       Inr (PDict [(''artifact'', PStr ''image-publication-manifest.json''), (''manifestSha256'', PStr (sha256 data)),
            (''sourceCommit'', commit), (''baseRef'', base_ref), (''baseRefCommit'', base_ref_commit),
            (''images'', PDict digests)]))))))))"

definition verify_image_source_boundary :: "build_env \<Rightarrow> pyv \<Rightarrow> string \<Rightarrow> unit res" where
  "verify_image_source_boundary env image_source_commit release_source_commit =
     bnd (try_except (changed_paths env image_source_commit (PStr release_source_commit)) [ManifestError]
            (\<lambda>e. Inl (manifest_error (''the image source commit must be an ancestor of the release commit: '' @ msg e)))) (\<lambda>paths.
       let affected = affected_images paths in
       require (affected = []) (''image build inputs changed after the image source commit: '' @
         str_join '', '' (map img_name affected)))"

section \<open>What a composed transition policy holds\<close>

text \<open>A container that runs an approved image, with the digest of that image.\<close>

definition approved_container :: "pyv list \<Rightarrow> bool \<Rightarrow> pyv \<Rightarrow> bool" where
  "approved_container permitted helper container =
     (case jget container ''image'' of
        Inr (PStr img) \<Rightarrow>
          PStr img \<in> set permitted \<and>
          (case oci_groups img of
             Some (_, digest) \<Rightarrow> jget container ''digest'' = Inr (PStr digest) | None \<Rightarrow> False) \<and>
          (helper \<longrightarrow> helper_pinned container = Inr True)
      | _ \<Rightarrow> False)"

lemma check_transition_container_Inr:
  assumes "check_transition_container permitted helper name container = Inr u"
  shows "approved_container permitted helper container"
proof -
  obtain img s where img: "jget container ''image'' = Inr img" "jidx container ''image'' = Inr (PStr s)"
    and perm: "list_ex (py_eq img) permitted"
    and dig: "case oci_groups s of None \<Rightarrow> False | Some (_, digest) \<Rightarrow> jget container ''digest'' = Inr (PStr digest)"
    and pin: "helper \<longrightarrow> helper_pinned container = Inr True"
    using assms unfolding check_transition_container_def
    by (auto simp: requireM_Inr in_set_def bnd_eq_Inr arg_text_Inr elim!: bndE split: if_splits option.splits prod.splits)
  have "img = PStr s" using img by (auto simp: res_simps)
  then show ?thesis using img perm dig pin
    by (auto simp: approved_container_def list_ex_iff split: option.splits)
qed

definition approved_entry :: "pyv list \<Rightarrow> bool \<Rightarrow> pyv \<Rightarrow> bool" where
  "approved_entry permitted helper entry =
     (case all_containers entry of Inr cs \<Rightarrow> list_all (approved_container permitted helper) cs | Inl _ \<Rightarrow> False)"

lemma add_transition_Inr:
  assumes "add_transition permitted helper r (n, e) = Inr r'"
  shows "approved_entry permitted helper e" "r' = dset n e r" "map_of r n = Some e0 \<Longrightarrow> py_eq e0 e"
  using assms
  by (auto simp: add_transition_def require_Inr approved_entry_def for_each_eq_Inr list_all_iff bnd_eq_Inr
      elim!: bndE dest!: check_transition_container_Inr split: sum.splits option.splits)

lemma fold_add_transition:
  assumes "foldM (add_transition permitted helper) r xs = Inr r'" "distinct (dkeys xs)"
  shows "map_of r' = map_of r ++ map_of xs \<and> list_all (\<lambda>(n, e). approved_entry permitted helper e) xs \<and>
    (\<forall>n e0 e. map_of r n = Some e0 \<longrightarrow> map_of xs n = Some e \<longrightarrow> py_eq e0 e)"
  using assms
proof (induction xs arbitrary: r)
  case (Cons x xs)
  obtain n e where x: "x = (n, e)" by (cases x)
  from Cons.prems obtain s where s: "add_transition permitted helper r (n, e) = Inr s"
      "foldM (add_transition permitted helper) s xs = Inr r'"
    by (auto simp: x elim!: bndE)
  note a = add_transition_Inr [OF s(1)]
  have d: "distinct (dkeys xs)" "map_of xs n = None" using Cons.prems by (auto simp: x dkeys_def map_of_eq_None_iff)
  note IH = Cons.IH [OF s(2) d(1)]
  have "map_of r' = map_of r ++ map_of (x # xs)"
    using IH d(2) unfolding a(2) map_of_dset_upd x by (auto simp: map_add_def fun_eq_iff split: option.splits)
  moreover have "py_eq e0 e1" if "map_of r m = Some e0" "map_of (x # xs) m = Some e1" for m e0 e1
  proof (cases "m = n")
    case False
    then have "map_of s m = Some e0" "map_of xs m = Some e1" using that by (auto simp: a(2) x map_of_dset)
    then show ?thesis using IH by blast
  qed (use that a(3) x in auto)
  moreover have "list_all (\<lambda>(n, e). approved_entry permitted helper e) (x # xs)" using IH a(1) by (simp add: x)
  ultimately show ?case by blast
qed simp

text \<open>
  C35: a composed transition policy is exactly the old policy, extended by the new one and by the
  helpers. Where the old and the new policy name the same workload they define it alike. The helpers
  have names of their own. Every container of every entry runs an approved image, carries the digest of
  that image, and in a helper has an exact or denied command, arguments, environment and mounts.
\<close>

theorem compose_transition_policy_exact:
  assumes "compose_transition_policy old new (PDict hs) permitted = Inr r"
    and "policy_document_workloads old = Inr ow" "policy_document_workloads new = Inr nw"
    and "distinct (dkeys ow)" "distinct (dkeys nw)" "distinct (dkeys hs)"
  shows "map_of r = map_of ow ++ map_of nw ++ map_of hs \<and>
    (\<forall>n e0 e1. map_of ow n = Some e0 \<longrightarrow> map_of nw n = Some e1 \<longrightarrow> py_eq e0 e1) \<and>
    set (dkeys hs) \<inter> (set (dkeys ow) \<union> set (dkeys nw)) = {} \<and>
    (\<forall>n e. map_of r n = Some e \<longrightarrow> approved_entry permitted (n \<in> set (dkeys hs)) e)"
proof -
  obtain r1 r2 where f: "set (dkeys hs) \<inter> (set (dkeys ow) \<union> set (dkeys nw)) = {}"
      "foldM (add_transition permitted False) [] ow = Inr r1"
      "foldM (add_transition permitted False) r1 nw = Inr r2"
      "foldM (add_transition permitted True) r2 hs = Inr r"
    using assms(1) by (auto simp: compose_transition_policy_def assms require_Inr elim!: bndE)
  note a = fold_add_transition [OF f(2) assms(4)] and b = fold_add_transition [OF f(3) assms(5)]
    and c = fold_add_transition [OF f(4) assms(6)]
  have r: "map_of r = map_of ow ++ map_of nw ++ map_of hs" using a b c by simp
  have "approved_entry permitted (n \<in> set (dkeys hs)) e" if "map_of r n = Some e" for n e
  proof (cases "n \<in> set (dkeys hs)")
    case True
    then have "map_of hs n = Some e" using that by (auto simp: r map_add_Some_iff dkeys_def map_of_eq_None_iff)
    then show ?thesis using c True by (auto simp: list_all_iff dest!: map_of_SomeD)
  next
    case False
    then have "map_of hs n = None" by (simp add: dkeys_def map_of_eq_None_iff)
    then have "map_of ow n = Some e \<or> map_of nw n = Some e" using that by (auto simp: r map_add_def split: option.splits)
    then show ?thesis using a b False by (auto simp: list_all_iff dest!: map_of_SomeD)
  qed
  then show ?thesis using r f(1) a b by auto
qed

definition example_digest :: string where
  "example_digest = ''sha256:'' @ replicate 64 (CHR ''0'')"

definition example_pinned_image :: string where
  "example_pinned_image = ''ghcr.io/a@'' @ example_digest"

definition example_transition_container :: pyv where
  "example_transition_container = PDict [(''image'', PStr example_pinned_image), (''digest'', PStr example_digest),
     (''command'', PDict [(''policy'', PStr ''exact'')]), (''args'', PDict [(''policy'', PStr ''deny'')]),
     (''env'', PDict [(''policy'', PStr ''exact'')]), (''mounts'', PDict [(''policy'', PStr ''exact'')])]"

definition example_transition_entry :: pyv where
  "example_transition_entry = PDict [(''containers'', PList [example_transition_container])]"

definition example_transition_document :: "string \<Rightarrow> pyv" where
  "example_transition_document name = PDict [(''schema'', PStr ''c8s.allowlist/v1''),
     (''workloads'', PDict [(''gateway'', PDict []), (name, example_transition_entry)])]"

lemma example_transition_groups: "oci_groups example_pinned_image = Some (''ghcr.io/a'', example_digest)"
  by (simp add: oci_groups_Some example_pinned_image_def example_digest_def fullmatch_digest is_hex_def is_digit_def is_space_def list_all_iff)

lemma example_transition_checked: "check_transition_container [PStr example_pinned_image] h n example_transition_container = Inr ()"
  using example_transition_groups
  by (simp add: check_transition_container_def example_transition_container_def jget_PDict requireM_def require_def raise_if_def in_set_def arg_text_PStr helper_pinned_def in_strs_def)


lemma example_transition_containers [simp]:
  "all_containers example_transition_entry = Inr [example_transition_container]" "all_containers (PDict []) = Inr []"
  by (simp_all add: all_containers_def example_transition_entry_def)

theorem compose_transition_policy_exact_witness:
  "\<exists>r. compose_transition_policy (example_transition_document ''router-1'') (example_transition_document ''router-2'')
     (PDict [(''helper'', example_transition_entry)]) [PStr example_pinned_image] = Inr r \<and>
     map_of r ''router-1'' = Some example_transition_entry \<and> map_of r ''helper'' = Some example_transition_entry"
proof -
  let ?ws = "\<lambda>name. [(''gateway'', PDict []), (name, example_transition_entry)]"
  obtain r where r: "compose_transition_policy (example_transition_document ''router-1'') (example_transition_document ''router-2'')
     (PDict [(''helper'', example_transition_entry)]) [PStr example_pinned_image] = Inr r"
    by (simp add: compose_transition_policy_def example_transition_document_def policy_document_workloads_def same_keys_def
        dkeys_def require_def raise_if_def add_transition_def example_transition_checked)
  have d: "policy_document_workloads (example_transition_document name) = Inr (?ws name)" for name
    by (simp add: example_transition_document_def policy_document_workloads_def same_keys_def dkeys_def)
  show ?thesis
    using compose_transition_policy_exact [OF r d d] r by (simp add: dkeys_def)
qed

end
