(* ===== verification/Release_Build.thy ===== *)
theory Release_Build
  imports Release_Sources
begin

text \<open>
  \<open>scripts/build-release-manifest.py\<close>, \<open>build\<close> and \<open>main\<close>: the files of a release.

  \<open>build\<close> is written in the order of the code: the inputs, the rendered chart and its allowlist, the
  source lock, the bindings, the manifest. A temporary directory is a path of its own under \<open>tmp\<close>, empty
  before the build.
\<close>

section \<open>Inputs\<close>

record release_parts =
  b_identity :: chart_id
  b_version :: string
  b_spec :: pydict
  b_publication_bytes :: string
  b_publication :: pydict
  b_values :: pyv
  b_policy :: pyv
  b_node :: node_facts
  b_images :: pydict
  b_overlay :: string

definition temp_path :: "build_env \<Rightarrow> string \<Rightarrow> path" where
  "temp_path env prefix = join_path [] (tmp (allow_tools env)) @ [prefix]"

definition download_path :: "build_env \<Rightarrow> path option \<Rightarrow> string \<Rightarrow> path" where
  "download_path env download_dir prefix = (case download_dir of Some d \<Rightarrow> d | None \<Rightarrow> temp_path env prefix)"

definition required_images :: "pyv \<Rightarrow> string list res" where
  "required_images vs =
     bnd (bnd (jgetd vs ''images'' (PDict [])) jvalues) (\<lambda>images. Inr (map py_str (filter is_repository_image images)))"

definition release_overlay :: "pydict \<Rightarrow> string \<Rightarrow> pyv" where
  "release_overlay images release =
     PDict [(''images'', PDict images), (''attestationReceipts'', PDict [(''releaseId'', PStr release)])]"

definition build_inputs ::
  "build_env \<Rightarrow> string \<Rightarrow> profile \<Rightarrow> path \<Rightarrow> string \<Rightarrow> path \<Rightarrow> path option \<Rightarrow> (build_env \<times> release_parts) res" where
  "build_inputs env tag p chart source_commit publication_path download_dir =
     bnd (chart_identity (rp env) (rglob env) chart) (\<lambda>identity.
     bnd (chart_version (rp env) tag p) (\<lambda>version.
     bnd (require (fullmatch rx_commit source_commit) ''--source-commit must be a full Git commit'') (\<lambda>_.
     bnd (read_release_spec (rp env) p) (\<lambda>spec.
     bnd (read_publication env publication_path) (\<lambda>(publication_bytes, publication).
     bnd (bnd (bnd (jidx (PDict publication) ''source'') (\<lambda>s. jidx s ''commit''))
            (\<lambda>c. verify_image_source_boundary env c source_commit)) (\<lambda>_.
     bnd (read_values (rp env) p) (\<lambda>vs0.
     bnd (require (is_dict vs0 \<and> truthy vs0) ''the profile values are not a mapping'') (\<lambda>_.
     bnd (required_images vs0) (\<lambda>required.
     bnd (base_release_images env publication (download_path env download_dir ''base-release'') required) (\<lambda>(env', base).
     bnd (read_allowlist_policy (rp env') (policy p) tag) (\<lambda>pol.
     bnd (bnd (node_manifest (rp env') p) (\<lambda>m. node_measurements (rp env') m spec)) (\<lambda>node.
     bnd (release_images vs0 publication base) (\<lambda>images.
     bnd (workload_release (rp env') tag) (\<lambda>release.
     let overlay = release_overlay images release; vs = merge_values vs0 overlay in
     bnd (require_model_agreement spec vs) (\<lambda>_.
     bnd (require_c8s_agreement spec vs) (\<lambda>_.
       Inr (env', \<lparr>b_identity = identity, b_version = version, b_spec = spec, b_publication_bytes = publication_bytes,
          b_publication = publication, b_values = vs, b_policy = pol, b_node = node, b_images = images,
          b_overlay = yaml_dump env' overlay\<rparr>)))))))))))))))))"

section \<open>The allowlist of the rendered chart\<close>

definition check_resolved :: "pydict \<Rightarrow> string list \<Rightarrow> unit res" where
  "check_resolved resolved images =
     (let unresolved = filter (\<lambda>i. startswith i REPOSITORY_IMAGES \<and> PStr i \<notin> snd ` set resolved) images in
      require (unresolved = [])
        (''rendered repository images without a published digest: '' @ py_repr (PList (map PStr unresolved))))"

definition config_images :: "pyv \<Rightarrow> string list \<Rightarrow> string list res" where
  "config_images c8s images =
     bnd (bnd (feature_release c8s) (\<lambda>r. c8s_at_least r [0, 44, 0])) (\<lambda>b.
       if b then bnd (bnd (bnd (jidx c8s ''coreImages'') jiter) (mapM arg_text)) (\<lambda>core. Inr (sort (remdups (images @ core))))
       else Inr (sort (remdups images)))"

definition allowlisted_digests :: "pyv \<Rightarrow> pyv list res" where
  "allowlisted_digests allow =
     bnd (bnd (jidx allow ''workloads'') jvalues) (\<lambda>entries.
     bnd (mapM (\<lambda>entry. bnd (all_containers entry) (mapM (\<lambda>c. jidx c ''digest''))) entries) (\<lambda>lists.
       py_set (concat lists)))"

definition rendered_digest :: "string \<Rightarrow> string res" where
  "rendered_digest img = (case oci_groups img of None \<Rightarrow> no_attribute | Some (_, digest) \<Rightarrow> Inr digest)"

definition check_allowlisted :: "pyv \<Rightarrow> string list \<Rightarrow> unit res" where
  "check_allowlisted allow images =
     bnd (allowlisted_digests allow) (\<lambda>digests.
     bnd (filterM (\<lambda>i. bnd (rendered_digest i) (\<lambda>d. Inr (PStr d \<notin> set digests))) images) (\<lambda>missing.
       require (missing = []) (''rendered images absent from the allowlist: '' @ py_repr (PList (map PStr missing)))))"

definition build_allowlist ::
  "build_env \<Rightarrow> profile \<Rightarrow> path \<Rightarrow> release_parts \<Rightarrow> string \<Rightarrow> string option \<Rightarrow> (string \<times> string list) res" where
  "build_allowlist env p chart b c8s tool =
     (let overlay_path = temp_path env ''release-build'' @ [''release-values.yaml''];
          env' = write_file env overlay_path (b_overlay b); t = allow_tools env in
      bnd (jidx (PDict (b_spec b)) ''c8s'') (\<lambda>pins.
      bnd (bnd (jidx (b_policy b) ''chart'') (\<lambda>settings. render_release (rp env') t chart p settings overlay_path)) (\<lambda>documents.
      bnd (rendered_images documents) (\<lambda>images.
      bnd (check_resolved (b_images b) images) (\<lambda>_.
      bnd (bnd (config_images pins images) (image_configs (rp env') t)) (\<lambda>configs.
      bnd (try_except (generate (rp env') t p c8s tool overlay_path configs) [GenerationError]
             (\<lambda>e. Inl (manifest_error (msg e)))) (\<lambda>allowlist_bytes.
      bnd (loads_bytes allowlist_bytes) (\<lambda>allow.
      bnd (requireM (bnd (jget allow ''schema'') (\<lambda>s. Inr (s = PStr ''c8s.allowlist/v1''))) ''the allowlist has the wrong schema'') (\<lambda>_.
      bnd (require_model_files (b_spec b) documents) (\<lambda>_.
      bnd (jidx pins ''coreImages'') (\<lambda>core.
      bnd (feature_release pins) (\<lambda>release.
      bnd (core_seed (rp env) t pins) (\<lambda>seed.
      bnd (require_allowlist_contract allow (b_policy b) core documents configs release seed) (\<lambda>_.
      bnd (check_allowlisted allow images) (\<lambda>_.
        Inr (allowlist_bytes, images))))))))))))))))"

definition build_lock :: "repo_env \<Rightarrow> path \<Rightarrow> pydict \<Rightarrow> string res" where
  "build_lock env lock_path spec =
     bnd (jidx (PDict spec) ''c8s'') (\<lambda>pins.
     bnd (bnd (read_manifest_json env lock_path) (\<lambda>lock. bnd (jidx pins ''sourceCommit'') (source_lock_entry lock))) (\<lambda>lock.
     bnd (requireM (bnd (jget (PDict lock) ''tag'') (\<lambda>t. bnd (jidx pins ''release'') (\<lambda>r. Inr (py_eq t r))))
            ''the source lock tag differs from c8s.release'') (\<lambda>_.
     bnd (jidx pins ''nodeImage'') (\<lambda>node.
     bnd (jidx node ''reference'') (\<lambda>reference.
     bnd (jidx node ''digest'') (\<lambda>digest.
     let node_reference = py_str reference @ ''@'' @ py_str digest in
     bnd (requireM (bnd (jidx (PDict lock) ''nodeImage'') (\<lambda>n. Inr (n = PStr node_reference)))
            ''the source lock node image differs from c8s.nodeImage'') (\<lambda>_.
       Inr node_reference)))))))"

section \<open>The chart package\<close>

definition staging_chart_binding ::
  "build_env \<Rightarrow> string \<Rightarrow> string \<Rightarrow> string \<Rightarrow> path \<Rightarrow> (build_env \<times> pydict) res" where
  "staging_chart_binding env tag source_commit tree_sha256 dir =
     bnd (load (rp env)) (\<lambda>profiles.
     bnd (case find (\<lambda>p. prof_name p = PStr PACKAGING_PROFILE) profiles of
            None \<Rightarrow> Inl (Exn StopIteration []) | Some p \<Rightarrow> Inr p) (\<lambda>packaging.
     bnd (workload_release (rp env) tag) (\<lambda>release.
     bnd (arg_text (tag_suffix packaging)) (\<lambda>suffix.
     let staging_tag = release @ suffix in
     bnd (try_except (signed_release env staging_tag (dir @ [''staging-release'']) ''the staging release'') [ManifestError]
            (\<lambda>e. Inl (manifest_error (staging_tag @
               '', the staging release of this commit, is needed for the chart package: '' @ msg e)))) (\<lambda>(env', staging).
     bnd (requireM (bnd (bnd (jidx staging ''source'') (\<lambda>s. jidx s ''commit'')) (\<lambda>c. Inr (c = PStr source_commit)))
            (staging_tag @ '' is not a release of source commit '' @ source_commit)) (\<lambda>_.
     bnd (jidx staging ''chart'') (\<lambda>chart.
     bnd (requireM (bnd (jidx chart ''sha256'') (\<lambda>h. Inr (h = PStr tree_sha256))) (staging_tag @ '' packaged another chart tree'')) (\<lambda>_.
     bnd (requireM (andsM [jin ''archiveSha256'' chart, jin ''reference'' chart])
            (staging_tag @ '' binds no chart package; the staging release predates the package. Release it again first.'')) (\<lambda>_.
     bnd (jidx chart ''archiveSha256'') (\<lambda>archive.
     bnd (jidx chart ''reference'') (\<lambda>reference.
       Inr (env', [(''archiveSha256'', archive), (''reference'', reference)]))))))))))))"

text \<open>The package, the files it adds to the release, and what the manifest binds of it.\<close>

definition chart_package ::
  "build_env \<Rightarrow> string \<Rightarrow> profile \<Rightarrow> path \<Rightarrow> chart_id \<Rightarrow> string \<Rightarrow> string \<Rightarrow> path option \<Rightarrow>
     (build_env \<times> (string \<times> string) list \<times> pydict) res" where
  "chart_package env tag p chart identity version source_commit download_dir =
     (if prof_name p = PStr PACKAGING_PROFILE
      then bnd (package_chart (rp env) (rglob env) (tgz env) chart (ci_name identity) version) (\<lambda>archive.
             Inr (env, [(py_str (ci_name identity) @ ''-'' @ version @ ''.tgz'', archive)],
               [(''archiveSha256'', PStr (sha256 archive)), (''reference'', PStr (chart_reference (ci_name identity) version))]))
      else bnd (staging_chart_binding env tag source_commit (ci_tree identity)
                  (download_path env download_dir ''staging-release'')) (\<lambda>(env', binding). Inr (env', [], binding)))"

section \<open>The manifest\<close>

definition profile_values_asset :: "string \<Rightarrow> string" where
  "profile_values_asset p = ''profile-values-'' @ str_replace ''/'' ''-'' p"

definition add_values_file ::
  "repo_env \<Rightarrow> (string \<times> string) list \<times> pyv list \<Rightarrow> path \<Rightarrow> ((string \<times> string) list \<times> pyv list) res" where
  "add_values_file env acc p =
     (case acc of (files, profile_values) \<Rightarrow>
        bnd (relative env p) (\<lambda>rel.
        bnd (read_bytes env p) (\<lambda>data.
          let asset = profile_values_asset rel in
          Inr (dset asset data files,
               profile_values @ [PDict [(''path'', PStr rel), (''sha256'', PStr (sha256 data)), (''asset'', PStr asset)]]))))"

definition RELEASE_SCHEMA :: string where
  "RELEASE_SCHEMA = ''confidential.ai/release-manifest/v1''"

definition TRUST_POLICY :: "repo_env \<Rightarrow> path" where
  "TRUST_POLICY env = repo_root env @ [''releases'', ''trust'', ''release-signing-policy.json'']"

definition lock_name :: "repo_env \<Rightarrow> path \<Rightarrow> string res" where
  "lock_name env lock_path =
     (let r = realpath env lock_path in
      if under (repo_root env) r \<and> r \<noteq> repo_root env then relative env lock_path else Inr (path_str lock_path))"

definition release_manifest ::
  "repo_env \<Rightarrow> string \<Rightarrow> profile \<Rightarrow> path \<Rightarrow> string \<Rightarrow> release_parts \<Rightarrow> string \<Rightarrow> pyv \<Rightarrow> pydict \<Rightarrow> pydict \<Rightarrow> string \<Rightarrow> pyv list \<Rightarrow>
     pydict res" where
  "release_manifest env tag p lock_path source_commit b allowlist_bytes publication named_images chart_binding node_reference
       profile_values =
     bnd (relative env (TRUST_POLICY env)) (\<lambda>trust_path.
     bnd (read_bytes env (TRUST_POLICY env)) (\<lambda>trust_bytes.
     bnd (jidx (PDict (b_spec b)) ''c8s'') (\<lambda>pins.
     bnd (jidx pins ''release'') (\<lambda>c8s_release.
     bnd (jidx pins ''sourceCommit'') (\<lambda>c8s_commit.
     bnd (lock_name env lock_path) (\<lambda>lock.
     bnd (read_bytes env lock_path) (\<lambda>lock_bytes.
     bnd (jidx (PDict (b_spec b)) ''model'') (\<lambda>model.
     bnd (relative env (allowlist p)) (\<lambda>allowlist_path.
     bnd (relative env (release_values p)) (\<lambda>values_path.
     bnd (jidx (PDict (b_spec b)) ''publicHostnames'') (\<lambda>hostnames.
       Inr [(''schema'', PStr RELEASE_SCHEMA),
            (''release'', PDict [(''name'', PStr tag), (''environment'', environment p)]),
            (''releaseTrust'', PDict [(''policyPath'', PStr trust_path), (''policySha256'', PStr (sha256 trust_bytes)),
               (''signatureType'', PStr ''sigstore-keyless'')]),
            (''source'', PDict [(''repository'', PStr REPOSITORY), (''commit'', PStr source_commit)]),
            (''imagePublication'', publication),
            (''images'', PDict named_images),
            (''chart'', PDict (dupdate [(''name'', ci_name (b_identity b)), (''version'', PStr (ci_version (b_identity b))),
               (''sha256'', PStr (ci_tree (b_identity b)))] chart_binding)),
            (''c8s'', PDict [(''release'', c8s_release), (''sourceCommit'', c8s_commit)]),
            (''nodeImage'', PDict [(''reference'', PStr node_reference), (''manifestSha256'', PStr (nf_json (b_node b)))]),
            (''mrtd'', PStr (nf_mrtd (b_node b))),
            (''rtmr1'', PStr (nf_rtmr1 (b_node b))),
            (''rtmr2'', PStr (nf_rtmr2 (b_node b))),
            (''sourceLock'', PDict [(''path'', PStr lock), (''sha256'', PStr (sha256 lock_bytes))]),
            (''model'', model),
            (''allowlist'', PDict [(''path'', PStr allowlist_path), (''sha256'', PStr (sha256 allowlist_bytes))]),
            (''releaseValues'', PDict [(''path'', PStr values_path), (''sha256'', PStr (sha256 (b_overlay b)))]),
            (''profileValues'', PList profile_values),
            (''publicHostnames'', hostnames)])))))))))))"

definition encode_manifest :: "pyv \<Rightarrow> string" where
  "encode_manifest manifest = dumps (json_indent2\<lparr>sort_keys := True, ensure_ascii := False\<rparr>) manifest @ [CHR 0x0A]"

text \<open>A transition release replaces the policy and the image inventory.\<close>

definition build_transition ::
  "build_env \<Rightarrow> string \<Rightarrow> profile \<Rightarrow> pydict \<Rightarrow> string \<Rightarrow> string \<Rightarrow> pydict \<Rightarrow> string option \<Rightarrow> path option \<Rightarrow>
     (build_env \<times> string \<times> pyv option \<times> pydict) res" where
  "build_transition env tag p spec source_commit allowlist_bytes named_images tool download_dir =
     (if contains ''-transition'' tag
      then bnd (transition_policy env tag spec source_commit allowlist_bytes named_images tool
                  (download_path env download_dir ''transition-policy'') p) (\<lambda>(env', raw, binding, inventory).
             Inr (env', raw, Some binding, inventory))
      else Inr (env, allowlist_bytes, None, named_images))"

definition build ::
  "build_env \<Rightarrow> string \<Rightarrow> path \<Rightarrow> path \<Rightarrow> string \<Rightarrow> path \<Rightarrow> path option \<Rightarrow> string \<Rightarrow> string option \<Rightarrow>
     (build_env \<times> (string \<times> string) list) res" where
  "build env tag chart0 lock_path source_commit publication_path download_dir c8s tool =
     bnd (try_except (for_tag (rp env) tag) [ProfileError] (\<lambda>e. Inl (manifest_error (msg e)))) (\<lambda>p.
     let chart = realpath env chart0 in
     bnd (build_inputs env tag p chart source_commit publication_path download_dir) (\<lambda>(env1, b).
     bnd (build_allowlist env1 p chart b c8s tool) (\<lambda>(generated, images).
     bnd (build_lock (rp env1) lock_path (b_spec b)) (\<lambda>node_reference.
     bnd (image_names (b_values b) images) (\<lambda>rendered_names.
     bnd (publication_binding (b_publication_bytes b) (b_publication b) rendered_names) (\<lambda>publication.
     bnd (build_transition env1 tag p (b_spec b) source_commit generated rendered_names tool download_dir)
       (\<lambda>(env2, allowlist_bytes, transition_binding, named_images).
     bnd (chart_package env2 tag p chart (b_identity b) (b_version b) source_commit download_dir) (\<lambda>(env3, packaged, chart_binding).
     bnd (foldM (add_values_file (rp env3)) (packaged, []) (values_files (rp env3) p)) (\<lambda>(files, profile_values).
     bnd (release_manifest (rp env3) tag p lock_path source_commit b allowlist_bytes publication named_images chart_binding
            node_reference profile_values) (\<lambda>base_manifest.
     let manifest = (case transition_binding of None \<Rightarrow> base_manifest | Some t \<Rightarrow> dset ''transition'' t base_manifest) in
     bnd (validate_schema env3 (PDict manifest)) (\<lambda>_.
       Inr (env3, dupdate [(''release-bundle.json'', encode_manifest (PDict manifest)),
          (''allowlist.json'', allowlist_bytes), (''release-values.yaml'', b_overlay b)] files))))))))))))"

section \<open>The command\<close>

record build_args =
  ba_tag :: string
  ba_chart :: path
  ba_source_lock :: path
  ba_source_commit :: string
  ba_publication :: path
  ba_download_dir :: "path option"
  ba_c8s :: path
  ba_canonical_tool :: "path option"
  ba_output_dir :: path
  ba_check :: bool

definition check_output :: "repo_env \<Rightarrow> path \<Rightarrow> string \<times> string \<Rightarrow> unit res" where
  "check_output env dir named =
     (case named of (name, data) \<Rightarrow>
        require (file_bytes env (dir @ [name]) = Some data) (path_str (dir @ [name]) @ '' differs from a new build''))"

text \<open>The files the command writes, its output and its exit code.\<close>

definition main_build :: "build_env \<Rightarrow> build_args \<Rightarrow> ((path \<times> string) list \<times> string \<times> int) res" where
  "main_build env args =
     try_except
       (bnd (build env (ba_tag args) (ba_chart args) (realpath env (ba_source_lock args)) (ba_source_commit args)
               (realpath env (ba_publication args)) (map_option (realpath env) (ba_download_dir args))
               (path_str (realpath env (ba_c8s args))) (map_option (path_str \<circ> realpath env) (ba_canonical_tool args))) (\<lambda>(env', files).
        bnd (if ba_check args then for_each (check_output (rp env') (ba_output_dir args)) files else Inr ()) (\<lambda>_.
          Inr (if ba_check args then [] else map (\<lambda>(name, data). (ba_output_dir args @ [name], data)) files,
               dumps (json_default\<lparr>sort_keys := True\<rparr>) (PDict (map (\<lambda>(name, data). (name, PStr (sha256 data))) files)) @ nl, 0))))
       [ManifestError, OSError, KeyError, JSONDecodeError]
       (\<lambda>e. Inr ([], ''build-release-manifest: '' @ exn_text e @ nl, 1))"

section \<open>What a build guarantees\<close>

text \<open>The environments of a build differ only in the files that it downloaded or wrote.\<close>

definition only_files :: "build_env \<Rightarrow> build_env \<Rightarrow> bool" where
  "only_files env env' \<longleftrightarrow> (\<exists>bytes. env' = env\<lparr>file_bytes := bytes\<rparr>)"

lemma only_files_refl [simp]: "only_files env env"
  unfolding only_files_def by (rule exI [of _ "file_bytes env"]) simp

lemma only_files_trans: "only_files a b \<Longrightarrow> only_files b c \<Longrightarrow> only_files a c"
  by (auto simp: only_files_def)

lemma only_files_write: "only_files env env' \<Longrightarrow> only_files env (write_file env' p data)"
  by (auto simp: only_files_def write_file_def)

lemma download_only_files: "download_base_release env tag dir = Inr env' \<Longrightarrow> only_files env env'"
  by (auto simp: download_base_release_def BASE_RELEASE_FILES_def only_files_write split: if_splits elim!: bndE)

lemma signed_release_only_files: "signed_release env tag dir what = Inr (env', manifest) \<Longrightarrow> only_files env env'"
  by (auto simp: signed_release_def dest: download_only_files elim!: bndE)

lemma missing_images_only_files:
  "missing_images env base_ref dir base missing images = Inr (env', images') \<Longrightarrow> only_files env env'"
  by (auto simp: missing_images_def Let_def only_files_write split: if_splits elim!: bndE)

lemma base_release_images_only_files:
  "base_release_images env publication dir required = Inr (env', base) \<Longrightarrow> only_files env env'"
  unfolding base_release_images_def
  by (auto split: if_splits elim!: bndE dest!: signed_release_only_files missing_images_only_files intro: only_files_trans)

lemma build_inputs_Inr:
  assumes "build_inputs env tag p chart source_commit publication_path download_dir = Inr (env', b)"
  shows "only_files env env' \<and> fullmatch rx_commit source_commit"
  using assms unfolding build_inputs_def
  by (auto simp: Let_def require_Inr dest: base_release_images_only_files elim!: bndE)

abbreviation values_record :: "string \<Rightarrow> string \<Rightarrow> pyv" where
  "values_record rel data \<equiv>
     PDict [(''path'', PStr rel), (''sha256'', PStr (sha256 data)), (''asset'', PStr (profile_values_asset rel))]"

definition values_bound :: "(string \<times> string) list \<Rightarrow> pyv \<Rightarrow> bool" where
  "values_bound files v \<longleftrightarrow>
     (\<exists>rel data. v = values_record rel data \<and> map_of files (profile_values_asset rel) = Some data)"

definition asset_of :: "pyv \<Rightarrow> pyv" where
  "asset_of v = (case v of PDict d \<Rightarrow> the (map_of d ''asset'') | _ \<Rightarrow> PNone)"

lemma values_fold_step:
  assumes "foldM (add_values_file env) (files0, pvs0) (p # ps) = Inr r"
  obtains rel data where
    "foldM (add_values_file env) (dset (profile_values_asset rel) data files0, pvs0 @ [values_record rel data]) ps = Inr r"
proof -
  obtain acc where a: "add_values_file env (files0, pvs0) p = Inr acc" "foldM (add_values_file env) acc ps = Inr r"
    using assms by (auto elim: bndE)
  then obtain rel data where "acc = (dset (profile_values_asset rel) data files0, pvs0 @ [values_record rel data])"
    by (auto simp: add_values_file_def Let_def elim!: bndE)
  then show thesis using a(2) that by blast
qed

lemma values_fold_keys:
  "foldM (add_values_file env) (files0, pvs0) ps = Inr (files, pvs) \<Longrightarrow>
   k \<in> fst ` set files \<Longrightarrow> k \<in> fst ` set files0 \<or> startswith k ''profile-values-''"
proof (induction ps arbitrary: files0 pvs0)
  case (Cons p ps)
  obtain rel data where r:
    "foldM (add_values_file env) (dset (profile_values_asset rel) data files0, pvs0 @ [values_record rel data]) ps = Inr (files, pvs)"
    using values_fold_step [OF Cons.prems(1)] by blast
  from Cons.IH [OF r Cons.prems(2)] show ?case
    using set_dset [of "profile_values_asset rel" data files0] by (force simp: profile_values_asset_def startswith_def)
qed simp

lemma values_fold_prefix: "foldM (add_values_file env) (files0, pvs0) ps = Inr (files, pvs) \<Longrightarrow> \<exists>rest. pvs = pvs0 @ rest"
proof (induction ps arbitrary: files0 pvs0)
  case (Cons p ps)
  obtain f v where "foldM (add_values_file env) (f, pvs0 @ [v]) ps = Inr (files, pvs)"
    using values_fold_step [OF Cons.prems] by blast
  from Cons.IH [OF this] show ?case by auto
qed simp

lemma values_bound_other:
  "values_bound files v \<Longrightarrow> asset_of v \<noteq> PStr k \<Longrightarrow> values_bound (dset k data files) v"
  by (auto simp: values_bound_def asset_of_def map_of_dset)

lemma values_fold_bound:
  "foldM (add_values_file env) (files0, pvs0) ps = Inr (files, pvs) \<Longrightarrow> list_all (values_bound files0) pvs0 \<Longrightarrow>
   distinct (map asset_of pvs) \<Longrightarrow> list_all (values_bound files) pvs"
proof (induction ps arbitrary: files0 pvs0)
  case (Cons p ps)
  obtain rel data where r:
    "foldM (add_values_file env) (dset (profile_values_asset rel) data files0, pvs0 @ [values_record rel data]) ps = Inr (files, pvs)"
    using values_fold_step [OF Cons.prems(1)] by blast
  let ?a = "profile_values_asset rel"
  let ?v = "values_record rel data"
  obtain rest where "pvs = (pvs0 @ [?v]) @ rest" using values_fold_prefix [OF r] by blast
  moreover have "asset_of ?v = PStr ?a" by (simp add: asset_of_def)
  ultimately have other: "asset_of v \<noteq> PStr ?a" if "v \<in> set pvs0" for v
    using Cons.prems(3) that by force
  have "list_all (values_bound (dset ?a data files0)) pvs0"
    using Cons.prems(2) other values_bound_other by (auto simp: list_all_iff)
  moreover have "values_bound (dset ?a data files0) ?v" by (auto simp: values_bound_def map_of_dset)
  ultimately show ?case using Cons.IH [OF r _ Cons.prems(3)] by simp
qed simp

lemma packaged_keys:
  "chart_package env tag p chart identity version source_commit download_dir = Inr (env', packaged, binding) \<Longrightarrow>
   k \<in> fst ` set packaged \<Longrightarrow> \<exists>x. k = x @ ''.tgz''"
  unfolding chart_package_def by (auto split: if_splits elim!: bndE)

lemma fixed_names:
  assumes "chart_package env tag p chart identity version source_commit download_dir = Inr (env', packaged, binding)"
    "foldM (add_values_file env2) (packaged, pvs0) ps = Inr (files, pvs)"
    "k = ''release-bundle.json'' \<or> k = ''allowlist.json'' \<or> k = ''release-values.yaml''"
  shows "map_of (dupdate base files) k = map_of base k"
proof -
  have "\<not> startswith k ''profile-values-''" using assms(3) by (auto simp: startswith_def)
  moreover have "k \<noteq> x @ ''.tgz''" for x
  proof
    assume "k = x @ ''.tgz''"
    then have "last k = CHR ''z''" by simp
    then show False using assms(3) by auto
  qed
  ultimately have "k \<notin> fst ` set files" using values_fold_keys [OF assms(2)] packaged_keys [OF assms(1)] by blast
  then have "map_of (rev files) k = None" by (simp add: map_of_eq_None_iff)
  then show ?thesis by (simp add: map_of_dupdate)
qed

text \<open>A section of the manifest records the digest of a file of the release.\<close>

definition digest_bound :: "(string \<times> string) list \<Rightarrow> pydict \<Rightarrow> string \<Rightarrow> string \<Rightarrow> bool" where
  "digest_bound files manifest key name \<longleftrightarrow>
     (\<exists>data d. map_of files name = Some data \<and> map_of manifest key = Some (PDict d) \<and>
        map_of d ''sha256'' = Some (PStr (sha256 data)))"

text \<open>The digest of every image of the rendered documents is in the allowlist.\<close>

definition images_allowlisted :: "string \<Rightarrow> pyv list \<Rightarrow> bool" where
  "images_allowlisted raw documents \<longleftrightarrow>
     (\<exists>images digests. rendered_images documents = Inr images \<and> bnd (loads_bytes raw) allowlisted_digests = Inr digests \<and>
        (\<forall>i \<in> set images. \<exists>d. rendered_digest i = Inr d \<and> PStr d \<in> set digests))"

text \<open>With the values of the release, in an environment that has only files more, the chart renders to allowed images.\<close>

definition deploys_allowed :: "build_env \<Rightarrow> profile \<Rightarrow> path \<Rightarrow> string \<Rightarrow> string \<Rightarrow> bool" where
  "deploys_allowed env p chart overlay raw \<longleftrightarrow>
     (\<exists>env1 settings overlay_path documents. only_files env env1 \<and> file_bytes env1 overlay_path = Some overlay \<and>
        render_release (rp env1) (allow_tools env) chart p settings overlay_path = Inr documents \<and>
        images_allowlisted raw documents)"

lemma check_allowlisted_Inr:
  assumes "check_allowlisted allow images = Inr u"
  shows "\<exists>digests. allowlisted_digests allow = Inr digests \<and> (\<forall>i \<in> set images. \<exists>d. rendered_digest i = Inr d \<and> PStr d \<in> set digests)"
proof -
  obtain digests missing where d: "allowlisted_digests allow = Inr digests"
    "filterM (\<lambda>i. bnd (rendered_digest i) (\<lambda>d. Inr (PStr d \<notin> set digests))) images = Inr []"
    using assms unfolding check_allowlisted_def by (auto simp: require_Inr elim!: bndE)
  have "\<exists>d. rendered_digest i = Inr d \<and> PStr d \<in> set digests" if "i \<in> set images" for i
    using filterM_defined [OF d(2) that] filterM_Inr_iff [OF d(2), of i] that by (auto elim!: bndE)
  then show ?thesis using d(1) by blast
qed

lemma build_allowlist_Inr:
  assumes "build_allowlist env p chart b c8s tool = Inr (raw, images)"
  shows "deploys_allowed env p chart (b_overlay b) raw"
proof -
  let ?path = "temp_path env ''release-build'' @ [''release-values.yaml'']"
  let ?env = "write_file env ?path (b_overlay b)"
  obtain settings documents allow where r: "render_release (rp ?env) (allow_tools env) chart p settings ?path = Inr documents"
    "rendered_images documents = Inr images" "loads_bytes raw = Inr allow" "check_allowlisted allow images = Inr ()"
    using assms unfolding build_allowlist_def Let_def by (auto elim!: bndE)
  have "images_allowlisted raw documents"
    using r check_allowlisted_Inr [OF r(4)] by (simp add: images_allowlisted_def)
  moreover have "file_bytes ?env ?path = Some (b_overlay b)" by (simp add: write_file_def)
  ultimately show ?thesis using r(1) only_files_write [OF only_files_refl] unfolding deploys_allowed_def by blast
qed

lemma only_files_tools: "only_files env env1 \<Longrightarrow> allow_tools env1 = allow_tools env"
  by (auto simp: only_files_def)

lemma deploys_allowed_env:
  "only_files env env1 \<Longrightarrow> deploys_allowed env1 p chart overlay raw \<Longrightarrow> deploys_allowed env p chart overlay raw"
  unfolding deploys_allowed_def by (metis (no_types, lifting) only_files_trans only_files_tools)

lemma packaged_ok:
  "chart_package env tag p chart identity version source_commit download_dir = Inr (env', packaged, binding) \<Longrightarrow> dict_ok packaged"
  unfolding chart_package_def by (auto simp: dict_ok_def split: if_splits elim!: bndE)

lemma values_fold_ok: "foldM (add_values_file env) (files0, pvs0) ps = Inr (files, pvs) \<Longrightarrow> dict_ok files0 \<Longrightarrow> dict_ok files"
proof (induction ps arbitrary: files0 pvs0)
  case (Cons p ps)
  obtain rel data where
    "foldM (add_values_file env) (dset (profile_values_asset rel) data files0, pvs0 @ [values_record rel data]) ps = Inr (files, pvs)"
    using values_fold_step [OF Cons.prems(1)] by blast
  from Cons.IH [OF this dict_ok_dset [OF Cons.prems(2)]] show ?case .
qed simp

lemma release_manifest_Inr:
  assumes "release_manifest env tag p lock_path source_commit b raw publication named binding node_reference pvs = Inr m"
  shows "\<exists>allowlist_path values_path.
    map_of m ''release'' = Some (PDict [(''name'', PStr tag), (''environment'', environment p)]) \<and>
    map_of m ''source'' = Some (PDict [(''repository'', PStr REPOSITORY), (''commit'', PStr source_commit)]) \<and>
    map_of m ''allowlist'' = Some (PDict [(''path'', PStr allowlist_path), (''sha256'', PStr (sha256 raw))]) \<and>
    map_of m ''releaseValues'' = Some (PDict [(''path'', PStr values_path), (''sha256'', PStr (sha256 (b_overlay b)))]) \<and>
    map_of m ''profileValues'' = Some (PList pvs)"
  using assms unfolding release_manifest_def by (auto elim!: bndE)

text \<open>
  The files of a release belong together.  If \<open>build\<close> returns files, the manifest among them matches its schema,
  names the tag and a full source commit, and records the digests of the allowlist and of the values that are published
  with it, and of every file of profile values when their asset names differ.  Unless the tag is a transition, the chart,
  rendered with exactly these values, runs only images whose digests the published allowlist holds.
\<close>

theorem build_sound:
  assumes "build env tag chart0 lock_path source_commit publication_path download_dir c8s tool = Inr (env', files)"
  shows "\<exists>p manifest overlay raw pvs. for_tag (rp env) tag = Inr p \<and>
    map_of files ''release-bundle.json'' = Some (encode_manifest (PDict manifest)) \<and>
    validate_schema env' (PDict manifest) = Inr () \<and>
    map_of manifest ''release'' = Some (PDict [(''name'', PStr tag), (''environment'', environment p)]) \<and>
    fullmatch rx_commit source_commit \<and>
    map_of manifest ''source'' = Some (PDict [(''repository'', PStr REPOSITORY), (''commit'', PStr source_commit)]) \<and>
    map_of files ''allowlist.json'' = Some raw \<and> digest_bound files manifest ''allowlist'' ''allowlist.json'' \<and>
    map_of files ''release-values.yaml'' = Some overlay \<and> digest_bound files manifest ''releaseValues'' ''release-values.yaml'' \<and>
    map_of manifest ''profileValues'' = Some (PList pvs) \<and>
    (distinct (map asset_of pvs) \<longrightarrow> list_all (values_bound files) pvs) \<and>
    (\<not> contains ''-transition'' tag \<longrightarrow> deploys_allowed env p (realpath env chart0) overlay raw)"
proof -
  let ?chart = "realpath env chart0"
  obtain p env1 b generated images node_reference names publication env2 raw transition named env3 packaged binding files1 pvs m where
    p: "for_tag (rp env) tag = Inr p" and
    inputs: "build_inputs env tag p ?chart source_commit publication_path download_dir = Inr (env1, b)" and
    allow: "build_allowlist env1 p ?chart b c8s tool = Inr (generated, images)" and
    trans: "build_transition env1 tag p (b_spec b) source_commit generated names tool download_dir = Inr (env2, raw, transition, named)" and
    pack: "chart_package env2 tag p ?chart (b_identity b) (b_version b) source_commit download_dir = Inr (env3, packaged, binding)" and
    vals: "foldM (add_values_file (rp env3)) (packaged, []) (values_files (rp env3) p) = Inr (files1, pvs)" and
    man: "release_manifest (rp env3) tag p lock_path source_commit b raw publication named binding node_reference pvs = Inr m" and
    schema: "validate_schema env3 (PDict (case transition of None \<Rightarrow> m | Some t \<Rightarrow> dset ''transition'' t m)) = Inr ()" and
    env3: "env' = env3" and
    files: "files = dupdate [(''release-bundle.json'', encode_manifest (PDict (case transition of None \<Rightarrow> m | Some t \<Rightarrow> dset ''transition'' t m))),
          (''allowlist.json'', raw), (''release-values.yaml'', b_overlay b)] files1"
    using assms unfolding build_def Let_def by (auto simp: try_except_reraise elim!: bndE)
  let ?m = "case transition of None \<Rightarrow> m | Some t \<Rightarrow> dset ''transition'' t m"
  have same: "map_of ?m k = map_of m k" if "k \<noteq> ''transition''" for k
    using that by (simp add: map_of_dset split: option.splits)
  have fixed: "map_of files ''release-bundle.json'' = Some (encode_manifest (PDict ?m))"
    "map_of files ''allowlist.json'' = Some raw" "map_of files ''release-values.yaml'' = Some (b_overlay b)"
    unfolding files by (simp_all add: fixed_names [OF pack vals])
  have other: "map_of files (profile_values_asset rel) = map_of files1 (profile_values_asset rel)" for rel
    unfolding files map_of_dupdate map_of_rev_ok [OF values_fold_ok [OF vals packaged_ok [OF pack]]]
    by (simp add: profile_values_asset_def split: option.splits)
  obtain allowlist_path values_path where m:
    "map_of m ''release'' = Some (PDict [(''name'', PStr tag), (''environment'', environment p)])"
    "map_of m ''source'' = Some (PDict [(''repository'', PStr REPOSITORY), (''commit'', PStr source_commit)])"
    "map_of m ''allowlist'' = Some (PDict [(''path'', PStr allowlist_path), (''sha256'', PStr (sha256 raw))])"
    "map_of m ''releaseValues'' = Some (PDict [(''path'', PStr values_path), (''sha256'', PStr (sha256 (b_overlay b)))])"
    "map_of m ''profileValues'' = Some (PList pvs)"
    using release_manifest_Inr [OF man] by blast
  note inp = build_inputs_Inr [OF inputs]
  have bound: "digest_bound files ?m ''allowlist'' ''allowlist.json''" "digest_bound files ?m ''releaseValues'' ''release-values.yaml''"
    unfolding digest_bound_def using fixed m by (auto simp: same)
  have vbound: "list_all (values_bound files) pvs" if "distinct (map asset_of pvs)"
    using values_fold_bound [OF vals _ that] unfolding values_bound_def other list_all_iff by simp
  have deployed: "deploys_allowed env p ?chart (b_overlay b) raw" if "\<not> contains ''-transition'' tag"
    using trans that deploys_allowed_env [OF _ build_allowlist_Inr [OF allow]] inp by (auto simp: build_transition_def)
  show ?thesis
    using p fixed schema env3 m inp bound vbound deployed same
    by - (rule exI [of _ p], rule exI [of _ ?m], rule exI [of _ "b_overlay b"], rule exI [of _ raw], rule exI [of _ pvs], simp)
qed

end
