(* ===== verification/Node_Manifest.thy ===== *)
theory Node_Manifest
  imports Manifest_Inputs
begin

text \<open>
  \<open>scripts/fetch-node-manifest.py\<close>: the download of the node image's \<open>manifest.json\<close> through the digests
  that the specification pins. The answers of \<open>crane\<close> are arguments.
\<close>

record node_registry =
  crane_manifest :: "string \<Rightarrow> completed"
  crane_blob :: "string \<Rightarrow> completed"

abbreviation fetch_error :: "string \<Rightarrow> exn" where
  "fetch_error m \<equiv> Exn FetchError m"

definition run_crane :: "string list \<Rightarrow> completed \<Rightarrow> string res" where
  "run_crane cmd result =
     (if returncode result \<noteq> 0
      then Inl (fetch_error (''command failed: '' @ str_join '' '' cmd @ '': '' @ str_strip (decode_replace (stderr result))))
      else Inr (stdout result))"

definition node_reference_ok :: "pyv \<Rightarrow> bool" where
  "node_reference_ok reference =
     (case reference of
        PStr s \<Rightarrow> \<not> contains ''@'' s \<and> \<not> contains '':'' (snd (snd (str_rpartition ''/'' s)))
      | _ \<Rightarrow> False)"

definition read_node_spec :: "pyv \<Rightarrow> pyv res" where
  "read_node_spec spec =
     bnd (try_except
            (bnd (jidx spec ''c8s'') (\<lambda>c8s.
             bnd (bnd (jidx c8s ''nodeImage'') (\<lambda>i. jidx i ''reference'')) (\<lambda>reference.
             bnd (bnd (jidx c8s ''nodeManifestArtifact'') (\<lambda>a. jidx a ''digest'')) (\<lambda>artifact.
               Inr (reference, artifact)))))
            [KeyError, TypeError]
            (\<lambda>_. Inl (fetch_error ''the release specification has no c8s node manifest artifact''))) (\<lambda>(reference, artifact).
     bnd (raise_if (\<not> node_reference_ok reference)
            (fetch_error ''c8s.nodeImage.reference must be a repository without tag or digest'')) (\<lambda>_.
     bnd (raise_if (\<not> matches rx_digest artifact)
            (fetch_error ''c8s.nodeManifestArtifact.digest is not a SHA-256 digest'')) (\<lambda>_.
       Inr spec)))"

definition MANIFEST_TITLE :: string where
  "MANIFEST_TITLE = ''manifest.json''"

definition has_title :: "pyv \<Rightarrow> bool res" where
  "has_title layer =
     bnd (jgetd layer ''annotations'' (PDict [])) (\<lambda>a.
     bnd (jget a ''org.opencontainers.image.title'') (\<lambda>t. Inr (t = PStr MANIFEST_TITLE)))"

definition manifest_layer :: "pyv \<Rightarrow> pyv res" where
  "manifest_layer manifest =
     bnd (bnd (jgetd manifest ''layers'' (PList [])) jiter) (\<lambda>all.
     bnd (filterM has_title all) (\<lambda>found.
     bnd (raise_ifM (if length found \<noteq> 1 then Inr True
                     else bnd (digest_at (hd found) ''digest'') (\<lambda>b. Inr (\<not> b)))
            (fetch_error ''the artifact does not hold exactly one manifest.json layer'')) (\<lambda>_.
       jidx (hd found) ''digest'')))"

definition check_measurement :: "pyv \<Rightarrow> string \<Rightarrow> (string \<times> pyv) res" where
  "check_measurement tdx name =
     bnd (jget tdx name) (\<lambda>v.
     bnd (raise_if (\<not> matches rx_measurement v)
            (fetch_error (''manifest.json tdx.'' @ name @ '' is not a 96-character hex value''))) (\<lambda>_. Inr (name, v)))"

definition check_measurements :: "pyv \<Rightarrow> pydict res" where
  "check_measurements document =
     bnd (jget document ''tdx'') (\<lambda>tdx.
     bnd (raise_if (\<not> is_dict tdx) (fetch_error ''manifest.json has no tdx section'')) (\<lambda>_.
       mapM (check_measurement tdx) [''mrtd'', ''rtmr1'', ''rtmr2'']))"

definition manifest_json_digest :: "node_registry \<Rightarrow> string \<Rightarrow> string \<Rightarrow> pyv res" where
  "manifest_json_digest r reference artifact =
     bnd (run_crane [''crane'', ''manifest'', reference @ ''@'' @ artifact] (crane_manifest r (reference @ ''@'' @ artifact))) (\<lambda>raw.
     bnd (raise_if (sha256 raw \<noteq> artifact)
            (fetch_error ''the registry returned an artifact manifest with a different digest'')) (\<lambda>_.
     bnd (loads_bytes raw) manifest_layer))"

definition fetch_manifest :: "node_registry \<Rightarrow> pyv \<Rightarrow> (string \<times> pydict) res" where
  "fetch_manifest r spec =
     bnd (jidx spec ''c8s'') (\<lambda>c8s.
     bnd (bnd (bnd (jidx c8s ''nodeImage'') (\<lambda>i. jidx i ''reference'')) arg_text) (\<lambda>reference.
     bnd (jidx c8s ''nodeManifestArtifact'') (\<lambda>pins.
     bnd (bnd (jidx pins ''digest'') arg_text) (\<lambda>artifact.
     bnd (manifest_json_digest r reference artifact) (\<lambda>layer.
     bnd (jget pins ''manifestJson'') (\<lambda>pinned.
     bnd (raise_if (pinned \<noteq> PNone \<and> \<not> py_eq pinned layer)
            (fetch_error ''the artifact manifest.json layer differs from c8s.nodeManifestArtifact.manifestJson'')) (\<lambda>_.
     bnd (run_crane [''crane'', ''blob'', reference @ ''@'' @ py_str layer] (crane_blob r (reference @ ''@'' @ py_str layer))) (\<lambda>data.
     bnd (raise_if (layer \<noteq> PStr (sha256 data))
            (fetch_error ''the registry returned a manifest.json with a different digest'')) (\<lambda>_.
     bnd (bnd (loads_bytes data) check_measurements) (\<lambda>measurements.
       Inr (data, dupdate [(''artifact'', PStr artifact), (''manifestJson'', layer)] measurements)))))))))))"

text \<open>The command: the file it writes, its output and its exit code.\<close>

definition main_fetch_manifest ::
  "repo_env \<Rightarrow> node_registry \<Rightarrow> string \<Rightarrow> path option \<Rightarrow> bool \<Rightarrow> ((path \<times> string) option \<times> string \<times> int) res" where
  "main_fetch_manifest env r release output check =
     try_except
       (bnd (for_directory env release) (\<lambda>p.
        bnd (bnd (bnd (read_spec env p) (\<lambda>spec. read_node_spec (PDict spec))) (fetch_manifest r)) (\<lambda>(data, facts).
        bnd (case output of Some q \<Rightarrow> Inr q | None \<Rightarrow> node_manifest env p) (\<lambda>target.
        bnd (if check
             then bnd (read_bytes env target) (\<lambda>committed.
                  raise_if (committed \<noteq> data) (fetch_error (path_str target @ '' differs from the pinned artifact'')))
             else Inr ()) (\<lambda>_.
          Inr (if check then None else Some (target, data), dumps (json_default\<lparr>sort_keys := True\<rparr>) (PDict facts) @ nl, 0))))))
       [OSError, FetchError, ProfileError, JSONDecodeError, YAMLError]
       (\<lambda>e. Inr (None, ''fetch-node-manifest: '' @ msg e @ nl, 1))"

section \<open>The digest chain\<close>

lemma matches_iff: "matches r v \<longleftrightarrow> (\<exists>s. v = PStr s \<and> fullmatch r s)"
  by (cases v) (auto simp: matches_def)

lemma check_measurement_Inr:
  "check_measurement tdx name = Inr f \<longleftrightarrow>
     (\<exists>s. jget tdx name = Inr (PStr s) \<and> fullmatch rx_measurement s \<and> f = (name, PStr s))"
  by (auto simp: check_measurement_def bnd_eq_Inr raise_if_eq_Inr matches_iff)

lemma check_measurements_Inr:
  assumes "check_measurements document = Inr ms"
  obtains tdx a b c where "jget document ''tdx'' = Inr (PDict tdx)" "ms = [(''mrtd'', PStr a), (''rtmr1'', PStr b), (''rtmr2'', PStr c)]"
    "jget (PDict tdx) ''mrtd'' = Inr (PStr a)" "jget (PDict tdx) ''rtmr1'' = Inr (PStr b)" "jget (PDict tdx) ''rtmr2'' = Inr (PStr c)"
    "fullmatch rx_measurement a" "fullmatch rx_measurement b" "fullmatch rx_measurement c"
  using assms unfolding check_measurements_def
  by (auto simp: bnd_eq_Inr raise_if_eq_Inr check_measurement_Inr is_dict_iff)

lemma measurement_PStr:
  "jget tdx name = Inr (PStr s) \<Longrightarrow> fullmatch rx_measurement s \<Longrightarrow> measurement tdx name = Inr s"
  by (simp add: measurement_def require_def raise_if_def matches_def arg_text_PStr)

text \<open>What a successful fetch has checked, over the registry's answers.\<close>

lemma fetch_manifest_Inr:
  assumes "fetch_manifest r spec = Inr (data, facts)"
  obtains c8s pins reference artifact raw manifest measurements where
    "jidx spec ''c8s'' = Inr c8s" "jidx c8s ''nodeManifestArtifact'' = Inr pins" "jidx pins ''digest'' = Inr (PStr artifact)"
    "bnd (jidx c8s ''nodeImage'') (\<lambda>i. jidx i ''reference'') = Inr (PStr reference)"
    "raw = stdout (crane_manifest r (reference @ ''@'' @ artifact))" "sha256 raw = artifact" "loads_bytes raw = Inr manifest"
    "manifest_layer manifest = Inr (PStr (sha256 data))"
    "data = stdout (crane_blob r (reference @ ''@'' @ sha256 data))"
    "\<And>pinned. jget pins ''manifestJson'' = Inr pinned \<Longrightarrow> pinned = PNone \<or> pinned = PStr (sha256 data)"
    "bnd (loads_bytes data) check_measurements = Inr measurements"
    "facts = dupdate [(''artifact'', PStr artifact), (''manifestJson'', PStr (sha256 data))] measurements"
proof -
  obtain c8s reference pins artifact layer pinned measurements where f:
    "jidx spec ''c8s'' = Inr c8s" "bnd (jidx c8s ''nodeImage'') (\<lambda>i. jidx i ''reference'') = Inr (PStr reference)"
    "jidx c8s ''nodeManifestArtifact'' = Inr pins" "jidx pins ''digest'' = Inr (PStr artifact)"
    "manifest_json_digest r reference artifact = Inr layer" "jget pins ''manifestJson'' = Inr pinned"
    "pinned = PNone \<or> py_eq pinned layer"
    "run_crane [''crane'', ''blob'', reference @ ''@'' @ py_str layer] (crane_blob r (reference @ ''@'' @ py_str layer)) = Inr data"
    "layer = PStr (sha256 data)" "bnd (loads_bytes data) check_measurements = Inr measurements"
    "facts = dupdate [(''artifact'', PStr artifact), (''manifestJson'', layer)] measurements"
    using assms unfolding fetch_manifest_def by (elim bndE) (auto simp: raise_if_eq_Inr arg_text_Inr)
  obtain manifest where m: "sha256 (stdout (crane_manifest r (reference @ ''@'' @ artifact))) = artifact"
    "loads_bytes (stdout (crane_manifest r (reference @ ''@'' @ artifact))) = Inr manifest" "manifest_layer manifest = Inr layer"
    using f(5) unfolding manifest_json_digest_def by (elim bndE) (auto simp: raise_if_eq_Inr run_crane_def split: if_splits)
  have "data = stdout (crane_blob r (reference @ ''@'' @ sha256 data))"
    using f(8,9) by (simp add: run_crane_def split: if_splits)
  then show thesis using f m by (intro that) auto
qed

lemma digest_at_Inr:
  assumes "digest_at d k = Inr True"
  shows "\<exists>v. jidx d k = Inr v \<and> jget d k = Inr v \<and> v \<noteq> PNone"
proof -
  obtain v where v: "jget d k = Inr v" "fullmatch rx_digest (py_str v)" using assms by (auto simp: digest_at_def bnd_eq_Inr)
  then have "v \<noteq> PNone" by (auto simp: fullmatch_digest)
  with v(1) have "jidx d k = Inr v" by (auto simp: jget_eq_Inr split: option.splits)
  with v(1) \<open>v \<noteq> PNone\<close> show ?thesis by blast
qed

lemma validate_spec_node:
  assumes "validate_spec (PDict spec) = Inr spec'"
  shows "\<exists>c8s node pins reference digest artifact pinned. jidx (PDict spec) ''c8s'' = Inr c8s \<and>
     jidx c8s ''nodeImage'' = Inr node \<and> jidx node ''reference'' = Inr reference \<and> jidx node ''digest'' = Inr digest \<and>
     (\<exists>tag. jget node ''tag'' = Inr tag) \<and> jidx c8s ''nodeManifestArtifact'' = Inr pins \<and> jidx pins ''digest'' = Inr artifact \<and>
     jget pins ''manifestJson'' = Inr pinned \<and> jidx pins ''manifestJson'' = Inr pinned \<and> pinned \<noteq> PNone"
proof -
  obtain c8s where c: "jidx (PDict spec) ''c8s'' = Inr c8s" "validate_c8s c8s = Inr ()"
    using assms unfolding validate_spec_def by (auto simp: bnd_eq_Inr)
  obtain node where n: "is_dict c8s" "jgetd c8s ''nodeImage'' (PDict []) = Inr node" "digest_at node ''digest'' = Inr True"
    "bnd (jget node ''reference'') (\<lambda>v. Inr (is_str v)) = Inr True"
    "bnd (jgetd c8s ''nodeManifestArtifact'' (PDict [])) (\<lambda>a. digest_at a ''digest'') = Inr True"
    "bnd (jidx c8s ''nodeManifestArtifact'') (\<lambda>a. digest_at a ''manifestJson'') = Inr True"
    using c(2) unfolding validate_c8s_def
    by (elim bndE) (auto simp: requireM_Inr require_Inr bnd_eq_Inr split: if_splits)
  obtain d where d: "c8s = PDict d" using n(1) by (auto simp: is_dict_iff)
  have "\<exists>digest. jidx node ''digest'' = Inr digest" using digest_at_Inr [OF n(3)] by blast
  moreover have "map_of d ''nodeImage'' = Some node"
    using n(2) calculation by (auto simp: d split: option.splits)
  moreover have "\<exists>reference. jidx node ''reference'' = Inr reference"
    using n(4) calculation by (auto simp: bnd_eq_Inr res_simps split: option.splits)
  moreover obtain pins where "map_of d ''nodeManifestArtifact'' = Some pins" "digest_at pins ''digest'' = Inr True"
      "digest_at pins ''manifestJson'' = Inr True"
    using n(5,6) by (auto simp: d bnd_eq_Inr split: option.splits)
  moreover have "\<exists>tag. jget node ''tag'' = Inr tag" using calculation(1) by (auto simp: res_simps jget_PDict)
  ultimately show ?thesis
    using c(1) digest_at_Inr [of pins "''digest''"] digest_at_Inr [of pins "''manifestJson''"] by (auto simp: d)
qed

lemma check_measurements_measurement:
  assumes "check_measurements document = Inr ms"
  shows "\<exists>tdx a b c. jget document ''tdx'' = Inr (PDict tdx) \<and> ms = [(''mrtd'', PStr a), (''rtmr1'', PStr b), (''rtmr2'', PStr c)] \<and>
    measurement (PDict tdx) ''mrtd'' = Inr a \<and> measurement (PDict tdx) ''rtmr1'' = Inr b \<and> measurement (PDict tdx) ''rtmr2'' = Inr c"
  using assms by (elim check_measurements_Inr) (blast intro: measurement_PStr)

text \<open>
  C36: What \<open>fetch-node-manifest.py\<close> writes is what the release build accepts. If the fetch succeeds for a
  valid specification, the registry's artifact manifest has the pinned digest, its only \<open>manifest.json\<close> layer is
  the digest of the written bytes and the pinned one, and on these bytes \<open>node_measurements\<close> of the build
  returns the same digest and the same three measurements that the command reported.
\<close>

theorem fetched_manifest_builds:
  assumes "fetch_manifest r (PDict spec) = Inr (data, facts)" and "validate_spec (PDict spec) = Inr spec"
    and "file_bytes env p = Some data"
  shows "\<exists>artifact reference manifest f. map_of facts ''artifact'' = Some (PStr artifact) \<and>
    sha256 (stdout (crane_manifest r (reference @ ''@'' @ artifact))) = artifact \<and>
    loads_bytes (stdout (crane_manifest r (reference @ ''@'' @ artifact))) = Inr manifest \<and>
    manifest_layer manifest = Inr (PStr (sha256 data)) \<and>
    node_measurements env p spec = Inr f \<and> nf_json f = sha256 data \<and> nf_artifact f = PStr artifact \<and>
    facts = [(''artifact'', PStr artifact), (''manifestJson'', PStr (nf_json f)), (''mrtd'', PStr (nf_mrtd f)),
      (''rtmr1'', PStr (nf_rtmr1 f)), (''rtmr2'', PStr (nf_rtmr2 f))]"
proof -
  obtain c8s pins reference artifact manifest measurements where f:
    "jidx (PDict spec) ''c8s'' = Inr c8s" "jidx c8s ''nodeManifestArtifact'' = Inr pins" "jidx pins ''digest'' = Inr (PStr artifact)"
    "sha256 (stdout (crane_manifest r (reference @ ''@'' @ artifact))) = artifact"
    "loads_bytes (stdout (crane_manifest r (reference @ ''@'' @ artifact))) = Inr manifest"
    "manifest_layer manifest = Inr (PStr (sha256 data))"
    "\<And>pinned. jget pins ''manifestJson'' = Inr pinned \<Longrightarrow> pinned = PNone \<or> pinned = PStr (sha256 data)"
    "bnd (loads_bytes data) check_measurements = Inr measurements"
    "facts = dupdate [(''artifact'', PStr artifact), (''manifestJson'', PStr (sha256 data))] measurements"
    using assms(1) by (elim fetch_manifest_Inr) metis
  obtain node reference' digest tag where s: "jidx c8s ''nodeImage'' = Inr node" "jidx node ''reference'' = Inr reference'"
    "jidx node ''digest'' = Inr digest" "jget node ''tag'' = Inr tag" "jidx pins ''manifestJson'' = Inr (PStr (sha256 data))"
    using validate_spec_node [OF assms(2)] f(1,2,7) by auto
  obtain document where d: "loads_bytes data = Inr document" "check_measurements document = Inr measurements"
    using f(8) by (auto simp: bnd_eq_Inr)
  obtain tdx a b c where m: "jget document ''tdx'' = Inr (PDict tdx)"
    "measurements = [(''mrtd'', PStr a), (''rtmr1'', PStr b), (''rtmr2'', PStr c)]"
    "measurement (PDict tdx) ''mrtd'' = Inr a" "measurement (PDict tdx) ''rtmr1'' = Inr b" "measurement (PDict tdx) ''rtmr2'' = Inr c"
    using check_measurements_measurement [OF d(2)] by blast
  have t: "jgetd document ''tdx'' (PDict []) = Inr (PDict tdx)"
    using m(1) by (auto simp: res_simps split: option.splits)
  have "node_measurements env p spec = Inr \<lparr>nf_image = py_str reference' @ ''@'' @ py_str digest, nf_tag = tag,
      nf_artifact = PStr artifact, nf_json = sha256 data, nf_mrtd = a, nf_rtmr1 = b, nf_rtmr2 = c\<rparr>"
    by (simp add: node_measurements_def read_bytes_def assms(3) f(1-3) s d(1) t m(3-5) requireM_def require_def raise_if_def del: jidx.simps)
  then show ?thesis using f(4-6) by (intro exI conjI) (auto simp: f(9) m(2) dupdate_def)
qed

definition example_measurement :: string where
  "example_measurement = replicate 96 (CHR ''a'')"

definition example_node_manifest :: string where
  "example_node_manifest = dumps json_default (PDict [(''tdx'', PDict [(''mrtd'', PStr example_measurement),
     (''rtmr1'', PStr example_measurement), (''rtmr2'', PStr example_measurement)])])"

definition example_artifact :: string where
  "example_artifact = dumps json_default (PDict [(''layers'', PList [PDict [
     (''annotations'', PDict [(''org.opencontainers.image.title'', PStr MANIFEST_TITLE)]),
     (''digest'', PStr (sha256 example_node_manifest))]])])"

definition example_node_registry :: node_registry where
  "example_node_registry = \<lparr>crane_manifest = (\<lambda>_. answer example_artifact), crane_blob = (\<lambda>_. answer example_node_manifest)\<rparr>"

definition example_release_spec :: pydict where
  "example_release_spec =
     [(''c8s'', PDict [(''release'', PStr ''v0.66.0''), (''sourceCommit'', PStr (replicate 40 (CHR ''c''))),
        (''coreImages'', PList [PStr (''core@'' @ sha256 [])]),
        (''nodeImage'', PDict [(''reference'', PStr ''ghcr.io/node''), (''digest'', PStr (sha256 []))]),
        (''nodeManifestArtifact'', PDict [(''digest'', PStr (sha256 example_artifact)),
           (''manifestJson'', PStr (sha256 example_node_manifest))])]),
      (''model'', PDict [(''repository'', PStr ''org/model''), (''revision'', PStr (replicate 40 (CHR ''c''))),
         (''byteManifestSha256'', PStr (sha256_hex []))]),
      (''publicHostnames'', PList [PStr ''a.example''])]"

lemma example_measurement_ok: "fullmatch rx_measurement example_measurement" "is_ascii example_measurement"
  by (simp_all add: rx_measurement_def fullmatch_rep_class example_measurement_def list_all_iff is_hex_def is_ascii_def)

lemma example_hostname: "is_hostname ''a.example''"
proof -
  let ?label = "rx_seqs [RChr label_char,
       rx_opt (RSeq (rx_range 0 61 (RChr (\<lambda>c. label_char c \<or> c = CHR ''-''))) (RChr label_char)), rx_lit ''.'']"
  have "fullmatch ?label ''a.''"
    by (simp add: fullmatch_chr_Seq label_char_def is_lower_def)
      (auto simp: fullmatch_Seq fullmatch_opt intro: exI [of _ "[]"])
  then have "fullmatch (rx_plus ?label) ''a.''"
    unfolding rx_plus_def fullmatch_Seq by (intro exI [of _ "''a.''"] exI [of _ "[]"]) simp
  moreover have "fullmatch (rx_range 2 63 (RChr is_lower)) ''example''"
    by (simp add: rx_range_def fullmatch_lang powl_class conc_def)
      (intro exI [of _ "''ex''"] exI [of _ "''ample''"], simp add: is_lower_def)
  ultimately show ?thesis
    unfolding is_hostname_def rx_hostname_def fullmatch_Seq
    by (intro conjI exI [of _ "''a.''"] exI [of _ "''example''"]) simp_all
qed

lemma example_c8s_version: "fullmatch C8S_VERSION ''v0.66.0''"
proof -
  have "fullmatch VERSION ''v0.66.0''" by (simp add: VERSION_def rx_numeric_def rx_eval is_digit_def)
  then show ?thesis
    by (auto simp: C8S_VERSION_def fullmatch_Seq fullmatch_opt intro: exI [of _ "''v0.66.0''"])
qed

lemma example_core_image: "fullmatch rx_oci (''core@'' @ sha256 [])"
  unfolding fullmatch_oci by (intro exI [of _ "''core''"] exI [of _ "sha256 []"]) (simp add: is_space_def)

lemma example_release_spec_valid: "validate_spec (PDict example_release_spec) = Inr example_release_spec"
proof -
  have "validate_c8s (the (map_of example_release_spec ''c8s'')) = Inr ()"
    using example_c8s_version example_core_image
    by (simp add: validate_c8s_def example_release_spec_def require_def requireM_def raise_if_def matches_def
        base_release_ok_def digest_at_def unique_strings_def fullmatch_commit is_hex_def list_all_iff py_set_def)
  moreover have "validate_model (the (map_of example_release_spec ''model'')) = Inr ()"
    by (simp add: validate_model_def example_release_spec_def require_def requireM_def raise_if_def same_keys_def dkeys_def
        fullmatch_commit is_hex_def list_all_iff)
  ultimately show ?thesis
    using example_hostname
    by (simp add: validate_spec_def example_release_spec_def dkeys_def sub_keys_def require_def requireM_def raise_if_def
        unique_strings_def py_set_def)
qed

lemma example_fetched:
  "\<exists>facts. fetch_manifest example_node_registry (PDict example_release_spec) = Inr (example_node_manifest, facts)"
proof -
  have j: "loads_bytes (dumps json_default v) = Inr v" if "json_ok json_default v" for v
    using json_default_reads [OF that] by simp
  have "check_measurements (PDict [(''tdx'', PDict [(''mrtd'', PStr example_measurement),
     (''rtmr1'', PStr example_measurement), (''rtmr2'', PStr example_measurement)])]) = Inr [(''mrtd'', PStr example_measurement),
     (''rtmr1'', PStr example_measurement), (''rtmr2'', PStr example_measurement)]"
    using example_measurement_ok(1) by (simp add: check_measurements_def check_measurement_def matches_def raise_if_def)
  moreover have "loads_bytes example_node_manifest = Inr (PDict [(''tdx'', PDict [(''mrtd'', PStr example_measurement),
     (''rtmr1'', PStr example_measurement), (''rtmr2'', PStr example_measurement)])])"
    unfolding example_node_manifest_def using example_measurement_ok(2) by (intro j) (simp add: dict_ok_def)
  moreover have "bnd (loads_bytes example_artifact) manifest_layer = Inr (PStr (sha256 example_node_manifest))"
    unfolding example_artifact_def
    by (subst j) (simp_all add: dict_ok_def MANIFEST_TITLE_def is_ascii_tagged_sha256 manifest_layer_def has_title_def digest_at_def
        raise_ifM_def raise_if_def)
  ultimately show ?thesis
    by (simp add: fetch_manifest_def example_release_spec_def manifest_json_digest_def run_crane_def example_node_registry_def
        answer_def arg_text_PStr raise_if_def)
qed

theorem fetched_manifest_builds_witness:
  "\<exists>f. node_measurements (example_env\<lparr>file_bytes := [[''node-manifest.json''] \<mapsto> example_node_manifest]\<rparr>)
     [''node-manifest.json''] example_release_spec = Inr f \<and> nf_json f = sha256 example_node_manifest"
  using example_fetched fetched_manifest_builds [OF _ example_release_spec_valid,
      where env = "example_env\<lparr>file_bytes := [[''node-manifest.json''] \<mapsto> example_node_manifest]\<rparr>" and p = "[''node-manifest.json'']"]
  by fastforce

end
