(* ===== verification/Publication_Run.thy ===== *)
theory Publication_Run
  imports Release_Sources
begin

text \<open>
  \<open>scripts/find-image-publication-run.py\<close>: the workflow run whose images a release uses. The answers of the
  GitHub API and of git are arguments.
\<close>

record run_world =
  gh :: "string \<Rightarrow> completed"
  git_run :: "string list \<Rightarrow> completed"

abbreviation lookup_error :: "string \<Rightarrow> exn" where
  "lookup_error m \<equiv> Exn LookupFailure m"

definition gh_api :: "run_world \<Rightarrow> string \<Rightarrow> pyv res" where
  "gh_api w p =
     (if returncode (gh w p) \<noteq> 0
      then Inl (lookup_error (''gh api '' @ p @ '' failed: '' @ str_strip (stderr (gh w p))))
      else loads (stdout (gh w p)))"

definition artifact_name :: "string \<Rightarrow> string" where
  "artifact_name commit = ''release-image-publication-'' @ commit"

section \<open>Trusted runs\<close>

text \<open>\<open>urllib.parse.quote(s, safe='')\<close>, and \<open>quote_plus\<close>, which \<open>urlencode\<close> uses.\<close>

definition unreserved :: "char \<Rightarrow> bool" where
  "unreserved c = (is_lower c \<or> is_upper c \<or> is_digit c \<or> c \<in> set ''_.-~'')"

definition upper_hex :: "nat \<Rightarrow> char" where
  "upper_hex n = ''0123456789ABCDEF'' ! n"

definition quote_char :: "char \<Rightarrow> string" where
  "quote_char c = (if unreserved c then [c] else [CHR 0x25, upper_hex (code c div 16), upper_hex (code c mod 16)])"

definition url_quote :: "string \<Rightarrow> string" where
  "url_quote s = concat (map quote_char s)"

definition quote_plus :: "string \<Rightarrow> string" where
  "quote_plus s = concat (map (\<lambda>c. if c = CHR '' '' then ''+'' else quote_char c) s)"

definition add_candidate :: "string \<Rightarrow> pyv list \<Rightarrow> pyv \<Rightarrow> pyv list res" where
  "add_candidate name candidates artifact =
     bnd (jget artifact ''workflow_run'') (\<lambda>v.
     let workflow_run = py_or v (PDict []) in
     bnd (andsM [bnd (jget artifact ''name'') (\<lambda>n. Inr (n = PStr name)),
                 bnd (jgetd artifact ''expired'' (PBool True)) (\<lambda>x. Inr (\<not> truthy x))]) (\<lambda>current.
       if \<not> current then Inr candidates
       else bnd (jget workflow_run ''id'') (\<lambda>run_id.
         Inr (if isinstance_int run_id \<and> int_value run_id > 0 \<and> \<not> list_ex (py_eq run_id) candidates
              then candidates @ [run_id] else candidates))))"

definition run_trusted :: "string \<Rightarrow> string \<Rightarrow> string list \<Rightarrow> pyv \<Rightarrow> bool res" where
  "run_trusted repository source_commit branches r =
     andsM [bnd (jget r ''event'') (\<lambda>v. Inr (v = PStr ''workflow_dispatch'')),
            bnd (jget r ''path'') (\<lambda>v. Inr (v = PStr ''.github/workflows/release-images.yml'')),
            bnd (jget r ''conclusion'') (\<lambda>v. Inr (v = PStr ''success'')),
            bnd (jget r ''head_branch'') (\<lambda>v. Inr (v \<in> PStr ` set branches)),
            bnd (jget r ''head_sha'') (\<lambda>v. Inr (v = PStr source_commit)),
            bnd (jget r ''repository'') (\<lambda>v. bnd (jget (py_or v (PDict [])) ''full_name'') (\<lambda>n. Inr (n = PStr repository)))]"

definition trusted_runs :: "run_world \<Rightarrow> string \<Rightarrow> string \<Rightarrow> string \<Rightarrow> string list \<Rightarrow> pyv list res" where
  "trusted_runs w repository name source_commit branches =
     bnd (raise_if (\<not> fullmatch rx_commit source_commit)
            (lookup_error ''source commit must be a full lowercase Git commit'')) (\<lambda>_.
     bnd (bnd (bnd (gh_api w (''repos/'' @ repository @ ''/actions/artifacts?name='' @ quote_plus name @ ''&per_page=100''))
            (\<lambda>r. jgetd r ''artifacts'' (PList []))) jiter) (\<lambda>artifacts.
     bnd (foldM (add_candidate name) [] artifacts) (\<lambda>candidates.
       filterM (\<lambda>run_id. bnd (gh_api w (''repos/'' @ repository @ ''/actions/runs/'' @ py_str run_id))
           (run_trusted repository source_commit branches)) (sort_key int_value candidates))))"

section \<open>The run that a tag names\<close>

definition trailer_name :: string where
  "trailer_name = ''Image-Publication-Run:''"

definition rx_run_trailer :: rx where
  "rx_run_trailer = rx_seqs [rx_lit trailer_name, RStar (RChr (\<lambda>c. c = CHR '' '')), rx_digits, RStar (RChr (\<lambda>c. c = CHR '' ''))]"

text \<open>\<open>RUN_TRAILER.findall(message)\<close>: the lines that match, each reduced to its number.\<close>

definition run_trailers :: "string \<Rightarrow> string list" where
  "run_trailers message =
     map (\<lambda>line. filter is_digit (drop (length trailer_name) line))
       (filter (fullmatch rx_run_trailer) (split_char (CHR 0x0A) message))"

definition named_run :: "run_world \<Rightarrow> string \<Rightarrow> string \<Rightarrow> int option res" where
  "named_run w repository tag =
     bnd (bnd (gh_api w (''repos/'' @ repository @ ''/git/ref/tags/'' @ url_quote tag)) (\<lambda>r. jget r ''object'')) (\<lambda>v.
     let reference = py_or v (PDict []) in
     bnd (jget reference ''type'') (\<lambda>t.
       if t \<noteq> PStr ''tag'' then Inr None
       else bnd (jget reference ''sha'') (\<lambda>sha.
         bnd (bnd (gh_api w (''repos/'' @ repository @ ''/git/tags/'' @ py_str sha)) (\<lambda>r. jgetd r ''message'' (PStr []))) (\<lambda>m.
         bnd (arg_text m) (\<lambda>message.
           case run_trailers message of
             [] \<Rightarrow> Inr None
           | [number] \<Rightarrow> bnd (int_of_text number) (\<lambda>n. Inr (Some n))
           | _ \<Rightarrow> Inl (lookup_error (''the '' @ tag @ '' tag names more than one image publication run'')))))))"

section \<open>The nearest evidence\<close>

definition git :: "run_world \<Rightarrow> string list \<Rightarrow> string res" where
  "git w args =
     (if returncode (git_run w args) \<noteq> 0
      then Inl (lookup_error (''git '' @ str_join '' '' args @ '' failed: '' @ str_strip (stderr (git_run w args))))
      else Inr (stdout (git_run w args)))"

text \<open>The paths that a commit changes against its first parent, or \<open>None\<close> for a root commit.\<close>

definition commit_paths :: "run_world \<Rightarrow> string \<Rightarrow> string list option res" where
  "commit_paths w commit =
     bnd (git w [''rev-list'', ''--parents'', ''-n'', ''1'', commit]) (\<lambda>line.
       case tl (split_ws line) of
         [] \<Rightarrow> Inr None
       | parent # _ \<Rightarrow>
           bnd (git w [''diff'', ''--name-only'', ''--no-renames'', parent, commit]) (\<lambda>names. Inr (Some (splitlines names))))"

definition changes_images :: "run_world \<Rightarrow> string \<Rightarrow> bool res" where
  "changes_images w commit =
     bnd (commit_paths w commit) (\<lambda>paths.
       Inr (case paths of None \<Rightarrow> True | Some ps \<Rightarrow> affected_images ps \<noteq> []))"

definition MAX_COMMITS :: nat where
  "MAX_COMMITS = 200"

fun walk_commits ::
  "run_world \<Rightarrow> string \<Rightarrow> string \<Rightarrow> int option \<Rightarrow> string list \<Rightarrow> string list \<Rightarrow> (string \<times> pyv) res" where
  "walk_commits w repository release selected branches [] =
     Inl (lookup_error (''no image publication in the last '' @ str_of_nat MAX_COMMITS @ '' commits of '' @ release))"
| "walk_commits w repository release selected branches (commit # rest) =
     bnd (trusted_runs w repository (artifact_name commit) commit branches) (\<lambda>runs.
       if runs \<noteq> [] \<and> selected \<noteq> None
       then (let n = PInt (the selected) in
             if \<not> list_ex (py_eq n) runs
             then Inl (lookup_error (''the tag names run '' @ py_str n @ '', which is not a trusted release-images run of '' @
                    commit @ '': '' @ py_repr (PList runs)))
             else Inr (commit, n))
       else if 1 < length runs
       then Inl (lookup_error (''found more than one release-images run for '' @ commit @ '': '' @ py_repr (PList runs) @
              ''; name one in the release tag with Image-Publication-Run''))
       else if runs \<noteq> [] then Inr (commit, hd runs)
       else bnd (changes_images w commit) (\<lambda>changed.
         if changed
         then Inl (lookup_error (commit @ '' changes an image build input, and no successful release-images run on '' @
                str_join '' or '' branches @ '' published its images; run release-images at or after it''))
         else walk_commits w repository release selected branches rest))"

definition find_nearest ::
  "run_world \<Rightarrow> string \<Rightarrow> string \<Rightarrow> int option \<Rightarrow> string list \<Rightarrow> (string \<times> pyv) res" where
  "find_nearest w repository release selected branches =
     bnd (raise_if (\<not> fullmatch rx_commit release)
            (lookup_error ''the release commit must be a full lowercase Git commit'')) (\<lambda>_.
     bnd (git w [''rev-list'', ''--first-parent'', ''--max-count='' @ str_of_nat MAX_COMMITS, release]) (\<lambda>commits.
       walk_commits w repository release selected branches (split_ws commits)))"

text \<open>The command: its output and its exit code. An absent option is the empty text.\<close>

definition main_find_run :: "run_world \<Rightarrow> string \<Rightarrow> string \<Rightarrow> string \<Rightarrow> string \<Rightarrow> (string \<times> int) res" where
  "main_find_run w repository release tag branch =
     try_except
       (bnd (if tag \<noteq> [] then named_run w repository tag else Inr None) (\<lambda>selected.
        bnd (find_nearest w repository release selected (if branch \<noteq> [] then [''main'', branch] else [''main''])) (\<lambda>(commit, run_id).
          Inr (''image_source_commit='' @ commit @ nl @ ''artifact_name='' @ artifact_name commit @ nl @
               ''run_id='' @ py_str run_id @ nl, 0))))
       [LookupFailure] (\<lambda>e. Inr (''find-image-publication-run: '' @ msg e @ nl, 1))"

section \<open>The evidence and the boundary of the build\<close>

lemma walk_commits_Inr:
  assumes "walk_commits w repository release selected branches cs = Inr (commit, run_id)"
  shows "\<exists>pre post runs. cs = pre @ commit # post \<and>
    (\<forall>c \<in> set pre. trusted_runs w repository (artifact_name c) c branches = Inr [] \<and> changes_images w c = Inr False) \<and>
    trusted_runs w repository (artifact_name commit) commit branches = Inr runs \<and>
    (case selected of None \<Rightarrow> runs = [run_id] | Some n \<Rightarrow> run_id = PInt n \<and> list_ex (py_eq run_id) runs)"
  using assms
proof (induction cs)
  case (Cons c cs)
  obtain runs where r: "trusted_runs w repository (artifact_name c) c branches = Inr runs"
    using Cons.prems by (auto elim!: bndE)
  show ?case
  proof (cases "runs = []")
    case True
    then have "changes_images w c = Inr False" "walk_commits w repository release selected branches cs = Inr (commit, run_id)"
      using Cons.prems r by (auto elim!: bndE split: if_splits)
    with Cons.IH obtain pre post runs' where "cs = pre @ commit # post"
      "\<forall>c \<in> set pre. trusted_runs w repository (artifact_name c) c branches = Inr [] \<and> changes_images w c = Inr False"
      "trusted_runs w repository (artifact_name commit) commit branches = Inr runs'"
      "case selected of None \<Rightarrow> runs' = [run_id] | Some n \<Rightarrow> run_id = PInt n \<and> list_ex (py_eq run_id) runs'" by blast
    then show ?thesis
      using True r \<open>changes_images w c = Inr False\<close> by (intro exI [of _ "c # pre"] exI [of _ post] exI [of _ runs']) simp
  next
    case False
    then have "c = commit" "case selected of None \<Rightarrow> runs = [run_id] | Some n \<Rightarrow> run_id = PInt n \<and> list_ex (py_eq run_id) runs"
      using Cons.prems r by (auto simp: Let_def length_Suc_conv split: if_splits option.splits)
        (cases runs; auto)+
    then show ?thesis using r by (metis append_Nil empty_iff list.set(1))
  qed
qed simp

lemma affected_none: "affected_images ps = [] \<longleftrightarrow> (\<forall>p \<in> set ps. affected_images [p] = [])"
  by (auto simp: affected_images_def filter_empty_conv list_ex_iff)

definition release_images_run :: "pyv \<Rightarrow> string \<Rightarrow> string \<Rightarrow> string list \<Rightarrow> bool" where
  "release_images_run r repository commit branches \<longleftrightarrow>
     jget r ''event'' = Inr (PStr ''workflow_dispatch'') \<and>
     jget r ''path'' = Inr (PStr ''.github/workflows/release-images.yml'') \<and>
     jget r ''conclusion'' = Inr (PStr ''success'') \<and> jget r ''head_sha'' = Inr (PStr commit) \<and>
     (\<exists>b \<in> set branches. jget r ''head_branch'' = Inr (PStr b)) \<and>
     bnd (jget r ''repository'') (\<lambda>v. jget (py_or v (PDict [])) ''full_name'') = Inr (PStr repository)"

lemma run_trusted_Inr: "run_trusted repository commit branches r = Inr True \<Longrightarrow> release_images_run r repository commit branches"
  unfolding run_trusted_def release_images_run_def by (auto simp: bnd_eq_Inr split: if_splits)

lemma trusted_runs_Inr:
  assumes "trusted_runs w repository name commit branches = Inr runs" "run_id \<in> set runs"
  shows "\<exists>r. gh_api w (''repos/'' @ repository @ ''/actions/runs/'' @ py_str run_id) = Inr r \<and> release_images_run r repository commit branches"
proof -
  obtain cs where "filterM (\<lambda>run_id. bnd (gh_api w (''repos/'' @ repository @ ''/actions/runs/'' @ py_str run_id))
           (run_trusted repository commit branches)) cs = Inr runs"
    using assms(1) unfolding trusted_runs_def by (auto elim!: bndE)
  from filterM_Inr_iff [OF this, THEN iffD1, OF assms(2)] show ?thesis by (auto simp: bnd_eq_Inr dest: run_trusted_Inr)
qed

text \<open>The commits of the walk before the one that has the evidence.\<close>

definition later_commits :: "run_world \<Rightarrow> string \<Rightarrow> string \<Rightarrow> string list" where
  "later_commits w release commit = takeWhile (\<lambda>c. c \<noteq> commit)
     (split_ws (stdout (git_run w [''rev-list'', ''--first-parent'', ''--max-count='' @ str_of_nat MAX_COMMITS, release])))"

text \<open>
  C37: The evidence that \<open>find-image-publication-run.py\<close> selects fits the release. If the lookup returns a commit
  and a run, the run is a successful dispatch of the image workflow of this repository at that commit on a trusted
  branch; it is the only trusted run there, or the one the tag names. And the build accepts the commit as image
  source: \<open>verify_image_source_boundary\<close> passes, provided that git compares ancestors, and that a path which
  differs between the two commits was changed by one of the commits in between.
\<close>

theorem nearest_evidence_fits:
  assumes "find_nearest w repository release selected branches = Inr (commit, run_id)"
    and "returncode (git_ancestor env commit release) = 0" "returncode (git_diff env commit release) = 0"
    and "\<forall>p \<in> set (splitlines (stdout (git_diff env commit release))).
      \<exists>c ps. c \<in> set (later_commits w release commit) \<and> commit_paths w c = Inr (Some ps) \<and> p \<in> set ps"
  shows "verify_image_source_boundary env (PStr commit) release = Inr () \<and>
    (\<exists>runs named r. trusted_runs w repository (artifact_name commit) commit branches = Inr runs \<and>
       named \<in> set runs \<and> (case selected of None \<Rightarrow> runs = [run_id] | Some n \<Rightarrow> run_id = PInt n \<and> py_eq run_id named) \<and>
       gh_api w (''repos/'' @ repository @ ''/actions/runs/'' @ py_str named) = Inr r \<and>
       release_images_run r repository commit branches)"
proof -
  let ?cs = "split_ws (stdout (git_run w [''rev-list'', ''--first-parent'', ''--max-count='' @ str_of_nat MAX_COMMITS, release]))"
  have "walk_commits w repository release selected branches ?cs = Inr (commit, run_id)"
    using assms(1) unfolding find_nearest_def git_def by (auto elim!: bndE split: if_splits)
  from walk_commits_Inr [OF this] obtain pre post runs where w: "?cs = pre @ commit # post"
    "\<forall>c \<in> set pre. trusted_runs w repository (artifact_name c) c branches = Inr [] \<and> changes_images w c = Inr False"
    "trusted_runs w repository (artifact_name commit) commit branches = Inr runs"
    "case selected of None \<Rightarrow> runs = [run_id] | Some n \<Rightarrow> run_id = PInt n \<and> list_ex (py_eq run_id) runs"
    by blast
  have "runs \<noteq> []" using w(4) by (auto split: option.splits)
  then have "commit \<notin> set pre" using w(2,3) by auto
  then have later: "later_commits w release commit = pre" unfolding later_commits_def w(1) by (auto simp: takeWhile_append)
  have "affected_images [p] = []" if "c \<in> set pre" "commit_paths w c = Inr (Some ps)" "p \<in> set ps" for c ps p
    using w(2) that affected_none [of ps] by (auto simp: changes_images_def)
  then have "affected_images (splitlines (stdout (git_diff env commit release))) = []"
    using assms(4) unfolding later affected_none [of "splitlines _"] by blast
  then have "verify_image_source_boundary env (PStr commit) release = Inr ()"
    using assms(2,3) by (simp add: verify_image_source_boundary_def changed_paths_def require_def raise_if_def Let_def)
  moreover obtain named where "named \<in> set runs"
      "case selected of None \<Rightarrow> runs = [run_id] | Some n \<Rightarrow> run_id = PInt n \<and> py_eq run_id named"
    using w(4) by (auto simp: list_ex_iff split: option.splits)
  ultimately show ?thesis using w(3) trusted_runs_Inr [OF w(3)] by blast
qed

section \<open>An example\<close>

definition example_image_commit :: string where
  "example_image_commit = replicate 40 (CHR ''a'')"

definition example_release_commit :: string where
  "example_release_commit = replicate 40 (CHR ''b'')"

definition example_artifacts :: pyv where
  "example_artifacts = PDict [(''artifacts'', PList [PDict [(''name'', PStr (artifact_name example_image_commit)),
     (''expired'', PBool False), (''workflow_run'', PDict [(''id'', PInt 7)])]])]"

definition example_run :: pyv where
  "example_run = PDict [(''event'', PStr ''workflow_dispatch''), (''path'', PStr ''.github/workflows/release-images.yml''),
     (''conclusion'', PStr ''success''), (''head_branch'', PStr ''main''), (''head_sha'', PStr example_image_commit),
     (''repository'', PDict [(''full_name'', PStr ''o/r'')])]"

definition artifacts_path :: "string \<Rightarrow> string" where
  "artifacts_path commit = ''repos/o/r/actions/artifacts?name='' @ quote_plus (artifact_name commit) @ ''&per_page=100''"

definition example_run_world :: run_world where
  "example_run_world = \<lparr>
     gh = (\<lambda>p. answer (dumps json_default
       (if p = artifacts_path example_image_commit then example_artifacts else if p = ''repos/o/r/actions/runs/7'' then example_run
        else PDict []))),
     git_run = (\<lambda>args. answer
       (if hd args = ''diff'' then ''README.md'' else example_release_commit @ '' '' @ example_image_commit))\<rparr>"

definition example_build_env :: build_env where
  "example_build_env = \<lparr>repo_root = [''repo''], file_bytes = (\<lambda>_. None), dir_exists = (\<lambda>_. False), realpath = (\<lambda>p. p),
     yaml_load = (\<lambda>_. Inr PNone), is_link = (\<lambda>_. False), schema_violation = (\<lambda>_ _. None),
     cosign_version_json = Inr (answer []), cosign_verify = (\<lambda>_. Inr (answer [])), rglob = (\<lambda>_. []),
     fetch_url = (\<lambda>_. Inr []), which_cosign = None, git_ancestor = (\<lambda>_ _. answer []),
     git_diff = (\<lambda>_ _. answer ''README.md''), plain_violation = (\<lambda>_ _. None), yaml_dump = (\<lambda>_. []), tgz = (\<lambda>_. []),
     allow_tools = example_allowlist_tools\<rparr>"

lemma quote_plus_commit:
  "unreserved c \<Longrightarrow> quote_plus (artifact_name (replicate n c)) = ''release-image-publication-'' @ replicate n c"
  by (induction n) (auto simp: quote_plus_def artifact_name_def quote_char_def unreserved_def char_class_defs)

lemma run_example_paths: "artifacts_path example_release_commit \<noteq> artifacts_path example_image_commit" "artifacts_path c \<noteq> ''repos/o/r/actions/runs/7''"
  by (simp_all add: artifacts_path_def example_image_commit_def example_release_commit_def quote_plus_commit unreserved_def is_lower_def)

lemma run_example_json: "loads (dumps json_default example_artifacts) = Inr example_artifacts" "loads (dumps json_default example_run) = Inr example_run"
  "loads (dumps json_default (PDict [])) = Inr (PDict [])"
  by (rule json_default_reads; simp add: example_artifacts_def example_run_def dict_ok_def artifact_name_def example_image_commit_def is_ascii_def list_all_iff str_of_nat.simps)+

lemma example_gh: "gh_api example_run_world (artifacts_path c) = Inr (if artifacts_path c = artifacts_path example_image_commit then example_artifacts else PDict [])"
  "gh_api example_run_world ''repos/o/r/actions/runs/7'' = Inr example_run"
  using run_example_paths run_example_paths(2) [symmetric] by (simp_all add: gh_api_def example_run_world_def answer_def run_example_json)

lemma example_trusted:
  "trusted_runs example_run_world ''o/r'' (artifact_name example_release_commit) example_release_commit [''main''] = Inr []"
  "trusted_runs example_run_world ''o/r'' (artifact_name example_image_commit) example_image_commit [''main''] = Inr [PInt 7]"
proof -
  have a: "''repos/'' @ ''o/r'' @ ''/actions/artifacts?name='' @ quote_plus (artifact_name c) @ ''&per_page=100'' = artifacts_path c" for c
    by (simp add: artifacts_path_def)
  have b: "''repos/'' @ ''o/r'' @ ''/actions/runs/'' @ py_str (PInt 7) = ''repos/o/r/actions/runs/7''"
    by (simp add: str_of_int_def str_of_nat.simps char_of_eq_iff)
  have c: "fullmatch rx_commit example_release_commit" "fullmatch rx_commit example_image_commit"
    by (simp_all add: fullmatch_commit example_release_commit_def example_image_commit_def list_all_iff is_hex_def)
  show "trusted_runs example_run_world ''o/r'' (artifact_name example_release_commit) example_release_commit [''main''] = Inr []"
    unfolding trusted_runs_def a example_gh using c run_example_paths by (simp add: raise_if_def)
  have d: "foldM (add_candidate (artifact_name example_image_commit)) [] [PDict [(''name'', PStr (artifact_name example_image_commit)),
     (''expired'', PBool False), (''workflow_run'', PDict [(''id'', PInt 7)])]] = Inr [PInt 7]"
    by (simp add: add_candidate_def py_or_def)
  have e: "run_trusted ''o/r'' example_image_commit [''main''] example_run = Inr True"
    by (simp add: run_trusted_def example_run_def py_or_def)
  show "trusted_runs example_run_world ''o/r'' (artifact_name example_image_commit) example_image_commit [''main''] = Inr [PInt 7]"
    unfolding trusted_runs_def a example_gh using c d e b
    by (simp add: raise_if_def example_artifacts_def example_gh)
qed

lemma split_ws_aux_word: "list_all (\<lambda>c. \<not> is_space c) u \<Longrightarrow> split_ws_aux w (u @ v) = split_ws_aux (rev u @ w) v"
  by (induction u arbitrary: w) auto

lemma split_ws_two:
  assumes "list_all (\<lambda>c. \<not> is_space c) u" "list_all (\<lambda>c. \<not> is_space c) v" "u \<noteq> []" "v \<noteq> []"
  shows "split_ws (u @ '' '' @ v) = [u, v]"
  using assms split_ws_aux_word [of v "[]" "[]"] by (simp add: split_ws_def split_ws_aux_word is_space_def)

lemma example_find_nearest:
  "find_nearest example_run_world ''o/r'' example_release_commit None [''main''] = Inr (example_image_commit, PInt 7)"
proof -
  have s: "split_ws (example_release_commit @ '' '' @ example_image_commit) = [example_release_commit, example_image_commit]"
    by (rule split_ws_two) (simp_all add: example_release_commit_def example_image_commit_def list_all_iff is_space_def)
  have g: "git example_run_world args = Inr (if hd args = ''diff'' then ''README.md'' else example_release_commit @ '' '' @ example_image_commit)"
    for args by (simp add: git_def example_run_world_def answer_def)
  have "affected_images [''README.md''] = []"
    by (simp add: affected_images_def IMAGES_def RUST_IMAGE_INPUTS_def)
  then have "changes_images example_run_world example_release_commit = Inr False"
    by (simp add: changes_images_def commit_paths_def g s [simplified] splitlines_def splitlines_keepends_def is_line_break_def)
  moreover have "fullmatch rx_commit example_release_commit"
    by (simp add: fullmatch_commit example_release_commit_def list_all_iff is_hex_def)
  ultimately show ?thesis
    using example_trusted by (simp add: find_nearest_def g s [simplified] raise_if_def)
qed

theorem nearest_evidence_fits_witness:
  "verify_image_source_boundary example_build_env (PStr example_image_commit) example_release_commit = Inr ()"
proof -
  have s: "splitlines ''README.md'' = [''README.md'']"
    by (simp add: splitlines_def splitlines_keepends_def is_line_break_def)
  have w: "split_ws (example_release_commit @ '' '' @ example_image_commit) = [example_release_commit, example_image_commit]"
    by (rule split_ws_two) (simp_all add: example_release_commit_def example_image_commit_def list_all_iff is_space_def)
  have "example_release_commit \<noteq> example_image_commit" by (simp add: example_release_commit_def example_image_commit_def)
  then have "later_commits example_run_world example_release_commit example_image_commit = [example_release_commit]"
    by (simp add: later_commits_def example_run_world_def answer_def w [simplified])
  moreover have "commit_paths example_run_world example_release_commit = Inr (Some [''README.md''])"
    by (simp add: commit_paths_def git_def example_run_world_def answer_def w [simplified] s)
  ultimately show ?thesis
    using nearest_evidence_fits [OF example_find_nearest, of example_build_env]
    by (simp add: example_build_env_def answer_def s)
qed

end
