(* ===== verification/Admission_Check.thy ===== *)
theory Admission_Check
  imports Allowlist_Generate Py_Path
begin

text \<open>
  \<open>scripts/check-c8s-admission.py\<close>: the offline copy of the checks of the c8s admission webhook on rendered
  pod templates, and the rule on the egress of c8s workloads. The YAML parser is an argument.
\<close>

section \<open>Pods\<close>

definition POD_TEMPLATE_KINDS :: "string list" where
  "POD_TEMPLATE_KINDS = [''Deployment'', ''StatefulSet'', ''DaemonSet'', ''ReplicaSet'', ''Job'']"

type_synonym pod = "string \<times> pyv \<times> pyv"

definition template_pod :: "string \<Rightarrow> pyv \<Rightarrow> pod option res" where
  "template_pod name template =
     bnd (jgetd template ''metadata'' (PDict [])) (\<lambda>metadata.
     bnd (jgetd template ''spec'' (PDict [])) (\<lambda>spec. Inr (Some (name, metadata, spec))))"

definition pod_of :: "pyv \<Rightarrow> pod option res" where
  "pod_of item =
     bnd (jget item ''kind'') (\<lambda>kind.
     bnd (bnd (jgetd item ''metadata'' (PDict [])) (\<lambda>m. jget m ''name'')) (\<lambda>n.
     let name = py_str kind @ ''/'' @ py_str n in
     if kind = PStr ''Pod'' then template_pod name item
     else bnd (in_strs kind POD_TEMPLATE_KINDS) (\<lambda>templated.
       if templated then bnd (bnd (jidx item ''spec'') (\<lambda>s. jidx s ''template'')) (template_pod name)
       else if kind = PStr ''CronJob''
       then bnd (bnd (bnd (bnd (jidx item ''spec'') (\<lambda>s. jidx s ''jobTemplate'')) (\<lambda>j. jidx j ''spec''))
              (\<lambda>s. jidx s ''template'')) (template_pod name)
       else Inr None)))"

section \<open>Probes\<close>

definition MESH_PORTS :: "int list" where
  "MESH_PORTS = [15001, 15006, 15021]"

definition MESH_PROBE_TIMEOUT :: int where
  "MESH_PROBE_TIMEOUT = 5"

definition path_char :: "char \<Rightarrow> bool" where
  "path_char c = (is_upper c \<or> is_lower c \<or> is_digit c \<or> c \<in> set ''-._~'')"

definition PROBE_PATH :: rx where
  "PROBE_PATH = rx_plus (RSeq (rx_lit ''/'') (RStar (RChr path_char)))"

definition forwardable_path :: "string \<Rightarrow> bool" where
  "forwardable_path p =
     (let cleaned = (if p \<noteq> ''/'' then normpath p else ''/'') in
      (cleaned = p \<or> (cleaned \<noteq> ''/'' \<and> cleaned @ ''/'' = p)) \<and> fullmatch PROBE_PATH p)"

text \<open>\<open>a > b\<close> on numbers.\<close>

definition num_greater :: "pyv \<Rightarrow> int \<Rightarrow> bool res" where
  "num_greater v i =
     (case num_of v of
        Some (Flt q) \<Rightarrow> Inr (q > of_int i) | Some PosInf \<Rightarrow> Inr True | Some _ \<Rightarrow> Inr False | None \<Rightarrow> type_error)"

text \<open>\<open>port.isdigit()\<close> of an ASCII text.\<close>

definition isdigit :: "string \<Rightarrow> bool" where
  "isdigit s = (s \<noteq> [] \<and> list_all is_digit s)"

text \<open>The declared ports of a container: a later port replaces an earlier one of the same name.\<close>

definition declared_ports :: "pyv \<Rightarrow> (pyv \<times> pyv) list res" where
  "declared_ports container =
     bnd (bnd (jgetd container ''ports'' (PList [])) jiter) (\<lambda>ports.
     bnd (mapM (\<lambda>p. bnd (jget p ''name'') (\<lambda>n. bnd (jidx p ''containerPort'') (\<lambda>c.
            if hashable n then Inr (n, c) else type_error))) ports) (\<lambda>named.
       Inr (dupdate [] named)))"

definition path_problem :: "pyv \<Rightarrow> string option res" where
  "path_problem request =
     bnd (jget request ''path'') (\<lambda>v.
     bnd (str_method (py_or v (PStr ''/''))) (\<lambda>p.
       Inr (if startswith p ''/probe/'' then Some (''probe path '' @ str_repr p @ '' is reserved for generated probes'')
            else if \<not> forwardable_path p
            then Some (''probe path '' @ str_repr p @ '' must be a clean absolute path of unreserved characters'')
            else None)))"

definition port_problem :: "pyv \<Rightarrow> pyv \<Rightarrow> string option res" where
  "port_problem request port =
     bnd (py_int port) (\<lambda>n.
       if n \<in> set MESH_PORTS then Inr (Some (''probe port '' @ py_str port @ '' is a mesh port''))
       else path_problem request)"

definition probe_port :: "pyv \<Rightarrow> pyv \<Rightarrow> string option res" where
  "probe_port container request =
     bnd (jget request ''port'') (\<lambda>port.
       case port of
         PStr s \<Rightarrow>
           if isdigit s then port_problem request port
           else bnd (declared_ports container) (\<lambda>declared.
             case map_of declared port of
               None \<Rightarrow> Inr (Some (''probe port '' @ str_repr s @ '' is declared by no port of the container''))
             | Some p \<Rightarrow> port_problem request p)
       | _ \<Rightarrow> port_problem request port)"

definition probe_problem :: "pyv \<Rightarrow> pyv \<Rightarrow> string option res" where
  "probe_problem container probe =
     bnd (orsM [jin ''tcpSocket'' probe, jin ''grpc'' probe]) (\<lambda>other.
       if other then Inr (Some ''tcpSocket and grpc probes cannot be forwarded; use an HTTP probe'')
       else bnd (jget probe ''httpGet'') (\<lambda>request.
         if request = PNone then Inr None
         else bnd (jget request ''host'') (\<lambda>host.
           if truthy host then Inr None
           else bnd (jget request ''httpHeaders'') (\<lambda>headers.
             if truthy headers then Inr (Some ''forwarded probes require empty httpHeaders'')
             else bnd (bnd (jgetd probe ''timeoutSeconds'' (PInt 1)) (\<lambda>t. num_greater t MESH_PROBE_TIMEOUT)) (\<lambda>slow.
               if slow
               then bnd (jidx probe ''timeoutSeconds'') (\<lambda>t. Inr (Some (''timeoutSeconds '' @ py_str t @
                      '' exceeds the mesh's '' @ str_of_int MESH_PROBE_TIMEOUT @ '' s probe budget'')))
               else bnd (jgetd request ''scheme'' (PStr ''HTTP'')) (\<lambda>scheme.
                 if scheme \<noteq> PStr ''HTTP''
                 then Inr (Some (''probe scheme '' @ py_str scheme @ '' cannot be forwarded; use HTTP''))
                 else probe_port container request))))))"

section \<open>The checks of the webhook\<close>

definition INJECTED :: "string list" where
  "INJECTED = [''c8s-cert'', ''c8s-secret'', ''c8s-volume'', ''c8s-cert-wait'', ''c8s-mesh'']"

definition CERT_VOLUME :: string where
  "CERT_VOLUME = ''c8s-certs''"

definition CERT_DIR :: string where
  "CERT_DIR = ''/etc/c8s/certs''"

definition CREDENTIAL_ANNOTATIONS :: "string list" where
  "CREDENTIAL_ANNOTATIONS =
     map (\<lambda>name. ''confidential.ai/c8s-'' @ name) [''cert-volume'', ''cert-dir'', ''cert-file'', ''key-file'', ''ca-file'']"

definition host_fields :: "string list" where
  "host_fields = [''hostNetwork'', ''hostPID'', ''hostIPC'', ''shareProcessNamespace'']"

text \<open>The findings of a loop whose body appends at most one line per element.\<close>

definition findings :: "('a \<Rightarrow> string option res) \<Rightarrow> 'a list \<Rightarrow> string list res" where
  "findings f xs = bnd (mapM f xs) (\<lambda>found. Inr (List.map_filter (\<lambda>l. l) found))"

definition host_refusal :: "string \<Rightarrow> pyv \<Rightarrow> string \<Rightarrow> string option res" where
  "host_refusal name spec field =
     bnd (jget spec field) (\<lambda>v. Inr (if truthy v then Some (name @ '': sets '' @ field) else None))"

definition annotation_refusal :: "string \<Rightarrow> pyv \<Rightarrow> string \<Rightarrow> string option res" where
  "annotation_refusal name metadata annotation =
     bnd (bnd (jgetd metadata ''annotations'' (PDict [])) (\<lambda>a. jget a annotation)) (\<lambda>v.
       Inr (if truthy v then Some (name @ '': sets '' @ annotation @ '', which the injector fixes'') else None))"

definition volume_refusal :: "string \<Rightarrow> pyv \<Rightarrow> string option res" where
  "volume_refusal name volume =
     bnd (andsM [bnd (jidx volume ''name'') (\<lambda>n. Inr (n = PStr CERT_VOLUME)),
                 bnd (bnd (jgetd volume ''emptyDir'' (PDict [])) (\<lambda>e. jget e ''medium'')) (\<lambda>m. Inr (m \<noteq> PStr ''Memory''))]) (\<lambda>bad.
       Inr (if bad then Some (name @ '': volume '' @ CERT_VOLUME @ '' must be a memory emptyDir or omitted'') else None))"

definition injected :: "pyv \<Rightarrow> bool res" where
  "injected container = bnd (jidx container ''name'') (\<lambda>n. in_strs n INJECTED)"

definition name_refusal :: "string \<Rightarrow> pyv \<Rightarrow> string option res" where
  "name_refusal name container =
     bnd (injected container) (\<lambda>b.
     bnd (jidx container ''name'') (\<lambda>n.
       Inr (if b then Some (name @ '': container name '' @ py_str n @ '' is reserved for c8s'') else None)))"

definition mounts_certs :: "pyv \<Rightarrow> pyv \<Rightarrow> bool res" where
  "mounts_certs mount p =
     orsM [bnd (jidx mount ''name'') (\<lambda>n. Inr (n = PStr CERT_VOLUME)), Inr (p = PStr CERT_DIR),
           bnd (str_method p) (\<lambda>s. Inr (startswith s (CERT_DIR @ ''/'')))]"

definition mount_refusal :: "string \<Rightarrow> pyv \<Rightarrow> string option res" where
  "mount_refusal place mount =
     bnd (jgetd mount ''mountPath'' (PStr [])) (\<lambda>p.
     bnd (mounts_certs mount p) (\<lambda>bad.
       if bad
       then bnd (jidx mount ''name'') (\<lambda>n. Inr (Some (place @ '': mounts '' @ py_str n @ '' at '' @ py_str p @
              ''; the pod's credentials are for c8s only'')))
       else Inr None))"

definition hook_refusal :: "string \<Rightarrow> pyv \<Rightarrow> string \<Rightarrow> string option res" where
  "hook_refusal place container hook =
     bnd (bnd (bnd (jgetd container ''lifecycle'' (PDict [])) (\<lambda>l. jgetd l hook (PDict []))) (jin ''httpGet'')) (\<lambda>b.
       Inr (if b then Some (place @ '': HTTP lifecycle hook '' @ hook @ '' cannot be forwarded'') else None))"

definition probe_refusal :: "string \<Rightarrow> pyv \<Rightarrow> string \<Rightarrow> string option res" where
  "probe_refusal place container kind =
     bnd (jin kind container) (\<lambda>present.
       if \<not> present then Inr None
       else bnd (bnd (jidx container kind) (probe_problem container)) (\<lambda>problem.
         Inr (map_option (\<lambda>m. place @ '' '' @ kind @ '': '' @ m) problem)))"

definition container_refusals :: "string \<Rightarrow> pyv \<Rightarrow> string list res" where
  "container_refusals name container =
     bnd (injected container) (\<lambda>skip.
       if skip then Inr []
       else bnd (jidx container ''name'') (\<lambda>n.
         let place = name @ '' container '' @ py_str n in
         bnd (bnd (bnd (jgetd container ''volumeMounts'' (PList [])) jiter) (findings (mount_refusal place))) (\<lambda>mounts.
         bnd (findings (hook_refusal place container) [''postStart'', ''preStop'']) (\<lambda>hooks.
         bnd (findings (probe_refusal place container) [''startupProbe'', ''readinessProbe'', ''livenessProbe'']) (\<lambda>probes.
           Inr (mounts @ hooks @ probes))))))"

definition webhook_refusals :: "pod \<Rightarrow> string list res" where
  "webhook_refusals p =
     (case p of (name, metadata, spec) \<Rightarrow>
        bnd (findings (host_refusal name spec) host_fields) (\<lambda>a.
        bnd (findings (annotation_refusal name metadata) CREDENTIAL_ANNOTATIONS) (\<lambda>b.
        bnd (bnd (bnd (jgetd spec ''volumes'' (PList [])) jiter) (findings (volume_refusal name))) (\<lambda>c.
        bnd (bnd (bnd (jgetd spec ''containers'' (PList [])) jiter) (findings (name_refusal name))) (\<lambda>d.
        bnd (bnd (all_containers spec) (mapM (container_refusals name))) (\<lambda>e.
          Inr (a @ b @ c @ d @ concat e)))))))"

section \<open>Egress to the CDS\<close>

definition CDS_PORT :: int where
  "CDS_PORT = 30808"

text \<open>\<open>labels.get(k)\<close> for a key of any type.\<close>

definition label_of :: "pyv \<Rightarrow> pyv \<Rightarrow> pyv res" where
  "label_of labels k = (case labels of PDict d \<Rightarrow> dget d k PNone | _ \<Rightarrow> no_attribute)"

definition expression_holds :: "pyv \<Rightarrow> pyv \<Rightarrow> bool res" where
  "expression_holds labels e =
     bnd (jidx e ''operator'') (\<lambda>operator.
       case operator of
         PStr s \<Rightarrow>
           if s = ''In'' then bnd (bnd (jidx e ''key'') (label_of labels)) (\<lambda>v. bnd (jidx e ''values'') (py_in v))
           else if s = ''NotIn''
           then bnd (bnd (bnd (jidx e ''key'') (label_of labels)) (\<lambda>v. bnd (jidx e ''values'') (py_in v))) (\<lambda>b. Inr (\<not> b))
           else if s = ''Exists'' then bnd (jidx e ''key'') (\<lambda>k. py_in k labels)
           else if s = ''DoesNotExist'' then bnd (bnd (jidx e ''key'') (\<lambda>k. py_in k labels)) (\<lambda>b. Inr (\<not> b))
           else key_error s
       | _ \<Rightarrow> if hashable operator then key_error [] else type_error)"

definition selects :: "pyv \<Rightarrow> pyv \<Rightarrow> bool res" where
  "selects selector labels =
     andsM [bnd (bnd (jgetd selector ''matchLabels'' (PDict [])) jitems)
              (allM (\<lambda>(k, v). bnd (jget labels k) (\<lambda>l. Inr (py_eq l v)))),
            bnd (bnd (jgetd selector ''matchExpressions'' (PList [])) jiter) (allM (expression_holds labels))]"

definition port_allows :: "pyv \<Rightarrow> bool res" where
  "port_allows p =
     andsM [bnd (jgetd p ''protocol'' (PStr ''TCP'')) (\<lambda>v. Inr (v = PStr ''TCP'')),
            bnd (jget p ''port'') (\<lambda>v. Inr (py_eq v (PInt CDS_PORT) \<or> v = PNone))]"

definition allows_cds :: "pyv \<Rightarrow> bool res" where
  "allows_cds rule =
     bnd (jget rule ''ports'') (\<lambda>ports.
     bnd (if \<not> truthy ports then Inr True else bnd (jiter ports) (anyM port_allows)) (\<lambda>port_ok.
     bnd (jget rule ''to'') (\<lambda>peers.
       if \<not> port_ok then Inr False
       else if \<not> truthy peers then Inr True
       else bnd (jiter peers) (anyM (jin ''ipBlock'')))))"

definition restricts_egress :: "pyv \<Rightarrow> bool res" where
  "restricts_egress d =
     bnd (jget d ''kind'') (\<lambda>kind.
       if kind \<noteq> PStr ''NetworkPolicy'' then Inr False
       else bnd (jidx d ''spec'') (\<lambda>spec.
         bnd (jin ''egress'' spec) (\<lambda>b.
         bnd (jgetd spec ''policyTypes'' (PList (if b then [PStr ''Egress''] else []))) (jin ''Egress''))))"

definition selecting_policies :: "pyv list \<Rightarrow> pyv \<Rightarrow> pyv list res" where
  "selecting_policies rules metadata =
     filterM (\<lambda>p. bnd (bnd (jidx p ''spec'') (\<lambda>s. jgetd s ''podSelector'' (PDict []))) (\<lambda>selector.
       bnd (jgetd metadata ''labels'' (PDict [])) (selects selector))) rules"

definition policy_allows_cds :: "pyv \<Rightarrow> bool res" where
  "policy_allows_cds p =
     bnd (bnd (bnd (jidx p ''spec'') (\<lambda>s. jgetd s ''egress'' (PList []))) jiter) (anyM allows_cds)"

definition egress_refusal :: "pyv list \<Rightarrow> pyv \<Rightarrow> string option res" where
  "egress_refusal rules item =
     bnd (pod_of item) (\<lambda>p.
       case p of
         None \<Rightarrow> Inr None
       | Some (name, metadata, _) \<Rightarrow>
           bnd (bnd (jgetd metadata ''annotations'' (PDict [])) (jin ''confidential.ai/cw'')) (\<lambda>cw.
             if \<not> cw then Inr None
             else bnd (selecting_policies rules metadata) (\<lambda>selecting.
               if selecting = [] then Inr None
               else bnd (anyM policy_allows_cds selecting) (\<lambda>allowed.
                 if allowed then Inr None
                 else bnd (mapM (\<lambda>p. bnd (bnd (jidx p ''metadata'') (\<lambda>m. jidx m ''name'')) arg_text) selecting) (\<lambda>names.
                   Inr (Some (name @ '': no NetworkPolicy allows egress to the CDS NodePort TCP '' @ str_of_int CDS_PORT @
                     '' (egress restricted by '' @ str_join '', '' names @ '')'')))))))"

definition cds_egress_refusals :: "pyv list \<Rightarrow> string list res" where
  "cds_egress_refusals documents =
     bnd (filterM restricts_egress documents) (\<lambda>rules. findings (egress_refusal rules) documents)"

definition document_refusals :: "pyv \<Rightarrow> string list res" where
  "document_refusals item = bnd (pod_of item) (\<lambda>p. case p of None \<Rightarrow> Inr [] | Some pod \<Rightarrow> webhook_refusals pod)"

definition refusals :: "pyv list \<Rightarrow> string list res" where
  "refusals documents =
     bnd (mapM document_refusals documents) (\<lambda>found.
     bnd (cds_egress_refusals documents) (\<lambda>egress. Inr (concat found @ egress)))"

text \<open>The command on the text it read: the lines it prints and its exit code.\<close>

definition main_admission :: "(string \<Rightarrow> pyv list res) \<Rightarrow> string option \<Rightarrow> (string list \<times> int) res" where
  "main_admission yaml_load_all input =
     (case input of
        None \<Rightarrow> Inr ([''usage: check-c8s-admission.py <rendered.yaml|->''], 2)
      | Some s \<Rightarrow>
          bnd (yaml_load_all s) (\<lambda>documents.
          bnd (refusals (filter truthy documents)) (\<lambda>found. Inr (found, if found \<noteq> [] then 1 else 0))))"

section \<open>Clean probe paths\<close>

definition segment_rest :: rx where
  "segment_rest = RSeq (RStar (RChr path_char)) (RStar (RSeq (rx_lit ''/'') (RStar (RChr path_char))))"

lemma slash_no_path_char [simp]: "\<not> path_char (CHR ''/'')"
  by (simp add: path_char_def char_class_defs)

lemma fullmatch_segment_rest: "fullmatch segment_rest s \<longleftrightarrow> list_all (\<lambda>c. path_char c \<or> c = CHR ''/'') s"
proof (induction s)
  case Nil
  show ?case by (simp add: segment_rest_def)
next
  case (Cons c s)
  have "deriv c segment_rest = (if path_char c \<or> c = CHR ''/'' then segment_rest else RZero)"
    by (auto simp: segment_rest_def rx_lit.simps)
  then show ?case using Cons by (simp add: rx_eval fullmatch_Zero)
qed

lemma PROBE_PATH_iff: "fullmatch PROBE_PATH p \<longleftrightarrow> (\<exists>r. p = CHR ''/'' # r \<and> list_all (\<lambda>c. path_char c \<or> c = CHR ''/'') r)"
proof (cases p)
  case (Cons c r)
  have "deriv c PROBE_PATH = (if c = CHR ''/'' then segment_rest else RZero)"
    by (auto simp: PROBE_PATH_def rx_plus_def segment_rest_def rx_lit.simps)
  then show ?thesis using Cons fullmatch_segment_rest by (simp add: rx_eval fullmatch_Zero)
qed (simp add: PROBE_PATH_def rx_plus_def rx_lit.simps)

definition plain_component :: "string \<Rightarrow> bool" where
  "plain_component c \<longleftrightarrow> c \<noteq> [] \<and> c \<noteq> ''.'' \<and> c \<noteq> ''..''"

definition segment_ok :: "string \<Rightarrow> bool" where
  "segment_ok s \<longleftrightarrow> plain_component s \<and> list_all path_char s"

text \<open>
  A clean path: one slash, or two, then segments of unreserved characters, none of them empty or a dot
  component, and at most one slash at the end.
\<close>

definition clean_path :: "string \<Rightarrow> bool" where
  "clean_path p \<longleftrightarrow> (\<exists>lead segs. (lead = ''/'' \<or> lead = ''//'') \<and> list_all segment_ok segs \<and>
     (p = lead @ str_join ''/'' segs \<or> segs \<noteq> [] \<and> p = lead @ str_join ''/'' segs @ ''/''))"

lemma norm_step_rooted:
  "norm_step True acc c =
     (if c = [] \<or> c = ''.'' then acc
      else if plain_component c \<or> acc \<noteq> [] \<and> \<not> plain_component (last acc) \<and> last acc = ''..'' then acc @ [c] else butlast acc)"
  by (simp add: norm_step_def plain_component_def)

lemma norm_fold_rooted:
  assumes "list_all plain_component acc" "list_all Q acc" "list_all (\<lambda>c. c = [] \<or> Q c) cs"
  shows "list_all plain_component (foldl (norm_step True) acc cs) \<and> list_all Q (foldl (norm_step True) acc cs)"
  using assms
proof (induction cs arbitrary: acc)
  case (Cons c cs)
  let ?ok = "\<lambda>xs. list_all plain_component xs \<and> list_all Q xs"
  have "plain_component (last acc)" if "acc \<noteq> []" using Cons.prems(1) that by (simp add: list_all_iff)
  then consider "norm_step True acc c = acc" | "norm_step True acc c = butlast acc"
    | "plain_component c" "norm_step True acc c = acc @ [c]"
    by (metis norm_step_rooted)
  then have "?ok (norm_step True acc c)"
  proof cases
    case 2
    then show ?thesis using Cons.prems(1,2) by (auto simp: list_all_iff dest: in_set_butlastD)
  next
    case 3
    then have "c \<noteq> []" by (simp add: plain_component_def)
    then show ?thesis using 3 Cons.prems by simp
  qed (use Cons.prems in simp)
  then show ?case using Cons by simp
qed simp

lemma norm_fold_clean:
  "list_all plain_component segs \<Longrightarrow> foldl (norm_step True) acc segs = acc @ segs"
proof (induction segs arbitrary: acc)
  case (Cons c cs)
  then have "norm_step True acc c = acc @ [c]" unfolding norm_step_rooted by (simp add: plain_component_def)
  then show ?case using Cons by simp
qed simp

lemma split_char_append: "c \<notin> set a \<Longrightarrow> split_char c (a @ c # b) = a # split_char c b"
  by (induction a) auto

lemma split_join_segments:
  assumes "segs \<noteq> []" "list_all (\<lambda>s. CHR ''/'' \<notin> set s) segs"
  shows "split_char (CHR ''/'') (str_join ''/'' segs) = segs"
    "split_char (CHR ''/'') (str_join ''/'' segs @ ''/'') = segs @ [[]]"
  using assms
proof (induction segs rule: list_nonempty_induct)
  case (single s)
  { case 1 then show ?case by (simp add: split_char_none) }
  { case 2 then show ?case by (simp add: split_char_append) }
next
  case (cons s segs)
  { case 1 then show ?case using cons by (cases segs) (simp_all add: split_char_append) }
  { case 2 then show ?case using cons by (cases segs) (simp_all add: split_char_append) }
qed

lemma segments_no_slash: "list_all segment_ok segs \<Longrightarrow> list_all (\<lambda>s. CHR ''/'' \<notin> set s) segs"
  using slash_no_path_char by (fastforce simp: list_all_iff segment_ok_def)

lemma segment_first:
  assumes "list_all segment_ok segs" "segs \<noteq> []"
  shows "\<exists>c r. str_join ''/'' segs = c # r \<and> c \<noteq> CHR ''/''"
proof -
  obtain s ss where segs: "segs = s # ss" using assms(2) by (cases segs) auto
  obtain c r where "s = c # r" "path_char c"
    using assms(1) by (cases s) (auto simp: segs segment_ok_def plain_component_def)
  then show ?thesis by (cases ss) (auto simp: segs)
qed

lemma normpath_clean:
  assumes "lead = ''/'' \<or> lead = ''//''" "list_all segment_ok segs" "segs \<noteq> []" "t = [] \<or> t = ''/''"
  shows "normpath (lead @ str_join ''/'' segs @ t) = lead @ str_join ''/'' segs"
proof -
  obtain c r where c: "str_join ''/'' segs = c # r" "c \<noteq> CHR ''/''" using segment_first [OF assms(2,3)] by blast
  have l: "leading_slashes (lead @ str_join ''/'' segs @ t) = length lead"
    using assms(1) c by (auto simp: leading_slashes_def startswith_def)
  have "split_char (CHR ''/'') (str_join ''/'' segs @ t) = segs @ (if t = [] then [] else [[]])"
    using assms(4) split_join_segments [OF assms(3) segments_no_slash [OF assms(2)]] by auto
  then have s: "split_char (CHR ''/'') (lead @ str_join ''/'' segs @ t) =
      replicate (length lead) [] @ segs @ (if t = [] then [] else [[]])"
    using assms(1) by auto
  have p: "list_all plain_component segs" using assms(2) by (auto simp: list_all_iff segment_ok_def)
  have "foldl (norm_step True) [] (replicate (length lead) [] @ segs @ (if t = [] then [] else [[]])) = segs"
    using assms(1) norm_fold_clean [OF p] by (auto simp: norm_step_rooted)
  then show ?thesis using assms(1) unfolding normpath_def l s Let_def by (auto simp: c)
qed

lemma split_pieces:
  "list_all (\<lambda>c. P c \<or> c = CHR ''/'') s \<Longrightarrow> list_all (list_all P) (split_char (CHR ''/'') s)"
  by (induction s) (auto simp: Let_def split: list.splits)

lemma joined_segments:
  "list_all segment_ok segs \<Longrightarrow> list_all (\<lambda>c. path_char c \<or> c = CHR ''/'') (str_join ''/'' segs)"
proof (induction segs)
  case (Cons s segs)
  then show ?case by (cases segs) (auto simp: segment_ok_def list_all_iff)
qed simp

lemma forwardable_path_iff: "forwardable_path p \<longleftrightarrow> clean_path p"
proof
  assume f: "forwardable_path p"
  then obtain r where p: "p = CHR ''/'' # r" and chars: "list_all (\<lambda>c. path_char c \<or> c = CHR ''/'') p"
    by (auto simp: forwardable_path_def Let_def PROBE_PATH_iff)
  define lead where "lead = replicate (leading_slashes p) (CHR ''/'')"
  define segs where "segs = foldl (norm_step True) [] (split_char (CHR ''/'') p)"
  have lead: "lead = ''/'' \<or> lead = ''//''"
    by (simp add: lead_def leading_slashes_def p startswith_def numeral_2_eq_2)
  have "leading_slashes p > 0" by (simp add: leading_slashes_def p startswith_def)
  then have n: "normpath p = lead @ str_join ''/'' segs"
    by (simp add: normpath_def Let_def lead_def segs_def p)
  have ok: "list_all segment_ok segs"
    using norm_fold_rooted [of "[]" "list_all path_char" "split_char (CHR ''/'') p"] split_pieces [OF chars]
    by (simp add: segs_def segment_ok_def list_all_iff)
  have "p = ''/'' \<or> normpath p = p \<or> normpath p \<noteq> ''/'' \<and> normpath p @ ''/'' = p"
    using f by (auto simp: forwardable_path_def Let_def split: if_splits)
  moreover have False if "normpath p \<noteq> ''/''" "normpath p @ ''/'' = p" "segs = []"
    using that lead n by (auto simp: lead_def leading_slashes_def startswith_def)
  ultimately consider "p = ''/''" | "p = lead @ str_join ''/'' segs"
    | "segs \<noteq> []" "p = lead @ str_join ''/'' segs @ ''/''"
    by (metis n append.assoc)
  then show "clean_path p"
  proof cases
    case 1
    then show ?thesis unfolding clean_path_def
      by (intro exI [of _ "''/''"] exI [of _ "[] :: string list"]) simp
  qed (use lead ok clean_path_def in blast)+
next
  assume "clean_path p"
  then obtain lead segs where l: "lead = ''/'' \<or> lead = ''//''" and s: "list_all segment_ok segs"
    and ends: "p = lead @ str_join ''/'' segs \<or> segs \<noteq> [] \<and> p = lead @ str_join ''/'' segs @ ''/''"
    unfolding clean_path_def by blast
  then obtain t where t: "t = [] \<or> t = ''/'' \<and> segs \<noteq> []" and p: "p = lead @ str_join ''/'' segs @ t"
    by (cases "p = lead @ str_join ''/'' segs") auto
  show "forwardable_path p"
  proof (cases "segs = []")
    case True
    then show ?thesis using l t p
      by (auto simp: forwardable_path_def PROBE_PATH_iff normpath_def leading_slashes_def startswith_def norm_step_def numeral_2_eq_2)
  next
    case False
    have "fullmatch PROBE_PATH p" using l t p joined_segments [OF s] by (auto simp: PROBE_PATH_iff)
    moreover have "p \<noteq> ''/''" "lead @ str_join ''/'' segs \<noteq> ''/''"
      using segment_first [OF s False] l p by auto
    ultimately show ?thesis using normpath_clean [OF l s False, of t] t p by (auto simp: forwardable_path_def Let_def)
  qed
qed

section \<open>What a run with no refusals admits\<close>

definition fieldd :: "pyv \<Rightarrow> string \<Rightarrow> pyv \<Rightarrow> pyv" where
  "fieldd v k dflt = (case v of PDict d \<Rightarrow> (case map_of d k of Some w \<Rightarrow> w | None \<Rightarrow> dflt) | _ \<Rightarrow> dflt)"

abbreviation field :: "pyv \<Rightarrow> string \<Rightarrow> pyv" where
  "field v k \<equiv> fieldd v k PNone"

definition elements :: "pyv \<Rightarrow> pyv list" where
  "elements v = (case v of PList xs \<Rightarrow> xs | _ \<Rightarrow> [])"

definition has_key :: "pyv \<Rightarrow> string \<Rightarrow> bool" where
  "has_key v k = (case v of PDict d \<Rightarrow> map_of d k \<noteq> None | _ \<Rightarrow> False)"

text \<open>The port a probe reaches: a number, or the container port of that name.\<close>

definition probe_target :: "pyv \<Rightarrow> pyv \<Rightarrow> int res" where
  "probe_target container request =
     (case field request ''port'' of
        PStr s \<Rightarrow> if isdigit s then int_of_text s
                  else bnd (declared_ports container) (\<lambda>declared. py_int (the (map_of declared (PStr s))))
      | port \<Rightarrow> py_int port)"

definition clean_target :: "pyv \<Rightarrow> bool" where
  "clean_target request =
     (case py_or (field request ''path'') (PStr ''/'') of
        PStr p \<Rightarrow> clean_path p \<and> \<not> startswith p ''/probe/'' | _ \<Rightarrow> False)"

definition forwarded_request :: "pyv \<Rightarrow> pyv \<Rightarrow> pyv \<Rightarrow> bool" where
  "forwarded_request container probe request =
     (\<not> truthy (field request ''httpHeaders'') \<and>
      num_greater (fieldd probe ''timeoutSeconds'' (PInt 1)) 5 = Inr False \<and>
      fieldd request ''scheme'' (PStr ''HTTP'') = PStr ''HTTP'' \<and>
      (case probe_target container request of Inr n \<Rightarrow> n \<notin> {15001, 15006, 15021} | Inl _ \<Rightarrow> False) \<and>
      clean_target request)"

definition forwarded_probe :: "pyv \<Rightarrow> pyv \<Rightarrow> bool" where
  "forwarded_probe container probe =
     (\<not> has_key probe ''tcpSocket'' \<and> \<not> has_key probe ''grpc'' \<and>
      (let request = field probe ''httpGet'' in
       request = PNone \<or> truthy (field request ''host'') \<or> forwarded_request container probe request))"

definition own_mount :: "pyv \<Rightarrow> bool" where
  "own_mount mount =
     (field mount ''name'' \<noteq> PStr ''c8s-certs'' \<and>
      (case fieldd mount ''mountPath'' (PStr []) of
         PStr p \<Rightarrow> p \<noteq> ''/etc/c8s/certs'' \<and> \<not> startswith p ''/etc/c8s/certs/'' | _ \<Rightarrow> False))"

definition admitted_container :: "pyv \<Rightarrow> bool" where
  "admitted_container container =
     (list_all own_mount (elements (field container ''volumeMounts'')) \<and>
      list_all (\<lambda>kind. has_key container kind \<longrightarrow> forwarded_probe container (field container kind))
        [''startupProbe'', ''readinessProbe'', ''livenessProbe''])"

text \<open>What the webhook asks of a pod.\<close>

definition admitted_pod :: "pyv \<Rightarrow> pyv \<Rightarrow> bool" where
  "admitted_pod metadata spec =
     (list_all (\<lambda>f. \<not> truthy (field spec f)) [''hostNetwork'', ''hostPID'', ''hostIPC'', ''shareProcessNamespace''] \<and>
      list_all (\<lambda>a. \<not> truthy (field (field metadata ''annotations'') a)) CREDENTIAL_ANNOTATIONS \<and>
      list_all (\<lambda>v. field v ''name'' = PStr ''c8s-certs'' \<longrightarrow> field (field v ''emptyDir'') ''medium'' = PStr ''Memory'')
        (elements (field spec ''volumes'')) \<and>
      list_all (\<lambda>c. field c ''name'' \<notin> PStr ` set INJECTED) (elements (field spec ''containers'')) \<and>
      list_all (\<lambda>c. field c ''name'' \<in> PStr ` set INJECTED \<or> admitted_container c)
        (elements (field spec ''initContainers'') @ elements (field spec ''containers'')))"

lemma fieldd_get: "jgetd v k dflt = Inr w \<Longrightarrow> fieldd v k dflt = w"
  by (auto simp: fieldd_def jgetd_eq_Inr split: option.splits)

lemma field_get: "jget v k = Inr w \<Longrightarrow> field v k = w"
  by (simp add: jget_def fieldd_get)

lemma field_idx: "jidx v k = Inr w \<Longrightarrow> fieldd v k dflt = w"
  by (auto simp: fieldd_def jidx_eq_Inr)

lemma has_key_in: "jin k v = Inr b \<Longrightarrow> has_key v k \<Longrightarrow> b"
  by (auto simp: has_key_def map_of_eq_None_iff split: pyv.splits)

lemma elements_iter: "jiter v = Inr xs \<Longrightarrow> set (elements v) \<subseteq> set xs"
  by (cases v) (auto simp: elements_def)

lemma elements_iter_get:
  "bnd (jgetd v k dflt) jiter = Inr xs \<Longrightarrow> set (elements (field v k)) \<subseteq> set xs"
  by (auto simp: bnd_eq_Inr jgetd_eq_Inr fieldd_def elements_def dest!: elements_iter split: option.splits) blast+

lemma findings_none: "findings f xs = Inr [] \<Longrightarrow> x \<in> set xs \<Longrightarrow> f x = Inr None"
  by (force simp: findings_def bnd_eq_Inr mapM_eq_Inr List.map_filter_def list_all2_conv_all_nth in_set_conv_nth
      filter_empty_conv)

lemma path_problem_none: "path_problem request = Inr None \<Longrightarrow> clean_target request"
  by (auto simp: path_problem_def clean_target_def str_method_eq_Inr forwardable_path_iff dest!: field_get
      split: if_splits elim!: bndE)

lemma port_problem_none:
  "port_problem request port = Inr None \<Longrightarrow> clean_target request \<and> (\<exists>n. py_int port = Inr n \<and> n \<notin> {15001, 15006, 15021})"
  by (auto simp: port_problem_def MESH_PORTS_def path_problem_none split: if_splits elim!: bndE)

lemma probe_port_none:
  assumes "probe_port container request = Inr None"
  shows "clean_target request \<and>
    (case probe_target container request of Inr n \<Rightarrow> n \<notin> {15001, 15006, 15021} | Inl _ \<Rightarrow> False)"
proof -
  obtain port where g: "jget request ''port'' = Inr port" using assms unfolding probe_port_def by (auto elim!: bndE)
  note a = assms [unfolded probe_port_def g, simplified] and f = field_get [OF g]
  show ?thesis
  proof (cases "is_str port")
    case False
    then show ?thesis using a f port_problem_none [of request port]
      by (cases port) (auto simp: probe_target_def)
  next
    case True
    then obtain s where s: "port = PStr s" by (auto simp: is_str_iff)
    show ?thesis
    proof (cases "isdigit s")
      case True
      then show ?thesis using a f s port_problem_none [of request port] by (auto simp: probe_target_def py_int_def)
    next
      case False
      then show ?thesis using a f s by (auto simp: probe_target_def split: option.splits dest!: port_problem_none elim!: bndE)
    qed
  qed
qed

lemma probe_problem_none:
  assumes "probe_problem container probe = Inr None"
  shows "forwarded_probe container probe"
proof -
  obtain request where r: "jin ''tcpSocket'' probe = Inr False" "jin ''grpc'' probe = Inr False"
    "jget probe ''httpGet'' = Inr request"
    using assms unfolding probe_problem_def by (auto simp: orsM_eq_False split: if_splits elim!: bndE)
  have k: "\<not> has_key probe ''tcpSocket'' \<and> \<not> has_key probe ''grpc''" using r(1,2) has_key_in by blast
  note a = assms [unfolded probe_problem_def r, simplified]
  have "forwarded_request container probe request" if r1: "request \<noteq> PNone" and r2: "\<not> truthy (field request ''host'')"
  proof -
    obtain host where h: "jget request ''host'' = Inr host" using a r1 by (auto split: if_splits elim!: bndE)
    obtain headers t where "jget request ''httpHeaders'' = Inr headers" "\<not> truthy headers"
      "jgetd probe ''timeoutSeconds'' (PInt 1) = Inr t" "num_greater t 5 = Inr False"
      "jgetd request ''scheme'' (PStr ''HTTP'') = Inr (PStr ''HTTP'')" "probe_port container request = Inr None"
      using a r1 r2 field_get [OF h] by (auto simp: h MESH_PROBE_TIMEOUT_def split: if_splits elim!: bndE)
    then show ?thesis using probe_port_none by (simp add: forwarded_request_def field_get fieldd_get)
  qed
  then show ?thesis using k field_get [OF r(3)] by (auto simp: forwarded_probe_def Let_def)
qed

lemma mount_refusal_none: "mount_refusal place mount = Inr None \<Longrightarrow> own_mount mount"
  by (auto simp: mount_refusal_def mounts_certs_def own_mount_def orsM_eq_False CERT_VOLUME_def CERT_DIR_def bnd_eq_Inr
      str_method_eq_Inr field_idx fieldd_get split: if_splits elim!: bndE)

lemma probe_refusal_none:
  "probe_refusal place container kind = Inr None \<Longrightarrow> has_key container kind \<Longrightarrow>
   forwarded_probe container (field container kind)"
  using has_key_in [of kind container False]
  by (auto simp: probe_refusal_def field_idx probe_problem_none split: if_splits elim!: bndE)

lemma injected_iff: "injected container = Inr b \<Longrightarrow> b = (field container ''name'' \<in> PStr ` set INJECTED)"
  by (auto simp: injected_def in_strs_def field_idx split: if_splits elim!: bndE)

lemma container_refusals_none:
  assumes "container_refusals name container = Inr []"
  shows "field container ''name'' \<in> PStr ` set INJECTED \<or> admitted_container container"
proof (cases "injected container = Inr True")
  case True
  then show ?thesis using injected_iff by blast
next
  case False
  obtain place ms where m: "bnd (jgetd container ''volumeMounts'' (PList [])) jiter = Inr ms"
    "findings (mount_refusal place) ms = Inr []"
    "findings (probe_refusal place container) [''startupProbe'', ''readinessProbe'', ''livenessProbe''] = Inr []"
    using assms False unfolding container_refusals_def Let_def
    by (auto simp: bnd_eq_Inr split: if_splits elim!: bndE)
  have "list_all own_mount (elements (field container ''volumeMounts''))"
    using elements_iter_get [OF m(1)] findings_none [OF m(2)] mount_refusal_none by (auto simp: list_all_iff)
  then show ?thesis using findings_none [OF m(3)] probe_refusal_none by (auto simp: admitted_container_def)
qed

lemma volume_refusal_none:
  assumes "volume_refusal name v = Inr None"
  shows "field v ''name'' = PStr ''c8s-certs'' \<longrightarrow> field (field v ''emptyDir'') ''medium'' = PStr ''Memory''"
proof
  assume n: "field v ''name'' = PStr ''c8s-certs''"
  obtain e m where "jidx v ''name'' = Inr (PStr ''c8s-certs'')" "jgetd v ''emptyDir'' (PDict []) = Inr e"
    "jget e ''medium'' = Inr m" "m = PStr ''Memory''"
    using assms n unfolding volume_refusal_def
    by (auto simp: CERT_VOLUME_def field_idx split: if_splits elim!: bndE)
  then show "field (field v ''emptyDir'') ''medium'' = PStr ''Memory''"
    by (auto simp: jgetd_eq_Inr jget_eq_Inr fieldd_def split: option.splits)
qed

lemma name_refusal_none: "name_refusal name c = Inr None \<Longrightarrow> field c ''name'' \<notin> PStr ` set INJECTED"
  using injected_iff [of c False] by (auto simp: name_refusal_def split: if_splits elim!: bndE)

lemma all_containers_elements:
  assumes "all_containers spec = Inr es"
  shows "set (elements (field spec ''initContainers'') @ elements (field spec ''containers'')) \<subseteq> set es"
proof -
  obtain a b v where v: "jgetd spec ''initContainers'' (PList []) = Inr a" "jgetd spec ''containers'' (PList []) = Inr b"
    "py_add a b = Inr v" "jiter v = Inr es"
    using assms unfolding all_containers_def by (auto elim!: bndE)
  have "set (elements (field spec ''initContainers'')) \<subseteq> set (elements a)"
    "set (elements (field spec ''containers'')) \<subseteq> set (elements b)"
    using v(1,2) by (auto simp: jgetd_eq_Inr fieldd_def elements_def split: option.splits)
  moreover have "set (elements a) \<union> set (elements b) \<subseteq> set es"
    using v(3,4) by (cases a; cases b) (auto simp: elements_def)
  ultimately show ?thesis by auto
qed

lemma webhook_refusals_none:
  assumes "webhook_refusals (name, metadata, spec) = Inr []"
  shows "admitted_pod metadata spec"
proof -
  obtain vs cs es where c: "findings (host_refusal name spec) host_fields = Inr []"
    "findings (annotation_refusal name metadata) CREDENTIAL_ANNOTATIONS = Inr []"
    "bnd (jgetd spec ''volumes'' (PList [])) jiter = Inr vs" "findings (volume_refusal name) vs = Inr []"
    "bnd (jgetd spec ''containers'' (PList [])) jiter = Inr cs" "findings (name_refusal name) cs = Inr []"
    "all_containers spec = Inr es" "\<And>e. e \<in> set es \<Longrightarrow> container_refusals name e = Inr []"
    using assms unfolding webhook_refusals_def
    by (fastforce simp: bnd_eq_Inr mapM_eq_Inr list_all2_conv_all_nth in_set_conv_nth elim!: bndE)
  have host: "\<not> truthy (field spec f)" if "f \<in> set host_fields" for f
    using findings_none [OF c(1) that] by (auto simp: host_refusal_def field_get split: if_splits elim!: bndE)
  have ann: "\<not> truthy (field (field metadata ''annotations'') a)" if "a \<in> set CREDENTIAL_ANNOTATIONS" for a
    using findings_none [OF c(2) that]
    by (auto simp: annotation_refusal_def jget_eq_Inr jgetd_eq_Inr fieldd_def split: if_splits option.splits elim!: bndE)
  have vol: "field v ''name'' = PStr ''c8s-certs'' \<longrightarrow> field (field v ''emptyDir'') ''medium'' = PStr ''Memory''"
    if "v \<in> set (elements (field spec ''volumes''))" for v
    by (rule volume_refusal_none [OF findings_none [OF c(4) subsetD [OF elements_iter_get [OF c(3)] that]]])
  have nam: "field v ''name'' \<notin> PStr ` set INJECTED" if "v \<in> set (elements (field spec ''containers''))" for v
    by (rule name_refusal_none [OF findings_none [OF c(6) subsetD [OF elements_iter_get [OF c(5)] that]]])
  have cont: "field v ''name'' \<in> PStr ` set INJECTED \<or> admitted_container v"
    if "v \<in> set (elements (field spec ''initContainers'') @ elements (field spec ''containers''))" for v
    by (rule container_refusals_none [OF c(8) [OF subsetD [OF all_containers_elements [OF c(7)] that]]])
  show ?thesis using host ann vol nam cont unfolding admitted_pod_def host_fields_def list_all_iff by simp
qed

text \<open>A rule that lets a pod reach the CDS: TCP 30808 or any port, to any peer or an address block.\<close>

definition cds_port :: "pyv \<Rightarrow> bool" where
  "cds_port p =
     (fieldd p ''protocol'' (PStr ''TCP'') = PStr ''TCP'' \<and>
      (py_eq (field p ''port'') (PInt 30808) \<or> field p ''port'' = PNone))"

definition cds_rule :: "pyv \<Rightarrow> bool" where
  "cds_rule rule =
     ((\<not> truthy (field rule ''ports'') \<or> (\<exists>ps. jiter (field rule ''ports'') = Inr ps \<and> list_ex cds_port ps)) \<and>
      (\<not> truthy (field rule ''to'') \<or> (\<exists>ps. jiter (field rule ''to'') = Inr ps \<and> list_ex (\<lambda>p. jin ''ipBlock'' p = Inr True) ps)))"

definition restricting :: "pyv list \<Rightarrow> pyv \<Rightarrow> pyv \<Rightarrow> bool" where
  "restricting documents metadata p =
     (p \<in> set documents \<and> restricts_egress p = Inr True \<and>
      selects (fieldd (field p ''spec'') ''podSelector'' (PDict [])) (fieldd metadata ''labels'' (PDict [])) = Inr True)"

lemma anyM_eq_True: "anyM f xs = Inr True \<Longrightarrow> \<exists>x \<in> set xs. f x = Inr True"
  by (induction xs) (auto split: if_splits elim!: bndE)

lemma port_allows_True: "port_allows p = Inr True \<Longrightarrow> cds_port p"
  by (auto simp: port_allows_def cds_port_def CDS_PORT_def fieldd_get field_get split: if_splits elim!: bndE)

lemma allows_cds_True:
  assumes "allows_cds rule = Inr True"
  shows "cds_rule rule"
proof -
  obtain ports peers where g: "jget rule ''ports'' = Inr ports" "jget rule ''to'' = Inr peers"
    using assms unfolding allows_cds_def by (auto elim!: bndE)
  have p: "(if \<not> truthy ports then Inr True else bnd (jiter ports) (anyM port_allows)) = Inr True"
    "\<not> truthy peers \<or> bnd (jiter peers) (anyM (jin ''ipBlock'')) = Inr True"
    using assms unfolding allows_cds_def g by (auto split: if_splits elim!: bndE)
  have "\<not> truthy ports \<or> (\<exists>ps. jiter ports = Inr ps \<and> list_ex cds_port ps)"
    using p(1) by (auto simp: bnd_eq_Inr list_ex_iff dest!: anyM_eq_True port_allows_True split: if_splits)
  moreover have "\<not> truthy peers \<or> (\<exists>ps. jiter peers = Inr ps \<and> list_ex (\<lambda>p. jin ''ipBlock'' p = Inr True) ps)"
    using p(2) by (auto simp: bnd_eq_Inr list_ex_iff dest!: anyM_eq_True)
  ultimately show ?thesis using field_get [OF g(1)] field_get [OF g(2)] by (simp add: cds_rule_def)
qed

lemma policy_allows_True:
  assumes "policy_allows_cds p = Inr True"
  shows "\<exists>rules. jiter (fieldd (field p ''spec'') ''egress'' (PList [])) = Inr rules \<and> list_ex cds_rule rules"
proof -
  obtain s e rules where "jidx p ''spec'' = Inr s" "jgetd s ''egress'' (PList []) = Inr e" "jiter e = Inr rules"
    "anyM allows_cds rules = Inr True"
    using assms unfolding policy_allows_cds_def by (auto elim!: bndE)
  then show ?thesis using anyM_eq_True [of allows_cds rules] allows_cds_True
    by (auto simp: field_idx fieldd_get list_ex_iff)
qed

lemma selecting_policies_iff:
  assumes "selecting_policies rules metadata = Inr ps" "\<And>p. p \<in> set rules \<longleftrightarrow> p \<in> set documents \<and> restricts_egress p = Inr True"
  shows "p \<in> set ps \<longleftrightarrow> restricting documents metadata p"
proof -
  let ?f = "\<lambda>p. bnd (bnd (jidx p ''spec'') (\<lambda>s. jgetd s ''podSelector'' (PDict []))) (\<lambda>selector.
       bnd (jgetd metadata ''labels'' (PDict [])) (selects selector))"
  have m: "p \<in> set ps \<longleftrightarrow> p \<in> set rules \<and> ?f p = Inr True" and d: "p \<in> set rules \<Longrightarrow> \<exists>b. ?f p = Inr b"
    using filterM_Inr_iff filterM_defined assms(1) unfolding selecting_policies_def by fast+
  have e: "?f p = Inr b \<Longrightarrow> ?f p = selects (fieldd (field p ''spec'') ''podSelector'' (PDict []))
      (fieldd metadata ''labels'' (PDict []))" for b
    by (auto simp: field_idx fieldd_get elim!: bndE)
  show ?thesis
  proof (cases "p \<in> set rules")
    case True
    then obtain b where b: "?f p = Inr b" using d by blast
    show ?thesis using True assms(2) unfolding restricting_def m e [OF b, symmetric] by blast
  next
    case False
    then show ?thesis using m assms(2) unfolding restricting_def by blast
  qed
qed

lemma cds_egress_none:
  assumes "cds_egress_refusals documents = Inr []" "item \<in> set documents"
    "pod_of item = Inr (Some (name, metadata, spec))" "has_key (field metadata ''annotations'') ''confidential.ai/cw''"
    "restricting documents metadata p"
  shows "\<exists>q rules. restricting documents metadata q \<and>
    jiter (fieldd (field q ''spec'') ''egress'' (PList [])) = Inr rules \<and> list_ex cds_rule rules"
proof -
  obtain rules where r: "filterM restricts_egress documents = Inr rules" "findings (egress_refusal rules) documents = Inr []"
    using assms(1) unfolding cds_egress_refusals_def by (auto elim!: bndE)
  have e: "egress_refusal rules item = Inr None" by (rule findings_none [OF r(2) assms(2)])
  obtain a cw where a: "jgetd metadata ''annotations'' (PDict []) = Inr a" "jin ''confidential.ai/cw'' a = Inr cw"
    using e unfolding egress_refusal_def assms(3) by (auto elim!: bndE)
  have "field metadata ''annotations'' = a"
    using a(1) assms(4) by (auto simp: jgetd_eq_Inr fieldd_def has_key_def split: option.splits)
  then have cw using has_key_in [OF a(2)] assms(4) by simp
  then obtain ps where s: "selecting_policies rules metadata = Inr ps" "ps = [] \<or> anyM policy_allows_cds ps = Inr True"
    using e a unfolding egress_refusal_def assms(3) by (auto split: if_splits elim!: bndE)
  have m: "q \<in> set ps \<longleftrightarrow> restricting documents metadata q" for q
    by (rule selecting_policies_iff [OF s(1) filterM_Inr_iff [OF r(1)]])
  then show ?thesis using assms(5) s(2) anyM_eq_True [of policy_allows_cds ps] policy_allows_True by force
qed


definition admit_container :: pyv where
  "admit_container = PDict [(''name'', PStr ''app''),
     (''ports'', PList [PDict [(''name'', PStr ''http''), (''containerPort'', PInt 8000)]]),
     (''readinessProbe'', PDict [(''httpGet'', PDict [(''path'', PStr ''/health''), (''port'', PStr ''http'')]),
        (''timeoutSeconds'', PInt 3)])]"

definition admit_labels :: pyv where
  "admit_labels = PDict [(''app'', PStr ''router'')]"

definition admit_metadata :: pyv where
  "admit_metadata = PDict [(''annotations'', PDict [(''confidential.ai/cw'', PStr ''router'')]), (''labels'', admit_labels)]"

definition admit_pod :: pyv where
  "admit_pod = PDict [(''containers'', PList [admit_container])]"

definition admit_policy :: pyv where
  "admit_policy = PDict [(''kind'', PStr ''NetworkPolicy''), (''metadata'', PDict [(''name'', PStr ''egress'')]),
     (''spec'', PDict [(''podSelector'', PDict [(''matchLabels'', admit_labels)]),
        (''egress'', PList [PDict [(''ports'', PList [PDict [(''port'', PInt 30808)]])]])])]"

definition admit_item :: pyv where
  "admit_item = PDict [(''kind'', PStr ''Deployment''), (''metadata'', PDict [(''name'', PStr ''router'')]),
        (''spec'', PDict [(''template'', PDict [(''metadata'', admit_metadata), (''spec'', admit_pod)])])]"

abbreviation admit_documents :: "pyv list" where
  "admit_documents \<equiv> [admit_item, admit_policy]"

lemma admit_path: "forwardable_path ''/health''" "\<not> startswith ''/health'' ''/probe/''"
  by code_simp+

lemma admit_container_ok: "container_refusals name admit_container = Inr []"
  using admit_path
  by (simp add: container_refusals_def admit_container_def injected_def INJECTED_def findings_def hook_refusal_def
      probe_refusal_def probe_problem_def num_greater_def MESH_PROBE_TIMEOUT_def probe_port_def isdigit_def is_digit_def
      declared_ports_def dupdate_def dset.simps port_problem_def py_int_def MESH_PORTS_def path_problem_def List.map_filter_def
      py_or_def)

lemma admit_pods:
  "pod_of admit_item = Inr (Some (''Deployment/router'', admit_metadata, admit_pod))" "pod_of admit_policy = Inr None"
  by (simp_all add: admit_item_def admit_policy_def pod_of_def template_pod_def POD_TEMPLATE_KINDS_def Let_def)

lemma admit_webhook: "webhook_refusals (name, admit_metadata, admit_pod) = Inr []"
  using admit_container_ok
  by (simp add: webhook_refusals_def admit_pod_def admit_metadata_def findings_def host_fields_def host_refusal_def
      annotation_refusal_def CREDENTIAL_ANNOTATIONS_def all_containers_def List.map_filter_def)
    (simp add: name_refusal_def injected_def admit_container_def INJECTED_def)

lemma admit_egress:
  "restricts_egress admit_item = Inr False" "restricts_egress admit_policy = Inr True"
  "selecting_policies [admit_policy] admit_metadata = Inr [admit_policy]" "policy_allows_cds admit_policy = Inr True"
  by (simp_all add: restricts_egress_def selecting_policies_def selects_def policy_allows_cds_def allows_cds_def port_allows_def
      admit_item_def admit_policy_def admit_metadata_def admit_labels_def CDS_PORT_def py_eq.simps)

lemma admit_annotated: "bnd (jgetd admit_metadata ''annotations'' (PDict [])) (jin ''confidential.ai/cw'') = Inr True"
  by (simp add: admit_metadata_def)

lemma admit_no_refusal: "refusals admit_documents = Inr []"
  using admit_webhook
  by (simp add: refusals_def document_refusals_def admit_pods cds_egress_refusals_def admit_egress findings_def
      egress_refusal_def List.map_filter_def admit_annotated)


end
