(* ===== verification/Spec2Isabelle.thy ===== *)
theory Spec2Isabelle
  imports Source_Lock Model_Mount Private_Router Pair_Safety Stack_Snapshots Release_Build Node_Manifest Publication_Run
    Admission_Check
begin

text \<open>
  A verification of the Python programs of the confidential-inference repository. The repository builds and
  releases a confidential inference service. Two groups of programs carry its guarantees.

  \<^item> At run time: \<open>images/sglang/wait_for_model.py\<close> starts a server only on a verified model volume;
    \<open>images/sglang/pair_supervisor.py\<close> runs one pair of a prefill and a decode worker;
    \<open>images/sglang-router/private_router.py\<close> runs the router and lets only reviewed records out;
    \<open>images/sglang-router/private_log_sink.py\<close> sends the records of both to the collector.
  \<^item> At release time: \<open>scripts/build-release-manifest.py\<close> builds the files of a release. It reads the
    profiles (\<open>release_profiles.py\<close>), the images that changed and were published
    (\<open>affected-release-images.py\<close>, \<open>image-publication-manifest.py\<close>), the signed base release
    (\<open>release_signature.py\<close>), and generates the allowlist that the cluster enforces
    (\<open>generate-release-allowlist.py\<close>, with the c8s seed of \<open>c8s_release.py\<close>).
    \<open>verify-c8s-admission-source.py\<close> checks the pinned c8s sources.

  \<^bold>\<open>The language.\<close> Exceptions are values: an operation that may raise returns \<open>exn + 'a\<close>, so every raise and
  every early return of the source is a branch (\<open>Py_Base\<close>). Strings are lists of bytes in UTF-8, with the
  methods the sources use (\<open>Py_Text\<close>). JSON and YAML values are the datatype \<open>pyv\<close>, dictionaries are
  association lists in insertion order with the locale \<open>dictionary\<close> as their contract (\<open>Py_Value\<close>). The JSON
  parser and printer are modelled with their round trip (\<open>Py_Json\<close>); regular expressions have a matcher that
  is proved to decide their language (\<open>Py_Regex\<close>); SHA-256 is the function of FIPS 180-4 on words of 32 bits
  (\<open>Sha256\<close>).

  \<^bold>\<open>What surrounds the programs\<close> is a parameter: the files of the checkout and the YAML parser (\<open>Repo_Env\<close>), a
  POSIX file tree with symbolic links (\<open>File_Tree\<close>), the answers of git, helm, cosign, crane, the c8s tools, the
  network, the clock, signals and processes, each as a field of a record of answers. A theorem holds for every
  such record unless it names a hypothesis, and then a witness shows a record that satisfies it.

  \<^bold>\<open>Components.\<close>
  \<^item> \<open>Model_Mount\<close> (\<open>wait_for_model.py\<close>): the mount record, the byte manifest, the walk of the volume, the
    attempts and the start of the server. A passed attempt shows that the volume is exactly the pinned model; no
    process starts without one; the wait ends.
  \<^item> \<open>Log_Sink\<close> (\<open>private_log_sink.py\<close>): the bounded queue, the sender thread as steps of an inductive relation,
    the endpoint check. No record is lost uncounted, only submitted records are posted, only inside the cluster.
    The locale \<open>reviewed_source\<close> is the contract of a program that feeds the sink.
  \<^item> \<open>Private_Router\<close> (\<open>private_router.py\<close>): the line reader, the filter of records, the guarded child. The
    read loop is the line filter it stands for; every record on any output has reviewed fields and safe values.
  \<^item> \<open>Pair_Events\<close>, \<open>Pair_Supervisor\<close>, \<open>Pair_Safety\<close> (\<open>pair_supervisor.py\<close>): configuration, event review, rank
    records; the state of the supervisor with its start, monitor and shutdown; what it guarantees. The locale
    \<open>frame\<close> carries invariants through the operations of its state monad. A ready status rests on recent
    evidence, the start follows one order, exit code 0 means a clean stop, start, main and shutdown end.
  \<^item> \<open>Stack_Snapshots\<close> (\<open>pair_diagnostics.py\<close>): the collector of stack snapshots as interleaved actions. In every
    interleaving it exports only records that the review of \<open>Pair_Events\<close> accepts, and signals only known workers.
  \<^item> \<open>Source_Lock\<close> (\<open>verify-c8s-admission-source.py\<close>): the source lock, the files of the pinned commit.
  \<^item> \<open>Release_Profiles\<close> (\<open>release_profiles.py\<close>): profiles, tags, layered values and specifications.
  \<^item> \<open>C8s_Release\<close> (\<open>c8s_release.py\<close>): versions and channels of c8s, the check of a tag, the signed seed.
  \<^item> \<open>Release_Signature\<close> (\<open>release_signature.py\<close>, \<open>verify-release-bundle-signature.py\<close>): the trust policy, the
    identity of the release workflow and the verification by Cosign.
  \<^item> \<open>Allowlist_Rules\<close>, \<open>Allowlist_Generate\<close> (\<open>generate-release-allowlist.py\<close>): the environment, process and
    mount rules of a container, then the entries of the workloads, the seed, the lint check and the record of the
    image configurations. The rules are exactly what the pinned sources give.
  \<^item> \<open>Image_Publication\<close> (\<open>affected-release-images.py\<close>, \<open>image-publication-manifest.py\<close>): the image registry, the
    selection by changed paths, the content revision and the publication evidence.
  \<^item> \<open>Manifest_Inputs\<close>, \<open>Release_Sources\<close>, \<open>Release_Build\<close> (\<open>build-release-manifest.py\<close>): the checks of the
    inputs, the signed sources and the transition policy, the build and its command. The published files belong
    together: the manifest records their digests, and the chart, rendered with the published values, runs only images
    of the published allowlist.
  \<^item> \<open>Node_Manifest\<close> (\<open>fetch-node-manifest.py\<close>): the download through the pinned digests. What it writes, the build
    accepts.
  \<^item> \<open>Publication_Run\<close> (\<open>find-image-publication-run.py\<close>): the walk to the nearest trusted publication. What it
    selects passes the image boundary that the build checks.
  \<^item> \<open>Admission_Check\<close> (\<open>check-c8s-admission.py\<close>, with \<open>posixpath.normpath\<close> in \<open>Py_Path\<close>): the offline copy of the
    webhook's checks. A run without refusals means that every pod satisfies the stated conditions; the test on probe
    paths is proved equal to a description of clean paths.

  \<^bold>\<open>Bounds and fuel.\<close> The JSON parser counts down from twice the length of its text, and \<open>jvalue_fuel\<close> shows
  that the count is never what stops it. Path resolution follows at most forty links, as Linux does. The wait
  loop of the model wrapper and the loops of the supervisor are partial functions into \<open>option\<close>, and theorems
  show that they return when the clock runs on. All other recursion is structural or has a termination proof.

  \<^bold>\<open>Not modelled.\<close> \<open>images/sglang/simulator-upstream\<close> is a vendored simulator that computes with floating point
  numbers inside classes of SGLang, which is not in the repository. \<open>bump-c8s.py\<close>, \<open>smoke-images.py\<close>,
  \<open>pin-local-c8s.py\<close>, \<open>publish.py\<close>, \<open>fetch_source.py\<close>, \<open>rehearsal\<close> and the wheel tools drive external commands and
  edit files of the checkout. \<open>fetch_model.py\<close> downloads the files of a model. \<open>harden_http.py\<close> patches classes of
  SGLang inside the worker process. The staging validation agent talks to a live cluster. The Rust services and the Helm charts
  are other languages; what the programs above rely on of them is a parameter.
\<close>

end
